(* ===== verification/Prelude.thy ===== *)
theory Prelude
  imports Main "HOL-Library.Word"
begin

text \<open>
  Shared vocabulary of the development: machine integers and byte strings, the
  library's error codes, results of fallible C functions, and functions that also
  thread a state (a random number generator, a store).

  \<^item> \<open>byte\<close>, \<open>u32\<close>, \<open>u64\<close> are \<open>uint8_t\<close>, \<open>uint32_t\<close>, \<open>uint64_t\<close>. A buffer
    (a pointer with its length, or a \<open>signal_buffer\<close>) is a byte list, a pointer
    that may be \<open>NULL\<close> an option.
  \<^item> A C function that returns a negative code or stores a result through a pointer
    returns \<open>'a result\<close>: \<open>Inl\<close> the code, \<open>Inr\<close> the stored result.
  \<^item> \<open>SG_ABORT\<close> is no code of the library: it marks an execution that leaves the
    defined behaviour of C (a failed \<open>assert\<close>, a read outside a buffer).
\<close>

section \<open>Integers and bytes\<close>

type_synonym byte = "8 word"
type_synonym u32 = "32 word"
type_synonym u64 = "64 word"
type_synonym bytes = "byte list"

named_theorems result_simps \<open>rewriting of results and stateful actions\<close>

section \<open>Error codes and results\<close>

datatype sg_error =
    SG_ERR_NOMEM
  | SG_ERR_INVAL
  | SG_ERR_UNKNOWN
  | SG_ERR_DUPLICATE_MESSAGE
  | SG_ERR_INVALID_KEY
  | SG_ERR_INVALID_KEY_ID
  | SG_ERR_INVALID_MAC
  | SG_ERR_INVALID_MESSAGE
  | SG_ERR_INVALID_VERSION
  | SG_ERR_LEGACY_MESSAGE
  | SG_ERR_NO_SESSION
  | SG_ERR_STALE_KEY_EXCHANGE
  | SG_ERR_UNTRUSTED_IDENTITY
  | SG_ERR_VRF_SIG_VERIF_FAILED
  | SG_ERR_INVALID_PROTO_BUF
  | SG_ERR_FP_VERSION_MISMATCH
  | SG_ERR_FP_IDENT_MISMATCH
  | SG_ERR_CODE int
  | SG_ABORT

type_synonym 'a result = "sg_error + 'a"

definition rbind :: "'a result \<Rightarrow> ('a \<Rightarrow> 'b result) \<Rightarrow> 'b result" where
  "rbind m k = (case m of Inl e \<Rightarrow> Inl e | Inr x \<Rightarrow> k x)"

text \<open>A pointer the code asserts to be non-null, or dereferences without a check.\<close>

definition deref :: "'a option \<Rightarrow> 'a result" where
  "deref p = (case p of None \<Rightarrow> Inl SG_ABORT | Some x \<Rightarrow> Inr x)"

text \<open>A loop over a list that stops at the first error.\<close>

fun mapM_result :: "('a \<Rightarrow> 'b result) \<Rightarrow> 'a list \<Rightarrow> 'b list result" where
  "mapM_result f [] = Inr []"
| "mapM_result f (x # xs) = rbind (f x) (\<lambda>y. rbind (mapM_result f xs) (\<lambda>ys. Inr (y # ys)))"

section \<open>Results with a state\<close>

type_synonym ('w, 'a) act = "'w \<Rightarrow> 'a result \<times> 'w"

definition sreturn :: "'a \<Rightarrow> ('w, 'a) act" where
  "sreturn x w = (Inr x, w)"

definition sfail :: "sg_error \<Rightarrow> ('w, 'a) act" where
  "sfail e w = (Inl e, w)"

definition slift :: "'a result \<Rightarrow> ('w, 'a) act" where
  "slift r w = (r, w)"

definition sbind :: "('w, 'a) act \<Rightarrow> ('a \<Rightarrow> ('w, 'b) act) \<Rightarrow> ('w, 'b) act" where
  "sbind m k w = (case m w of (Inl e, w') \<Rightarrow> (Inl e, w') | (Inr x, w') \<Rightarrow> k x w')"

section \<open>Rewriting of results\<close>

lemma rbind_Inl [simp, result_simps]: "rbind (Inl e) k = Inl e"
  by (simp add: rbind_def)

lemma rbind_Inr [simp, result_simps]: "rbind (Inr x) k = k x"
  by (simp add: rbind_def)

lemma rbind_eq_Inr [result_simps]: "rbind m k = Inr y \<longleftrightarrow> (\<exists>x. m = Inr x \<and> k x = Inr y)"
  by (cases m) auto

lemma rbind_eq_Inl: "rbind m k = Inl e \<longleftrightarrow> m = Inl e \<or> (\<exists>x. m = Inr x \<and> k x = Inl e)"
  by (cases m) auto

lemma rbind_return [simp]: "rbind m Inr = m"
  by (cases m) auto

lemma rbind_assoc: "rbind (rbind m f) g = rbind m (\<lambda>x. rbind (f x) g)"
  by (cases m) auto

lemma rbind_cong [fundef_cong]:
  "m = m' \<Longrightarrow> (\<And>x. m' = Inr x \<Longrightarrow> k x = k' x) \<Longrightarrow> rbind m k = rbind m' k'"
  by (cases m') auto

lemma deref_simps [simp, result_simps]: "deref None = Inl SG_ABORT" "deref (Some x) = Inr x"
  by (simp_all add: deref_def)

lemma deref_eq_Inr [simp]: "deref p = Inr x \<longleftrightarrow> p = Some x"
  by (cases p) auto

lemma sbind_eq_Inr [result_simps]:
  "sbind m k w = (Inr y, w'') \<longleftrightarrow> (\<exists>x w'. m w = (Inr x, w') \<and> k x w' = (Inr y, w''))"
  by (auto simp: sbind_def split: prod.splits sum.splits)

lemma sbind_Inr: "m w = (Inr x, w') \<Longrightarrow> sbind m k w = k x w'"
  by (simp add: sbind_def)

lemma sbind_Inl: "m w = (Inl e, w') \<Longrightarrow> sbind m k w = (Inl e, w')"
  by (simp add: sbind_def)

lemma sbind_slift [simp, result_simps]:
  "sbind (slift (Inr x)) k w = k x w" "sbind (slift (Inl e)) k w = (Inl e, w)"
  by (simp_all add: sbind_def slift_def)

lemma sbind_sreturn [simp, result_simps]: "sbind (sreturn x) k w = k x w"
  by (simp add: sbind_def sreturn_def)

lemma sbind_sfail [simp, result_simps]: "sbind (sfail e) k w = (Inl e, w)"
  by (simp add: sbind_def sfail_def)

lemma sreturn_eq [simp, result_simps]: "sreturn x w = (r, w') \<longleftrightarrow> r = Inr x \<and> w' = w"
  by (auto simp: sreturn_def)

lemma sfail_eq [simp, result_simps]: "sfail e w = (r, w') \<longleftrightarrow> r = Inl e \<and> w' = w"
  by (auto simp: sfail_def)

lemma slift_eq [simp, result_simps]: "slift m w = (r, w') \<longleftrightarrow> r = m \<and> w' = w"
  by (auto simp: slift_def)

lemma slift_eq_Inr: "slift m w = (Inr x, w') \<longleftrightarrow> m = Inr x \<and> w' = w"
  by (auto simp: slift_def)

lemma mapM_result_Inr_iff:
  "mapM_result f xs = Inr ys \<longleftrightarrow> list_all2 (\<lambda>x y. f x = Inr y) xs ys"
proof (induction xs arbitrary: ys)
  case Nil
  then show ?case by auto
next
  case (Cons x xs)
  then show ?case
    by (cases ys) (auto simp: rbind_eq_Inr)
qed

lemma mapM_result_map:
  "(\<And>x. x \<in> set xs \<Longrightarrow> f (g x) = Inr (h x)) \<Longrightarrow> mapM_result f (map g xs) = Inr (map h xs)"
  by (induction xs) auto

lemma mapM_result_length: "mapM_result f xs = Inr ys \<Longrightarrow> length ys = length xs"
  by (simp add: mapM_result_Inr_iff list_all2_lengthD)

section \<open>Lists\<close>

text \<open>The loop that deletes list heads while the list is longer than \<open>n\<close>.\<close>

fun trim_front :: "nat \<Rightarrow> 'a list \<Rightarrow> 'a list" where
  "trim_front n [] = []"
| "trim_front n (x # xs) = (if length (x # xs) > n then trim_front n xs else x # xs)"

lemma trim_front_drop: "trim_front n xs = drop (length xs - n) xs"
  by (induction xs) (auto simp: Suc_diff_le)

text \<open>Changing or unlinking the first node that satisfies a condition.\<close>

fun update_first :: "('a \<Rightarrow> bool) \<Rightarrow> ('a \<Rightarrow> 'a) \<Rightarrow> 'a list \<Rightarrow> 'a list" where
  "update_first p f [] = []"
| "update_first p f (x # xs) = (if p x then f x # xs else x # update_first p f xs)"

fun remove_first :: "('a \<Rightarrow> bool) \<Rightarrow> 'a list \<Rightarrow> ('a \<times> 'a list) option" where
  "remove_first p [] = None"
| "remove_first p (x # xs) =
     (if p x then Some (x, xs) else map_option (\<lambda>(r, rest). (r, x # rest)) (remove_first p xs))"

lemma find_set: "find p xs = Some x \<Longrightarrow> x \<in> set xs \<and> p x"
  by (induction xs) (auto split: if_splits)

lemma update_first_list_all:
  assumes "list_all P xs" "\<And>x. x \<in> set xs \<Longrightarrow> P x \<Longrightarrow> P (f x)"
  shows "list_all P (update_first p f xs)"
  using assms by (induction xs) auto

lemma length_update_first [simp]: "length (update_first p f xs) = length xs"
  by (induction xs) auto

lemma update_first_at: "find p xs = Some x \<Longrightarrow> update_first p f xs = update_first p (\<lambda>_. f x) xs"
  by (induction xs) (auto split: if_splits)

lemma update_first_get: "find p xs = Some x \<Longrightarrow> update_first p (\<lambda>_. x) xs = xs"
  by (induction xs) (auto split: if_splits)

lemma find_update_first_at: "find p xs = Some x \<Longrightarrow> p y \<Longrightarrow> find p (update_first p (\<lambda>_. y) xs) = Some y"
  by (induction xs) (auto split: if_splits)

lemma update_first_twice:
  "p y \<Longrightarrow> update_first p (\<lambda>_. z) (update_first p (\<lambda>_. y) xs) = update_first p (\<lambda>_. z) xs"
  by (induction xs) auto

lemma remove_first_Some:
  "remove_first p xs = Some (x, rest) \<Longrightarrow>
    x \<in> set xs \<and> p x \<and> set rest \<subseteq> set xs \<and> length xs = Suc (length rest)"
  by (induction xs arbitrary: rest) (fastforce split: if_splits)+

lemma remove_first_None: "remove_first p xs = None \<longleftrightarrow> (\<forall>x \<in> set xs. \<not> p x)"
  by (induction xs) auto

lemma remove_first_key:
  assumes "remove_first (\<lambda>x. f x = k) xs = Some (x, rest)" "distinct (map f xs)"
  shows "distinct (map f rest)" "set rest = set xs - {x}" "k \<notin> f ` set rest"
proof -
  have "distinct (map f rest) \<and> set rest = set xs - {x} \<and> k \<notin> f ` set rest"
    using assms
  proof (induction xs arbitrary: rest)
    case (Cons a xs)
    then show ?case
      using remove_first_Some [of "\<lambda>x. f x = k" xs x] by (fastforce split: if_splits)
  qed simp
  then show "distinct (map f rest)" "set rest = set xs - {x}" "k \<notin> f ` set rest"
    by blast+
qed

lemma remove_first_member:
  assumes "distinct (map f xs)" "x \<in> set xs"
  shows "\<exists>rest. remove_first (\<lambda>y. f y = f x) xs = Some (x, rest)"
  using assms
proof (induction xs)
  case (Cons a xs)
  show ?case
    using Cons by (cases "f a = f x") (auto simp: image_iff)
qed simp

lemma find_append_new:
  assumes "find p xs = None" "p x"
  shows "find p (drop k xs @ [x]) = Some x"
proof -
  have "find p ys = None \<Longrightarrow> find p (ys @ [x]) = Some x" for ys
    using assms(2) by (induction ys) (auto split: if_splits)
  moreover have "find p (drop k xs) = None"
    using assms(1) by (auto simp: find_None_iff dest: in_set_dropD)
  ultimately show ?thesis
    by blast
qed

lemma foldl_const: "foldl (\<lambda>r i. r) z xs = z"
  by (induction xs) simp_all

lemma list_all_take: "list_all P xs \<Longrightarrow> list_all P (take n xs)"
  by (meson list_all_iff in_set_takeD)

lemma sum_list_map_le:
  assumes "\<And>x. x \<in> set xs \<Longrightarrow> f x \<le> (b :: nat)" "length xs \<le> n"
  shows "sum_list (map f xs) \<le> n * b"
proof -
  have "sum_list (map f xs) \<le> length xs * b"
    using assms(1) by (induction xs) (simp_all add: add_mono)
  also have "\<dots> \<le> n * b"
    using assms(2) by simp
  finally show ?thesis .
qed

lemma funpow_then: "(f ^^ (h + n)) x = (f ^^ n) ((f ^^ h) x)"
  by (metis add.commute comp_apply funpow_add)

section \<open>Counters\<close>

lemma u32_bound: "unat (x :: u32) < 4294967296"
  using unsigned_less [of x] by simp

lemma unat_add_1: "(a :: u32) < b \<Longrightarrow> unat (a + 1) = Suc (unat a)"
proof -
  assume "a < b"
  then have "a + 1 \<noteq> 0"
    using word_n1_ge [of b] by (auto simp flip: eq_neg_iff_add_eq_0)
  then show ?thesis
    by (metis add.commute unatSuc)
qed

lemma counter_less_Suc: "(a :: u32) \<noteq> -1 \<Longrightarrow> a < a + 1"
  using unat_add_1 [of a "-1"] word_n1_ge [of a] by (simp add: order_less_le word_le_nat_alt word_less_nat_alt)

lemma index_add_less:
  assumes "unat (i :: u32) + n < 2 ^ 32"
  shows "unat (i + word_of_nat n) = unat i + n"
  using assms by (simp add: unat_word_ariths unat_of_nat take_bit_nat_eq_self)

lemma u32_of_nat_inj:
  "i < 2 ^ 32 \<Longrightarrow> j < 2 ^ 32 \<Longrightarrow> (word_of_nat i :: u32) = word_of_nat j \<longleftrightarrow> i = j"
  by (simp add: word_of_nat_eq_iff take_bit_nat_eq_self)

lemma index_add_inj:
  assumes "unat (a :: u32) + n < 2 ^ 32" "i < n" "j < n"
  shows "a + word_of_nat i = a + word_of_nat j \<longleftrightarrow> i = j"
proof
  assume "a + word_of_nat i = a + word_of_nat j"
  then have "unat (a + word_of_nat i) = unat (a + word_of_nat j)"
    by (rule arg_cong)
  then show "i = j"
    using index_add_less [of a i] index_add_less [of a j] assms by linarith
qed simp

lemma room_for_next:
  assumes "unat (i :: u32) + g < 4294967296" "i + word_of_nat g \<noteq> -1"
  shows "unat i + g < 4294967295"
proof (rule ccontr)
  assume "\<not> unat i + g < 4294967295"
  then have "unat (i + word_of_nat g) = unat (-1 :: u32)"
    using index_add_less [of i g] assms(1) by (simp add: unsigned_minus_1_eq_mask mask_eq_exp_minus_1)
  then show False
    using assms(2) by (simp only: word_unat_eq_iff)
qed

end
