(* ===== verification/Signal_Context.thy ===== *)
theory Signal_Context
  imports Prelude
begin

text \<open>
  The parts of \<open>signal_protocol.c\<close> that every other component uses: byte buffers and
  their comparison, and the context with its crypto provider.

  A crypto provider is a set of callbacks that the application installs; they are
  fields of the context record, as are the primitives of the directory
  \<open>curve25519\<close>. A digest or HMAC computation in progress has type \<open>'d\<close> or \<open>'h\<close>; the
  random number generator acts on the world \<open>'w\<close>. What the library relies on is
  stated as named predicates on the context, which hold for real providers.
\<close>

unbundle bit_operations_syntax

section \<open>Buffers\<close>

definition signal_buffer_n_copy :: "bytes \<Rightarrow> nat \<Rightarrow> bytes" where
  "signal_buffer_n_copy buffer n = take (min (length buffer) n) buffer"

definition signal_buffer_append :: "bytes \<Rightarrow> bytes \<Rightarrow> bytes" where
  "signal_buffer_append buffer data = buffer @ data"

text \<open>
  The constant-time comparison reads the first \<open>n\<close> bytes of both buffers; each of the
  callers passes buffers of at least that length.
\<close>

definition signal_constant_memcmp :: "bytes \<Rightarrow> bytes \<Rightarrow> nat \<Rightarrow> int" where
  "signal_constant_memcmp s1 s2 n =
     uint (foldl (\<lambda>r i. r OR (s1 ! i XOR s2 ! i)) 0 [0..<n])"

fun memcmp :: "bytes \<Rightarrow> bytes \<Rightarrow> nat \<Rightarrow> int" where
  "memcmp (a # s1) (b # s2) (Suc n) = (if a < b then -1 else if b < a then 1 else memcmp s1 s2 n)"
| "memcmp _ _ _ = 0"

fun signal_buffer_compare :: "bytes option \<Rightarrow> bytes option \<Rightarrow> int" where
  "signal_buffer_compare None None = 0"
| "signal_buffer_compare None (Some b2) = -1"
| "signal_buffer_compare (Some b1) None = 1"
| "signal_buffer_compare (Some b1) (Some b2) =
     (if length b1 < length b2 then -1
      else if length b1 > length b2 then 1
      else signal_constant_memcmp b1 b2 (length b1))"

section \<open>The context\<close>

record ('h, 'd, 'w) signal_context =
  curve25519_donna :: "bytes \<Rightarrow> bytes \<Rightarrow> bytes option"
  curve25519_verify :: "bytes \<Rightarrow> bytes \<Rightarrow> bytes \<Rightarrow> bool"
  curve25519_sign :: "bytes \<Rightarrow> bytes \<Rightarrow> bytes \<Rightarrow> bytes result"
  generalized_xveddsa_25519_verify :: "bytes \<Rightarrow> bytes \<Rightarrow> bytes \<Rightarrow> bytes option"
  generalized_xveddsa_25519_sign :: "bytes \<Rightarrow> bytes \<Rightarrow> bytes \<Rightarrow> bytes option"
  random_func :: "nat \<Rightarrow> ('w, bytes) act"
  hmac_sha256_init_func :: "bytes \<Rightarrow> 'h result"
  hmac_sha256_update_func :: "'h \<Rightarrow> bytes \<Rightarrow> 'h result"
  hmac_sha256_final_func :: "'h \<Rightarrow> bytes result"
  sha512_digest_init_func :: "'d result"
  sha512_digest_update_func :: "'d \<Rightarrow> bytes \<Rightarrow> 'd result"
  sha512_digest_final_func :: "'d \<Rightarrow> (bytes \<times> 'd) result"
  encrypt_func :: "int \<Rightarrow> bytes \<Rightarrow> bytes \<Rightarrow> bytes \<Rightarrow> bytes result"
  decrypt_func :: "int \<Rightarrow> bytes \<Rightarrow> bytes \<Rightarrow> bytes \<Rightarrow> bytes result"

definition signal_crypto_random :: "('h, 'd, 'w) signal_context \<Rightarrow> nat \<Rightarrow> ('w, bytes) act" where
  "signal_crypto_random context n = random_func context n"

definition SG_CIPHER_AES_CTR_NOPADDING :: int where "SG_CIPHER_AES_CTR_NOPADDING = 1"
definition SG_CIPHER_AES_CBC_PKCS5 :: int where "SG_CIPHER_AES_CBC_PKCS5 = 2"

definition signal_encrypt ::
  "('h, 'd, 'w) signal_context \<Rightarrow> int \<Rightarrow> bytes \<Rightarrow> bytes \<Rightarrow> bytes \<Rightarrow> bytes result" where
  "signal_encrypt context cipher key iv plaintext = encrypt_func context cipher key iv plaintext"

definition signal_decrypt ::
  "('h, 'd, 'w) signal_context \<Rightarrow> int \<Rightarrow> bytes \<Rightarrow> bytes \<Rightarrow> bytes \<Rightarrow> bytes result" where
  "signal_decrypt context cipher key iv ciphertext = decrypt_func context cipher key iv ciphertext"

text \<open>
  Every use of the HMAC callbacks in the library is one of these: a key, a sequence of
  updates, and the final digest.
\<close>

fun hmac_updates :: "('h, 'd, 'w) signal_context \<Rightarrow> 'h \<Rightarrow> bytes list \<Rightarrow> 'h result" where
  "hmac_updates context h [] = Inr h"
| "hmac_updates context h (x # xs) =
     rbind (hmac_sha256_update_func context h x) (\<lambda>h'. hmac_updates context h' xs)"

definition signal_hmac_sha256 ::
  "('h, 'd, 'w) signal_context \<Rightarrow> bytes \<Rightarrow> bytes list \<Rightarrow> bytes result" where
  "signal_hmac_sha256 context key parts =
     rbind (hmac_sha256_init_func context key) (\<lambda>h.
     rbind (hmac_updates context h parts) (\<lambda>h'.
     hmac_sha256_final_func context h'))"

section \<open>What the library relies on\<close>

text \<open>
  The HMAC callbacks never fail and give 32 bytes that depend on the key and on the
  concatenation of the updates; \<open>mac\<close> is that function of key and data.
\<close>

definition hmac_spec :: "('h, 'd, 'w) signal_context \<Rightarrow> (bytes \<Rightarrow> bytes \<Rightarrow> bytes) \<Rightarrow> bool" where
  "hmac_spec context mac \<longleftrightarrow>
     (\<forall>key parts. signal_hmac_sha256 context key parts = Inr (mac key (concat parts))) \<and>
     (\<forall>key data. length (mac key data) = 32)"

text \<open>Diffie-Hellman on 32-byte strings: defined, 32 bytes, commutative on public keys.\<close>

definition donna_basepoint :: bytes where
  "donna_basepoint = 9 # replicate 31 0"

definition dh_spec :: "('h, 'd, 'w) signal_context \<Rightarrow> (bytes \<Rightarrow> bytes \<Rightarrow> bytes) \<Rightarrow> bool" where
  "dh_spec context dh \<longleftrightarrow>
     (\<forall>s p. curve25519_donna context s p = Some (dh s p)) \<and>
     (\<forall>s p. length (dh s p) = 32) \<and>
     (\<forall>s t. dh s (dh t donna_basepoint) = dh t (dh s donna_basepoint))"

text \<open>Decryption inverts encryption, for each cipher, key and iv.\<close>

definition cipher_spec :: "('h, 'd, 'w) signal_context \<Rightarrow> bool" where
  "cipher_spec context \<longleftrightarrow>
     (\<forall>cipher key iv plaintext. \<exists>ciphertext.
        signal_encrypt context cipher key iv plaintext = Inr ciphertext \<and>
        signal_decrypt context cipher key iv ciphertext = Inr plaintext)"

text \<open>The random number generator delivers as many bytes as asked for.\<close>

definition random_spec :: "('h, 'd, 'w) signal_context \<Rightarrow> bool" where
  "random_spec context \<longleftrightarrow>
     (\<forall>n w. \<exists>bs w'. signal_crypto_random context n w = (Inr bs, w') \<and> length bs = n)"

text \<open>Signing succeeds; a signature has 64 bytes and verifies under the public key of its private key.\<close>

definition signature_spec :: "('h, 'd, 'w) signal_context \<Rightarrow> bool" where
  "signature_spec context \<longleftrightarrow>
     (\<forall>key msg random. \<exists>sig.
        curve25519_sign context key msg random = Inr sig \<and> length sig = 64 \<and>
        (\<forall>pub. curve25519_donna context key donna_basepoint = Some pub \<longrightarrow>
           curve25519_verify context sig pub msg))"

section \<open>Comparison of buffers\<close>

lemma foldl_or_eq_0:
  "foldl (\<lambda>r i. r OR f i) (r0 :: byte) xs = 0 \<longleftrightarrow> r0 = 0 \<and> (\<forall>i \<in> set xs. f i = 0)"
  by (induction xs arbitrary: r0) (auto simp: or_eq_0_iff)

lemma xor_byte_eq_0: "(a :: byte) XOR b = 0 \<longleftrightarrow> a = b"
  by (auto simp: bit_eq_iff bit_simps)

lemma signal_constant_memcmp_eq_0:
  assumes "n \<le> length s1" "n \<le> length s2"
  shows "signal_constant_memcmp s1 s2 n = 0 \<longleftrightarrow> take n s1 = take n s2"
proof -
  have "signal_constant_memcmp s1 s2 n = 0 \<longleftrightarrow> (\<forall>i < n. s1 ! i = s2 ! i)"
    by (simp add: signal_constant_memcmp_def unsigned_eq_0_iff foldl_or_eq_0 xor_byte_eq_0 Ball_def)
  also have "\<dots> \<longleftrightarrow> take n s1 = take n s2"
    using assms by (auto simp: list_eq_iff_nth_eq)
  finally show ?thesis .
qed

lemma signal_constant_memcmp_nonneg: "0 \<le> signal_constant_memcmp s1 s2 n"
  by (simp add: signal_constant_memcmp_def)

lemma signal_buffer_compare_eq_0: "signal_buffer_compare b1 b2 = 0 \<longleftrightarrow> b1 = b2"
  by (cases "(b1, b2)" rule: signal_buffer_compare.cases)
    (auto simp: signal_constant_memcmp_eq_0)

lemma hmac_specD:
  assumes "hmac_spec context mac"
  shows "signal_hmac_sha256 context key parts = Inr (mac key (concat parts))"
    and "length (mac key data) = 32"
  using assms by (auto simp: hmac_spec_def)

lemma dh_specD:
  assumes "dh_spec context dh"
  shows "curve25519_donna context s p = Some (dh s p)"
    and "length (dh s p) = 32"
    and "dh s (dh t donna_basepoint) = dh t (dh s donna_basepoint)"
  using assms by (simp_all add: dh_spec_def)

section \<open>Comparison functions\<close>

text \<open>
  The library's comparison functions take two pointers that may be null and return
  0 exactly when both are null or both point to equal objects; \<open>ok\<close> is the type
  invariant of the objects.
\<close>

locale comparison =
  fixes compare_ptr :: "'a option \<Rightarrow> 'a option \<Rightarrow> int"
    and ok :: "'a \<Rightarrow> bool"
  assumes compare_some: "ok a \<Longrightarrow> ok b \<Longrightarrow> compare_ptr (Some a) (Some b) = 0 \<longleftrightarrow> a = b"
    and compare_none: "compare_ptr None None = 0"
    and compare_none_some: "compare_ptr None (Some b) = -1"
    and compare_some_none: "compare_ptr (Some a) None = 1"
begin

lemma compare_eq_0:
  "pred_option ok x \<Longrightarrow> pred_option ok y \<Longrightarrow> compare_ptr x y = 0 \<longleftrightarrow> x = y"
  by (cases x; cases y) (auto simp: compare_some compare_none compare_none_some compare_some_none)

lemma compare_refl: "pred_option ok x \<Longrightarrow> compare_ptr x x = 0"
  by (simp add: compare_eq_0)

text \<open>Searching a list for an object is the same with the comparison and with equality.\<close>

lemma find_compare:
  assumes "\<And>x. x \<in> set xs \<Longrightarrow> ok (f x)" "ok k"
  shows "find (\<lambda>x. compare_ptr (Some (f x)) (Some k) = 0) xs = find (\<lambda>x. f x = k) xs"
  using assms by (intro find_cong) (simp_all add: compare_some)

end

interpretation buffer: comparison signal_buffer_compare "\<lambda>_. True"
  by unfold_locales (simp_all add: signal_buffer_compare_eq_0 del: signal_buffer_compare.simps(4))

end
