(* ===== verification/Curve.thy ===== *)
theory Curve
  imports Signal_Context "HOL-Library.List_Lexorder"
begin

text \<open>
  \<open>curve.c\<close>: public and private keys, their encoding with the type byte \<open>0x05\<close>, key
  generation with clamping, Diffie-Hellman agreement, signatures, and lists of
  public keys. The arithmetic of the curve is the context's \<open>curve25519_donna\<close> and its
  signature functions. Key comparison decides equality (locale \<open>comparison\<close>,
  interpreted for both kinds of keys, for buffers and for HKDF state in their
  theories); public keys are linearly ordered by \<open>ec_public_key_memcmp\<close>.
\<close>

unbundle bit_operations_syntax

definition DJB_TYPE :: byte where "DJB_TYPE = 0x05"

definition DJB_KEY_LEN :: nat where "DJB_KEY_LEN = 32"

definition CURVE_SIGNATURE_LEN :: nat where "CURVE_SIGNATURE_LEN = 64"

definition VRF_SIGNATURE_LEN :: nat where "VRF_SIGNATURE_LEN = 96"

lemmas curve_constants = DJB_TYPE_def DJB_KEY_LEN_def CURVE_SIGNATURE_LEN_def VRF_SIGNATURE_LEN_def

datatype ec_public_key = EC_public_key (ec_public_data: bytes)

datatype ec_private_key = EC_private_key (ec_private_data: bytes)

record ec_key_pair =
  public_key :: ec_public_key
  private_key :: ec_private_key

text \<open>Both kinds of key hold \<open>DJB_KEY_LEN\<close> bytes.\<close>

definition ec_public_key_ok :: "ec_public_key \<Rightarrow> bool" where
  "ec_public_key_ok k \<longleftrightarrow> length (ec_public_data k) = DJB_KEY_LEN"

definition ec_private_key_ok :: "ec_private_key \<Rightarrow> bool" where
  "ec_private_key_ok k \<longleftrightarrow> length (ec_private_data k) = DJB_KEY_LEN"

definition ec_key_pair_ok :: "ec_key_pair \<Rightarrow> bool" where
  "ec_key_pair_ok p \<longleftrightarrow> ec_public_key_ok (public_key p) \<and> ec_private_key_ok (private_key p)"

section \<open>Encoding\<close>

definition curve_decode_point :: "bytes \<Rightarrow> ec_public_key result" where
  "curve_decode_point key_data =
     (if length key_data > 0 \<and> key_data ! 0 \<noteq> DJB_TYPE then Inl SG_ERR_INVALID_KEY
      else if length key_data \<noteq> DJB_KEY_LEN + 1 then Inl SG_ERR_INVALID_KEY
      else Inr (EC_public_key (take DJB_KEY_LEN (drop 1 key_data))))"

definition ec_public_key_serialize :: "ec_public_key option \<Rightarrow> bytes result" where
  "ec_public_key_serialize key =
     (case key of
        None \<Rightarrow> Inl SG_ERR_INVAL
      | Some k \<Rightarrow> Inr (DJB_TYPE # ec_public_data k))"

definition ec_public_key_serialize_protobuf :: "ec_public_key \<Rightarrow> bytes" where
  "ec_public_key_serialize_protobuf key = DJB_TYPE # ec_public_data key"

definition curve_decode_private_point :: "bytes \<Rightarrow> ec_private_key result" where
  "curve_decode_private_point key_data =
     (if length key_data \<noteq> DJB_KEY_LEN then Inl SG_ERR_INVALID_KEY
      else Inr (EC_private_key (take DJB_KEY_LEN key_data)))"

definition ec_private_key_serialize :: "ec_private_key \<Rightarrow> bytes" where
  "ec_private_key_serialize key = ec_private_data key"

definition ec_private_key_serialize_protobuf :: "ec_private_key \<Rightarrow> bytes" where
  "ec_private_key_serialize_protobuf key = ec_private_data key"

definition ec_key_pair_create :: "ec_public_key \<Rightarrow> ec_private_key \<Rightarrow> ec_key_pair" where
  "ec_key_pair_create pub priv = \<lparr>public_key = pub, private_key = priv\<rparr>"

section \<open>Comparison\<close>

fun ec_public_key_compare :: "ec_public_key option \<Rightarrow> ec_public_key option \<Rightarrow> int" where
  "ec_public_key_compare None None = 0"
| "ec_public_key_compare None (Some k2) = -1"
| "ec_public_key_compare (Some k1) None = 1"
| "ec_public_key_compare (Some k1) (Some k2) =
     signal_constant_memcmp (ec_public_data k1) (ec_public_data k2) DJB_KEY_LEN"

fun ec_public_key_memcmp :: "ec_public_key option \<Rightarrow> ec_public_key option \<Rightarrow> int" where
  "ec_public_key_memcmp None None = 0"
| "ec_public_key_memcmp None (Some k2) = -1"
| "ec_public_key_memcmp (Some k1) None = 1"
| "ec_public_key_memcmp (Some k1) (Some k2) =
     memcmp (ec_public_data k1) (ec_public_data k2) DJB_KEY_LEN"

fun ec_private_key_compare :: "ec_private_key option \<Rightarrow> ec_private_key option \<Rightarrow> int" where
  "ec_private_key_compare None None = 0"
| "ec_private_key_compare None (Some k2) = -1"
| "ec_private_key_compare (Some k1) None = 1"
| "ec_private_key_compare (Some k1) (Some k2) =
     signal_constant_memcmp (ec_private_data k1) (ec_private_data k2) DJB_KEY_LEN"

section \<open>Key generation, agreement and signatures\<close>

definition curve_generate_private_key ::
  "('h, 'd, 'w) signal_context \<Rightarrow> ('w, ec_private_key) act" where
  "curve_generate_private_key context =
     sbind (signal_crypto_random context DJB_KEY_LEN) (\<lambda>key.
     let key = key[0 := key ! 0 AND 248];
         key = key[31 := key ! 31 AND 127];
         key = key[31 := key ! 31 OR 64]
     in sreturn (EC_private_key key))"

definition curve_generate_public_key ::
  "('h, 'd, 'w) signal_context \<Rightarrow> ec_private_key \<Rightarrow> ec_public_key result" where
  "curve_generate_public_key context key =
     (case curve25519_donna context (ec_private_data key) donna_basepoint of
        Some p \<Rightarrow> Inr (EC_public_key p)
      | None \<Rightarrow> Inl SG_ERR_UNKNOWN)"

definition curve_generate_key_pair :: "('h, 'd, 'w) signal_context \<Rightarrow> ('w, ec_key_pair) act" where
  "curve_generate_key_pair context =
     sbind (curve_generate_private_key context) (\<lambda>key_private.
     sbind (slift (curve_generate_public_key context key_private)) (\<lambda>key_public.
     sreturn (ec_key_pair_create key_public key_private)))"

definition curve_calculate_agreement ::
  "('h, 'd, 'w) signal_context \<Rightarrow> ec_public_key option \<Rightarrow> ec_private_key option \<Rightarrow> bytes result" where
  "curve_calculate_agreement context pub priv =
     (case (pub, priv) of
        (Some p, Some s) \<Rightarrow>
          (case curve25519_donna context (ec_private_data s) (ec_public_data p) of
             Some key \<Rightarrow> Inr key
           | None \<Rightarrow> Inl SG_ERR_UNKNOWN)
      | _ \<Rightarrow> Inl SG_ERR_INVALID_KEY)"

definition curve_verify_signature ::
  "('h, 'd, 'w) signal_context \<Rightarrow> ec_public_key \<Rightarrow> bytes \<Rightarrow> bytes \<Rightarrow> bool result" where
  "curve_verify_signature context signing_key message signature =
     (if length signature \<noteq> CURVE_SIGNATURE_LEN then Inl SG_ERR_INVAL
      else Inr (curve25519_verify context signature (ec_public_data signing_key) message))"

definition curve_calculate_signature ::
  "('h, 'd, 'w) signal_context \<Rightarrow> ec_private_key \<Rightarrow> bytes \<Rightarrow> ('w, bytes) act" where
  "curve_calculate_signature context signing_key message =
     sbind (signal_crypto_random context CURVE_SIGNATURE_LEN) (\<lambda>random_data.
     slift (curve25519_sign context (ec_private_data signing_key) message random_data))"

definition curve_verify_vrf_signature ::
  "('h, 'd, 'w) signal_context \<Rightarrow> ec_public_key option \<Rightarrow> bytes option \<Rightarrow> bytes option \<Rightarrow> bytes result" where
  "curve_verify_vrf_signature context signing_key message signature =
     (case signing_key of
        None \<Rightarrow> Inl SG_ERR_INVAL
      | Some k \<Rightarrow>
          (case (message, signature) of
             (Some msg, Some sig) \<Rightarrow>
               if length sig \<noteq> VRF_SIGNATURE_LEN then Inl SG_ERR_VRF_SIG_VERIF_FAILED
               else (case generalized_xveddsa_25519_verify context sig (ec_public_data k) msg of
                       Some out \<Rightarrow> Inr out
                     | None \<Rightarrow> Inl SG_ERR_VRF_SIG_VERIF_FAILED)
           | _ \<Rightarrow> Inl SG_ERR_VRF_SIG_VERIF_FAILED))"

definition curve_calculate_vrf_signature ::
  "('h, 'd, 'w) signal_context \<Rightarrow> ec_private_key \<Rightarrow> bytes \<Rightarrow> ('w, bytes) act" where
  "curve_calculate_vrf_signature context signing_key message =
     sbind (signal_crypto_random context 64) (\<lambda>random_data.
     slift (case generalized_xveddsa_25519_sign context (ec_private_data signing_key) message random_data of
              Some sig \<Rightarrow> Inr sig
            | None \<Rightarrow> Inl SG_ERR_UNKNOWN))"

section \<open>Lists of public keys\<close>

type_synonym ec_public_key_list = "ec_public_key list"

definition ec_public_key_list_push_back :: "ec_public_key_list \<Rightarrow> ec_public_key \<Rightarrow> ec_public_key_list" where
  "ec_public_key_list_push_back l value = l @ [value]"

definition ec_public_key_list_copy :: "ec_public_key_list \<Rightarrow> ec_public_key_list" where
  "ec_public_key_list_copy l = foldl ec_public_key_list_push_back [] l"

definition ec_public_key_list_size :: "ec_public_key_list \<Rightarrow> nat" where
  "ec_public_key_list_size l = length l"

definition ec_public_key_list_at :: "ec_public_key_list \<Rightarrow> nat \<Rightarrow> ec_public_key result" where
  "ec_public_key_list_at l index = (if index < length l then Inr (l ! index) else Inl SG_ABORT)"

text \<open>Keys as a linear order: that of their bytes.\<close>

instantiation ec_public_key :: linorder
begin

definition less_eq_ec_public_key :: "ec_public_key \<Rightarrow> ec_public_key \<Rightarrow> bool" where
  "k1 \<le> k2 \<longleftrightarrow> ec_public_data k1 \<le> ec_public_data k2"

definition less_ec_public_key :: "ec_public_key \<Rightarrow> ec_public_key \<Rightarrow> bool" where
  "k1 < k2 \<longleftrightarrow> ec_public_data k1 < ec_public_data k2"

instance
  by standard
    (auto simp: less_eq_ec_public_key_def less_ec_public_key_def ec_public_key.expand)

end

text \<open>
  \<open>ec_public_key_list_sort\<close> calls the C library's \<open>qsort\<close> with the comparison
  \<open>ec_public_key_memcmp\<close>; keys that compare equal are equal, so the sorted list is unique.
\<close>

definition ec_public_key_list_sort :: "ec_public_key_list \<Rightarrow> ec_public_key_list" where
  "ec_public_key_list_sort l = sort l"

section \<open>Properties of keys\<close>

lemma curve_decode_point_iff:
  "curve_decode_point bs = Inr k \<longleftrightarrow> bs = DJB_TYPE # ec_public_data k \<and> ec_public_key_ok k"
proof (cases bs)
  case (Cons b bs')
  then show ?thesis
    by (cases k) (auto simp: curve_decode_point_def ec_public_key_ok_def)
qed (simp add: curve_decode_point_def curve_constants)

lemma curve_decode_point_error: "curve_decode_point bs = Inl e \<Longrightarrow> e = SG_ERR_INVALID_KEY"
  by (auto simp: curve_decode_point_def split: if_splits)

lemma curve_decode_private_point_iff:
  "curve_decode_private_point bs = Inr k \<longleftrightarrow> bs = ec_private_data k \<and> ec_private_key_ok k"
  by (cases k) (auto simp: curve_decode_private_point_def ec_private_key_ok_def)

lemma ec_public_key_serialize_protobuf_eq:
  "ec_public_key_serialize (Some k) = Inr (ec_public_key_serialize_protobuf k)"
  by (simp add: ec_public_key_serialize_def ec_public_key_serialize_protobuf_def)

lemma decode_serialize_protobuf [simp]:
  "ec_public_key_ok k \<Longrightarrow> curve_decode_point (ec_public_key_serialize_protobuf k) = Inr k"
  by (simp add: curve_decode_point_iff ec_public_key_serialize_protobuf_def)

lemma decode_private_serialize_protobuf [simp]:
  "ec_private_key_ok k \<Longrightarrow> curve_decode_private_point (ec_private_key_serialize_protobuf k) = Inr k"
  by (simp add: curve_decode_private_point_iff ec_private_key_serialize_protobuf_def)

lemma length_ec_public_key_serialize_protobuf:
  "ec_public_key_ok k \<Longrightarrow> length (ec_public_key_serialize_protobuf k) = 33"
  by (simp add: ec_public_key_serialize_protobuf_def ec_public_key_ok_def curve_constants)

lemma serialize_protobuf_nonempty [simp]: "ec_public_key_serialize_protobuf k \<noteq> []"
  by (simp add: ec_public_key_serialize_protobuf_def)

interpretation ec_pub: comparison ec_public_key_compare ec_public_key_ok
  by unfold_locales
    (auto simp: signal_constant_memcmp_eq_0 ec_public_key_ok_def ec_public_key.expand)

interpretation ec_priv: comparison ec_private_key_compare ec_private_key_ok
  by unfold_locales
    (auto simp: signal_constant_memcmp_eq_0 ec_private_key_ok_def ec_private_key.expand)

lemma memcmp_order:
  assumes "length s1 = length s2" "n = length s1"
  shows "memcmp s1 s2 n < 0 \<longleftrightarrow> s1 < s2" "memcmp s1 s2 n = 0 \<longleftrightarrow> s1 = s2"
proof -
  have "(memcmp s1 s2 (length s1) < 0 \<longleftrightarrow> s1 < s2) \<and> (memcmp s1 s2 (length s1) = 0 \<longleftrightarrow> s1 = s2)"
    using assms(1) by (induction s1 s2 rule: list_induct2) auto
  then show "memcmp s1 s2 n < 0 \<longleftrightarrow> s1 < s2" "memcmp s1 s2 n = 0 \<longleftrightarrow> s1 = s2"
    using assms(2) by simp_all
qed

interpretation ec_pub_mem: comparison ec_public_key_memcmp ec_public_key_ok
  by unfold_locales
    (auto simp: memcmp_order ec_public_key_ok_def ec_public_key.expand)

lemma ec_public_key_memcmp_order:
  assumes "ec_public_key_ok k1" "ec_public_key_ok k2"
  shows "ec_public_key_memcmp (Some k1) (Some k2) \<le> 0 \<longleftrightarrow> k1 \<le> k2"
  using assms memcmp_order [of "ec_public_data k1" "ec_public_data k2" DJB_KEY_LEN]
  by (auto simp: ec_public_key_ok_def less_eq_ec_public_key_def less_le)

section \<open>Key pairs and agreement\<close>

text \<open>A key pair whose public key was computed from its private key.\<close>

definition matching_key_pair :: "('h, 'd, 'w) signal_context \<Rightarrow> ec_key_pair \<Rightarrow> bool" where
  "matching_key_pair context p \<longleftrightarrow> curve_generate_public_key context (private_key p) = Inr (public_key p)"

lemma curve_generate_key_pair_matching:
  "curve_generate_key_pair context w = (Inr p, w') \<Longrightarrow> matching_key_pair context p"
  by (auto simp: curve_generate_key_pair_def matching_key_pair_def ec_key_pair_create_def
      result_simps)

lemma matching_key_pair_public:
  assumes "dh_spec context dh" "matching_key_pair context p"
  shows "public_key p = EC_public_key (dh (ec_private_data (private_key p)) donna_basepoint)"
    and "ec_public_key_ok (public_key p)"
proof -
  show *: "public_key p = EC_public_key (dh (ec_private_data (private_key p)) donna_basepoint)"
    using assms by (simp add: matching_key_pair_def curve_generate_public_key_def dh_specD)
  show "ec_public_key_ok (public_key p)"
    using assms(1) by (simp add: * ec_public_key_ok_def curve_constants dh_specD)
qed

lemma generate_key_pair_total:
  assumes "dh_spec context dh" "random_spec context"
  shows "\<exists>kp w'. curve_generate_key_pair context w = (Inr kp, w')"
proof -
  obtain bs w' where "signal_crypto_random context DJB_KEY_LEN w = (Inr bs, w')"
    using assms(2) unfolding random_spec_def by blast
  then show ?thesis
    by (simp add: curve_generate_key_pair_def curve_generate_private_key_def sbind_def Let_def slift_def sreturn_def
        curve_generate_public_key_def dh_specD [OF assms(1)])
qed

lemma generated_key_pair_ok:
  assumes "dh_spec context dh" "random_spec context" "curve_generate_key_pair context w = (Inr p, w')"
  shows "ec_key_pair_ok p"
proof -
  obtain w1 where priv: "curve_generate_private_key context w = (Inr (private_key p), w1)"
    using assms(3) by (auto simp: curve_generate_key_pair_def ec_key_pair_create_def sbind_eq_Inr)
  obtain bs w2 where "signal_crypto_random context DJB_KEY_LEN w = (Inr bs, w2)" "length bs = DJB_KEY_LEN"
    using assms(2) unfolding random_spec_def by blast
  then have "ec_private_key_ok (private_key p)"
    using priv by (auto simp: curve_generate_private_key_def Let_def sbind_eq_Inr ec_private_key_ok_def)
  then show ?thesis
    using matching_key_pair_public [OF assms(1) curve_generate_key_pair_matching [OF assms(3)]]
    by (simp add: ec_key_pair_ok_def)
qed

lemma curve_calculate_agreement_dh:
  assumes "dh_spec context dh"
  shows "curve_calculate_agreement context (Some p) (Some s) =
    Inr (dh (ec_private_data s) (ec_public_data p))"
  by (simp add: curve_calculate_agreement_def dh_specD [OF assms])

lemma curve_calculate_signature_total:
  assumes "signature_spec context" "random_spec context"
  shows "\<exists>sig w'. curve_calculate_signature context key msg w = (Inr sig, w') \<and> length sig = CURVE_SIGNATURE_LEN"
proof -
  obtain bs w' where "signal_crypto_random context CURVE_SIGNATURE_LEN w = (Inr bs, w')"
    using assms(2) unfolding random_spec_def by blast
  moreover obtain sig where "curve25519_sign context (ec_private_data key) msg bs = Inr sig" "length sig = 64"
    using assms(1) unfolding signature_spec_def by blast
  ultimately show ?thesis
    by (simp add: curve_calculate_signature_def sbind_def slift_def curve_constants)
qed

lemma curve_verify_calculated:
  assumes "signature_spec context" "curve_generate_public_key context key = Inr pub"
    and "curve_calculate_signature context key msg w = (Inr sig, w')"
  shows "curve_verify_signature context pub msg sig = Inr True"
proof -
  obtain random where "curve25519_sign context (ec_private_data key) msg random = Inr sig"
    using assms(3) by (auto simp: curve_calculate_signature_def sbind_eq_Inr)
  moreover have "curve25519_donna context (ec_private_data key) donna_basepoint = Some (ec_public_data pub)"
    using assms(2) by (auto simp: curve_generate_public_key_def split: option.splits)
  ultimately have "length sig = 64 \<and> curve25519_verify context sig (ec_public_data pub) msg"
    using assms(1) unfolding signature_spec_def by (metis Inr_inject)
  then show ?thesis
    by (simp add: curve_verify_signature_def curve_constants)
qed

lemma agreement_symmetric:
  assumes dh: "dh_spec context dh" and p: "matching_key_pair context p"
    and q: "matching_key_pair context q"
  shows "curve_calculate_agreement context (Some (public_key p)) (Some (private_key q)) =
    curve_calculate_agreement context (Some (public_key q)) (Some (private_key p))"
  by (simp add: curve_calculate_agreement_dh [OF dh] matching_key_pair_public(1) [OF dh p]
      matching_key_pair_public(1) [OF dh q] dh_specD(3) [OF dh, of "ec_private_data (private_key q)"])

text \<open>Generated private keys are clamped: a multiple of 8 in the range of \<open>2 ^ 254\<close>.\<close>

definition clamped :: "bytes \<Rightarrow> bool" where
  "clamped key \<longleftrightarrow> length key = 32 \<and> key ! 0 AND 7 = 0 \<and> key ! 31 AND 0xC0 = 0x40"

lemma clamp_first: "(b AND 248) AND 7 = (0 :: byte)"
  by (simp add: and.assoc)

lemma clamp_last: "((b AND 127) OR 64) AND 0xC0 = (0x40 :: byte)"
proof -
  have "((b AND 127) OR 64) AND 0xC0 = (b AND (127 AND 0xC0)) OR (64 AND 0xC0)"
    by (rule bit_word_eqI) (auto simp only: bit_simps)
  also have "\<dots> = 0x40"
    by (rule bit_word_eqI) (auto simp: bit_simps)
  finally show ?thesis .
qed

lemma curve_generate_private_key_clamped:
  assumes "random_spec context" "curve_generate_private_key context w = (Inr k, w')"
  shows "clamped (ec_private_data k)"
proof -
  obtain bs w'' where bs: "signal_crypto_random context DJB_KEY_LEN w = (Inr bs, w'')" "length bs = 32"
    using assms(1) unfolding random_spec_def curve_constants by metis
  then have "k = EC_private_key ((bs[0 := bs ! 0 AND 248])[31 := (bs ! 31 AND 127) OR 64])"
    using assms(2) by (auto simp: curve_generate_private_key_def Let_def sbind_Inr)
  then show ?thesis
    using bs(2) by (simp add: clamped_def clamp_first clamp_last)
qed

text \<open>A clamped key as a number.\<close>

primrec little_endian :: "bytes \<Rightarrow> nat" where
  "little_endian [] = 0"
| "little_endian (b # bs) = unat b + 256 * little_endian bs"

lemma little_endian_append: "little_endian (xs @ ys) = little_endian xs + 256 ^ length xs * little_endian ys"
  by (induction xs) (simp_all add: algebra_simps)

lemma little_endian_less: "little_endian bs < 256 ^ length bs"
proof (induction bs)
  case (Cons b bs)
  then show ?case
    using unsigned_less [where ?'a = nat, of b] by simp
qed simp

lemma clamped_bytes:
  fixes b :: byte
  shows "b AND 7 = 0 \<Longrightarrow> 8 dvd unat b" and "b AND 0xC0 = 0x40 \<Longrightarrow> 64 \<le> unat b \<and> unat b < 128"
proof -
  assume "b AND 7 = 0"
  then have "take_bit 3 b = 0"
    by (simp add: take_bit_eq_mask mask_numeral)
  then have "take_bit 3 (unat b) = 0"
    by (metis unat_0 unsigned_take_bit_eq)
  then show "8 dvd unat b"
    by (simp add: take_bit_eq_mod dvd_eq_mod_eq_0)
next
  assume b: "b AND 0xC0 = 0x40"
  have bits: "\<not> bit b 7" "bit b 6"
    using arg_cong [OF b, of "\<lambda>x. bit x 7"] arg_cong [OF b, of "\<lambda>x. bit x 6"] by (simp_all add: bit_simps)
  have "drop_bit 6 b = 1"
  proof (rule bit_word_eqI)
    fix n assume "n < LENGTH(8)"
    show "bit (drop_bit 6 b) n = bit (1 :: byte) n"
    proof (cases "n \<le> 1")
      case True
      then have "n = 0 \<or> n = 1"
        by auto
      then show ?thesis
        using bits by (auto simp: bit_simps)
    next
      case False
      then have "8 \<le> 6 + n"
        by simp
      then show ?thesis
        using False bit_imp_le_length [of b "6 + n"] by (auto simp: bit_simps)
    qed
  qed
  then have "unat (drop_bit 6 b) = 1"
    by simp
  then have "drop_bit 6 (unat b) = 1"
    using unsigned_less [where ?'a = nat, of b] by (simp add: unsigned_drop_bit_eq take_bit_nat_eq_self)
  then have "unat b div 64 = 1"
    by (simp add: drop_bit_eq_div)
  then show "64 \<le> unat b \<and> unat b < 128"
    by linarith
qed

lemma clamped_range:
  assumes "clamped key"
  shows "8 dvd little_endian key" "2 ^ 254 \<le> little_endian key" "little_endian key < 2 ^ 255"
proof -
  have key: "length key = 32" "8 dvd unat (key ! 0)" "64 \<le> unat (key ! 31)" "unat (key ! 31) < 128"
    using assms clamped_bytes by (auto simp: clamped_def)
  have first: "key = key ! 0 # drop 1 key"
    using key(1) by (cases key) simp_all
  have "take 31 key @ [key ! 31] = key"
    using key(1) take_Suc_conv_app_nth [of 31 key] by simp
  then have last: "little_endian key = little_endian (take 31 key) + 256 ^ 31 * unat (key ! 31)"
    using little_endian_append [of "take 31 key" "[key ! 31]"] key(1) by simp
  show "8 dvd little_endian key"
    using key(2) arg_cong [OF first, of little_endian] by (simp add: dvd_add dvd_mult2)
  show "2 ^ 254 \<le> little_endian key"
    using key(3) by (simp add: last)
  show "little_endian key < 2 ^ 255"
    using key(1,4) little_endian_less [of "take 31 key"] by (simp add: last)
qed

end
