(* ===== verification/HKDF.thy ===== *)
theory HKDF
  imports Curve
begin

text \<open>
  \<open>hkdf.c\<close>: the HMAC-based key derivation function in the two variants the protocol
  uses (message version 2 counts rounds from 0, version 3 from 1). The loop of
  \<open>hkdf_expand\<close> has an 8-bit counter, so it ends exactly when the last counter value is
  at most 255; its model runs on fuel, and 256 rounds are enough because a longer run
  repeats a counter value and never ends (\<open>SG_ABORT\<close>). The main results: the loop ends
  for every output of at most \<open>32 * (255 - offset)\<close> bytes, and it then computes the
  function of RFC 5869.
\<close>

section \<open>The code\<close>

record hkdf_context =
  iteration_start_offset :: nat

definition HASH_OUTPUT_SIZE :: nat where "HASH_OUTPUT_SIZE = 32"

definition hkdf_create :: "int \<Rightarrow> hkdf_context result" where
  "hkdf_create message_version =
     (if message_version = 2 then Inr \<lparr>iteration_start_offset = 0\<rparr>
      else if message_version = 3 then Inr \<lparr>iteration_start_offset = 1\<rparr>
      else Inl SG_ERR_INVAL)"

definition hkdf_extract ::
  "('h, 'd, 'w) signal_context \<Rightarrow> bytes \<Rightarrow> bytes \<Rightarrow> bytes result" where
  "hkdf_extract context salt input_key_material =
     signal_hmac_sha256 context salt [input_key_material]"

text \<open>
  One step of the loop appends to \<open>result_buf\<close> the first \<open>remaining_len\<close> bytes of the
  digest of the previous digest (if any), the info (if any) and the counter \<open>i\<close>.
\<close>

fun hkdf_expand_loop ::
  "('h, 'd, 'w) signal_context \<Rightarrow> bytes \<Rightarrow> bytes option \<Rightarrow> nat \<Rightarrow>
     nat \<Rightarrow> byte \<Rightarrow> bytes option \<Rightarrow> nat \<Rightarrow> bytes \<Rightarrow> bytes result" where
  "hkdf_expand_loop context prk info limit 0 i step_buffer remaining_len result_buf = Inl SG_ABORT"
| "hkdf_expand_loop context prk info limit (Suc fuel) i step_buffer remaining_len result_buf =
     (if unat i < limit then
        rbind (signal_hmac_sha256 context prk
                 ((case step_buffer of None \<Rightarrow> [] | Some b \<Rightarrow> [b]) @
                  (case info of None \<Rightarrow> [] | Some ctx_info \<Rightarrow> [ctx_info]) @ [[i]])) (\<lambda>step.
        let step_size = min remaining_len (length step) in
        hkdf_expand_loop context prk info limit fuel (i + 1) (Some step)
          (remaining_len - step_size) (result_buf @ take step_size step))
      else Inr result_buf)"

definition hkdf_expand ::
  "('h, 'd, 'w) signal_context \<Rightarrow> hkdf_context \<Rightarrow> bytes \<Rightarrow> bytes option \<Rightarrow> nat \<Rightarrow> bytes result" where
  "hkdf_expand context kdf prk info output_len =
     (let iterations = (output_len + HASH_OUTPUT_SIZE - 1) div HASH_OUTPUT_SIZE in
      hkdf_expand_loop context prk info (iterations + iteration_start_offset kdf) 257
        (word_of_nat (iteration_start_offset kdf)) None output_len [])"

definition hkdf_derive_secrets ::
  "('h, 'd, 'w) signal_context \<Rightarrow> hkdf_context \<Rightarrow> bytes \<Rightarrow> bytes \<Rightarrow> bytes option \<Rightarrow> nat \<Rightarrow>
     bytes result" where
  "hkdf_derive_secrets context kdf input_key_material salt info output_len =
     rbind (hkdf_extract context salt input_key_material) (\<lambda>prk.
     hkdf_expand context kdf prk info output_len)"

fun hkdf_compare :: "hkdf_context option \<Rightarrow> hkdf_context option \<Rightarrow> int" where
  "hkdf_compare None None = 0"
| "hkdf_compare None (Some c2) = -1"
| "hkdf_compare (Some c1) None = 1"
| "hkdf_compare (Some c1) (Some c2) =
     (if iteration_start_offset c1 < iteration_start_offset c2 then -1
      else if iteration_start_offset c1 > iteration_start_offset c2 then 1
      else 0)"

interpretation hkdf: comparison hkdf_compare "\<lambda>_. True"
  by unfold_locales auto

section \<open>The function of RFC 5869\<close>

text \<open>
  \<open>rfc_T mac prk info off n\<close> is the list of the first \<open>n\<close> blocks, the last one first; the
  block with number \<open>k\<close> is the digest of the block before, the info and the byte \<open>off + k\<close>.
\<close>

fun rfc_T :: "(bytes \<Rightarrow> bytes \<Rightarrow> bytes) \<Rightarrow> bytes \<Rightarrow> bytes \<Rightarrow> nat \<Rightarrow> nat \<Rightarrow> bytes list" where
  "rfc_T mac prk info off 0 = []"
| "rfc_T mac prk info off (Suc n) =
     (let bs = rfc_T mac prk info off n
      in mac prk ((if bs = [] then [] else hd bs) @ info @ [word_of_nat (off + n)]) # bs)"

definition rfc_okm :: "(bytes \<Rightarrow> bytes \<Rightarrow> bytes) \<Rightarrow> bytes \<Rightarrow> bytes \<Rightarrow> nat \<Rightarrow> nat \<Rightarrow> bytes" where
  "rfc_okm mac prk info off len =
     take len (concat (rev (rfc_T mac prk info off ((len + 31) div 32))))"

lemma length_rfc_T: "length (rfc_T mac prk info off n) = n"
  by (induction n) (simp_all add: Let_def)

lemma length_concat_rfc_T:
  assumes "\<And>key data. length (mac key data) = 32"
  shows "length (concat (rfc_T mac prk info off n)) = 32 * n"
  by (induction n) (simp_all add: Let_def assms)

lemma unat_byte_of_nat: "n \<le> 255 \<Longrightarrow> unat (word_of_nat n :: byte) = n"
  by (simp add: unat_of_nat take_bit_nat_eq_self)

lemma hkdf_expand_loop_rfc:
  assumes mac: "hmac_spec context mac" and "off + n \<le> 255" "k \<le> n" "n - k < fuel"
    "len \<le> 32 * n" "32 * n < len + 32"
  shows "hkdf_expand_loop context prk (Some info) (n + off) fuel (word_of_nat (off + k))
       (if k = 0 then None else Some (hd (rfc_T mac prk info off k)))
       (len - 32 * k) (take len (concat (rev (rfc_T mac prk info off k)))) =
     Inr (take len (concat (rev (rfc_T mac prk info off n))))"
  using assms(3,4)
proof (induction "n - k" arbitrary: k fuel)
  case 0
  then obtain f where "fuel = Suc f"
    by (cases fuel) auto
  moreover have "unat (word_of_nat (off + n) :: byte) = off + n"
    using assms(2) by (rule unat_byte_of_nat)
  ultimately show ?case
    using 0 by (simp add: add.commute)
next
  case (Suc m)
  then obtain f where fuel: "fuel = Suc f"
    by (cases fuel) auto
  have k: "k < n"
    using Suc.hyps(2) by simp
  let ?T = "rfc_T mac prk info off"
  have i: "unat (word_of_nat (off + k) :: byte) = off + k"
    using assms(2) k by (intro unat_byte_of_nat) simp
  have len: "length (concat (?T k)) = 32 * k"
    by (rule length_concat_rfc_T) (rule hmac_specD(2) [OF mac])
  define step where "step = hd (?T (Suc k))"
  have step: "signal_hmac_sha256 context prk
      ((case if k = 0 then None else Some (hd (?T k)) of None \<Rightarrow> [] | Some b \<Rightarrow> [b]) @
        (case Some info of None \<Rightarrow> [] | Some c \<Rightarrow> [c]) @ [[word_of_nat (off + k)]]) = Inr step"
    using length_rfc_T [of mac prk info off k]
    by (auto simp: hmac_specD(1) [OF mac] step_def Let_def)
  have step_len: "length step = 32"
    by (simp add: step_def Let_def hmac_specD(2) [OF mac])
  have "?T (Suc k) = step # ?T k"
    by (simp add: step_def Let_def)
  then have buf: "take len (concat (rev (?T k))) @ take (min (len - 32 * k) (length step)) step =
      take len (concat (rev (?T (Suc k))))"
    by (simp add: len step_len min_def)
  have rem: "len - 32 * k - min (len - 32 * k) (length step) = len - 32 * Suc k"
    by (simp add: step_len)
  have next_i: "word_of_nat (off + k) + 1 = (word_of_nat (off + Suc k) :: byte)"
    by simp
  have "hkdf_expand_loop context prk (Some info) (n + off) f (word_of_nat (off + Suc k))
       (Some step) (len - 32 * Suc k) (take len (concat (rev (?T (Suc k))))) =
     Inr (take len (concat (rev (?T n))))"
    using Suc.hyps(1) [of "Suc k" f] Suc.hyps(2) Suc.prems fuel k by (simp add: step_def)
  then show ?case
    unfolding fuel hkdf_expand_loop.simps(2) i step rbind_Inr Let_def buf rem next_i
    using k by simp
qed

lemma hkdf_expand_rfc:
  assumes mac: "hmac_spec context mac"
    and "output_len \<le> 32 * (255 - iteration_start_offset kdf)" "iteration_start_offset kdf \<le> 1"
  shows "hkdf_expand context kdf prk (Some info) output_len =
    Inr (rfc_okm mac prk info (iteration_start_offset kdf) output_len)"
proof -
  let ?n = "(output_len + 31) div 32"
  have "iteration_start_offset kdf + ?n \<le> 255"
    using assms(2,3) by linarith
  moreover have "output_len \<le> 32 * ?n" "32 * ?n < output_len + 32"
    by linarith+
  ultimately show ?thesis
    using hkdf_expand_loop_rfc [OF mac, of "iteration_start_offset kdf" ?n 0 257 output_len prk info]
    by (simp add: hkdf_expand_def rfc_okm_def HASH_OUTPUT_SIZE_def Let_def add.commute)
qed

lemma length_rfc_okm:
  assumes "hmac_spec context mac"
  shows "length (rfc_okm mac prk info off len) = len"
  using length_concat_rfc_T [of mac prk info off "(len + 31) div 32"] hmac_specD(2) [OF assms]
  by (simp add: rfc_okm_def)

text \<open>The derivation as a function of its inputs, when the HMAC callbacks work.\<close>

definition kdf_fun ::
  "(bytes \<Rightarrow> bytes \<Rightarrow> bytes) \<Rightarrow> hkdf_context \<Rightarrow> bytes \<Rightarrow> bytes \<Rightarrow> bytes \<Rightarrow> nat \<Rightarrow> bytes" where
  "kdf_fun mac kdf ikm salt info len =
     rfc_okm mac (mac salt ikm) info (iteration_start_offset kdf) len"

lemma hkdf_derive_secrets_eq:
  assumes "hmac_spec context mac" "iteration_start_offset kdf \<le> 1" "len \<le> 8128"
  shows "hkdf_derive_secrets context kdf ikm salt (Some info) len = Inr (kdf_fun mac kdf ikm salt info len)"
  using assms
  by (simp add: hkdf_derive_secrets_def hkdf_extract_def hmac_specD kdf_fun_def hkdf_expand_rfc)

lemma length_kdf_fun:
  "hmac_spec context mac \<Longrightarrow> length (kdf_fun mac kdf ikm salt info len) = len"
  by (simp add: kdf_fun_def length_rfc_okm)

text \<open>With a limit above 255 the loop never ends, whatever the fuel.\<close>

lemma hkdf_expand_loop_diverges:
  assumes "hmac_spec context mac" "255 < limit"
  shows "hkdf_expand_loop context prk info limit fuel i step_buffer remaining_len result_buf = Inl SG_ABORT"
proof (induction fuel arbitrary: i step_buffer remaining_len result_buf)
  case (Suc fuel)
  have "unat i < limit"
    using assms(2) unsigned_less [where ?'a = nat, of i] by simp
  then show ?case
    using Suc by (simp add: hmac_specD(1) [OF assms(1)])
qed simp

lemma hkdf_create_offset: "hkdf_create v = Inr kdf \<Longrightarrow> iteration_start_offset kdf \<le> 1"
  by (auto simp: hkdf_create_def split: if_splits)

end
