(* ===== verification/Varint.thy ===== *)
theory Varint
  imports Prelude
begin

text \<open>
  The scalar layer of \<open>protobuf-c/protobuf-c.c\<close>: sizes, encoders and parsers of
  variable-length integers, fixed 64-bit integers, booleans, field tags and length
  prefixes. The lemmas show that every encoder writes as many bytes as the matching
  size function says, and that the scanners and parsers read back what was written,
  whatever follows it in the buffer.
\<close>

unbundle bit_operations_syntax

section \<open>Sizes\<close>

definition get_tag_size :: "u32 \<Rightarrow> nat" where
  "get_tag_size number =
     (if number < 2 ^ 4 then 1
      else if number < 2 ^ 11 then 2
      else if number < 2 ^ 18 then 3
      else if number < 2 ^ 25 then 4
      else 5)"

definition uint32_size :: "u32 \<Rightarrow> nat" where
  "uint32_size v =
     (if v < 2 ^ 7 then 1
      else if v < 2 ^ 14 then 2
      else if v < 2 ^ 21 then 3
      else if v < 2 ^ 28 then 4
      else 5)"

definition int32_size :: "u32 \<Rightarrow> nat" where
  "int32_size v =
     (if sint v < 0 then 10
      else if sint v < 2 ^ 7 then 1
      else if sint v < 2 ^ 14 then 2
      else if sint v < 2 ^ 21 then 3
      else if sint v < 2 ^ 28 then 4
      else 5)"

text \<open>The size of a length-prefixed payload of \<open>n\<close> bytes.\<close>

definition prefixed_size :: "nat \<Rightarrow> nat" where
  "prefixed_size n = uint32_size (word_of_nat n) + n"

section \<open>Packing\<close>

definition uint32_pack :: "u32 \<Rightarrow> bytes" where
  "uint32_pack value =
     (if value \<ge> 0x80 then
        let b0 = ucast (value OR 0x80); value = drop_bit 7 value in
        (if value \<ge> 0x80 then
           let b1 = ucast (value OR 0x80); value = drop_bit 7 value in
           (if value \<ge> 0x80 then
              let b2 = ucast (value OR 0x80); value = drop_bit 7 value in
              (if value \<ge> 0x80 then
                 let b3 = ucast (value OR 0x80); value = drop_bit 7 value in
                 [b0, b1, b2, b3, ucast value]
               else [b0, b1, b2, ucast value])
            else [b0, b1, ucast value])
         else [b0, ucast value])
      else [ucast value])"

definition int32_pack :: "u32 \<Rightarrow> bytes" where
  "int32_pack value =
     (if sint value < 0 then
        [ucast (value OR 0x80),
         ucast (signed_drop_bit 7 value OR 0x80),
         ucast (signed_drop_bit 14 value OR 0x80),
         ucast (signed_drop_bit 21 value OR 0x80),
         ucast (signed_drop_bit 28 value OR 0x80),
         0xff, 0xff, 0xff, 0xff, 0x01]
      else uint32_pack value)"

definition fixed64_pack :: "u64 \<Rightarrow> bytes" where
  "fixed64_pack value = map (\<lambda>i. ucast (drop_bit (8 * i) value)) [0..<8]"

definition boolean_pack :: "bool \<Rightarrow> bytes" where
  "boolean_pack value = [if value then 1 else 0]"

definition binary_data_pack :: "bytes \<Rightarrow> bytes" where
  "binary_data_pack bd = uint32_pack (word_of_nat (length bd)) @ bd"

function uint64_pack_high :: "u32 \<Rightarrow> bytes" where
  "uint64_pack_high hi =
     (if hi \<ge> 128 then ucast (hi OR 0x80) # uint64_pack_high (drop_bit 7 hi) else [ucast hi])"
  by pat_completeness auto
termination
proof (relation "measure unat")
  fix hi :: u32
  assume "hi \<ge> 128"
  then show "(drop_bit 7 hi, hi) \<in> measure unat"
    by (simp add: unat_drop_bit_eq word_le_nat_alt) (simp add: drop_bit_eq_div)
qed simp

declare uint64_pack_high.simps [simp del]

definition uint64_pack :: "u64 \<Rightarrow> bytes" where
  "uint64_pack value =
     (let hi = ucast (drop_bit 32 value) :: u32; lo = ucast value :: u32 in
      if hi = 0 then uint32_pack lo
      else
        [ucast (lo OR 0x80),
         ucast (drop_bit 7 lo OR 0x80),
         ucast (drop_bit 14 lo OR 0x80),
         ucast (drop_bit 21 lo OR 0x80)] @
        (if hi < 8 then [ucast (push_bit 4 hi OR drop_bit 28 lo)]
         else ucast (push_bit 4 (hi AND 7) OR drop_bit 28 lo OR 0x80) #
              uint64_pack_high (drop_bit 3 hi)))"

text \<open>The tag of a field, with the wire type that the caller or-s into its first byte.\<close>

definition tag_pack :: "u32 \<Rightarrow> bytes" where
  "tag_pack i =
     (if i < 2 ^ 29 then uint32_pack (push_bit 3 i)
      else uint64_pack (push_bit 3 (ucast i)))"

definition tag_wire_pack :: "u32 \<Rightarrow> byte \<Rightarrow> bytes" where
  "tag_wire_pack i wt = (case tag_pack i of [] \<Rightarrow> [] | b # bs \<Rightarrow> (b OR wt) # bs)"

section \<open>Scanning and parsing\<close>

text \<open>The number of bytes used (0 on error), the tag and the wire type.\<close>

fun parse_tag_loop :: "nat \<Rightarrow> bytes \<Rightarrow> u32 \<Rightarrow> nat \<Rightarrow> nat \<Rightarrow> (nat \<times> u32) option" where
  "parse_tag_loop 0 data tag shift rv = None"
| "parse_tag_loop (Suc k) [] tag shift rv = None"
| "parse_tag_loop (Suc k) (b # data) tag shift rv =
     (if b AND 0x80 \<noteq> 0
      then parse_tag_loop k data (tag OR push_bit shift (ucast (b AND 0x7f))) (shift + 7) (rv + 1)
      else Some (rv + 1, tag OR push_bit shift (ucast b)))"

definition parse_tag_and_wiretype :: "bytes \<Rightarrow> (nat \<times> u32 \<times> byte) option" where
  "parse_tag_and_wiretype data =
     (case data of
        [] \<Rightarrow> None
      | b # rest \<Rightarrow>
          let tag = ucast (drop_bit 3 (b AND 0x7f)); wt = b AND 7 in
          if b AND 0x80 = 0 then Some (1, tag, wt)
          else (case parse_tag_loop (min 5 (length data) - 1) rest tag 4 1 of
                  None \<Rightarrow> None
                | Some (used, tag') \<Rightarrow> Some (used, tag', wt)))"

fun scan_prefix :: "nat \<Rightarrow> bytes \<Rightarrow> u32 \<Rightarrow> nat \<Rightarrow> nat \<Rightarrow> (nat \<times> u32) option" where
  "scan_prefix 0 data val shift i = None"
| "scan_prefix (Suc k) [] val shift i = None"
| "scan_prefix (Suc k) (b # data) val shift i =
     (let val' = val OR push_bit shift (ucast (b AND 0x7f)) in
      if b AND 0x80 = 0 then Some (i + 1, val')
      else scan_prefix k data val' (shift + 7) (i + 1))"

text \<open>
  The total length of a length-prefixed field and the length of its prefix. The sum
  \<open>hdr_len + val\<close> is computed on 32 bits; a sum of 0 is the error value.
\<close>

definition scan_length_prefixed_data :: "bytes \<Rightarrow> (nat \<times> nat) option" where
  "scan_length_prefixed_data data =
     (case scan_prefix (min 5 (length data)) data 0 0 0 of
        None \<Rightarrow> None
      | Some (hdr_len, val) \<Rightarrow>
          let total = unat (word_of_nat hdr_len + val) in
          if total > length data then None
          else if total = 0 then None
          else Some (total, hdr_len))"

fun scan_varint_field :: "nat \<Rightarrow> bytes \<Rightarrow> nat option" where
  "scan_varint_field 0 data = None"
| "scan_varint_field (Suc k) [] = None"
| "scan_varint_field (Suc k) (b # data) =
     (if b AND 0x80 = 0 then Some 1 else map_option Suc (scan_varint_field k data))"

definition parse_uint32 :: "nat \<Rightarrow> bytes \<Rightarrow> u32" where
  "parse_uint32 len data =
     (let rv = ucast (data ! 0 AND 0x7f) in
      if len > 1 then
        let rv = rv OR push_bit 7 (ucast (data ! 1 AND 0x7f)) in
        (if len > 2 then
           let rv = rv OR push_bit 14 (ucast (data ! 2 AND 0x7f)) in
           (if len > 3 then
              let rv = rv OR push_bit 21 (ucast (data ! 3 AND 0x7f)) in
              (if len > 4 then rv OR push_bit 28 (ucast (data ! 4)) else rv)
            else rv)
         else rv)
      else rv)"

definition parse_fixed_uint64 :: "bytes \<Rightarrow> u64" where
  "parse_fixed_uint64 data =
     foldr (\<lambda>i acc. push_bit (8 * i) (ucast (data ! i)) OR acc) [0..<8] 0"

definition parse_boolean :: "nat \<Rightarrow> bytes \<Rightarrow> bool" where
  "parse_boolean len data = list_ex (\<lambda>b. b AND 0x7f \<noteq> 0) (take len data)"

section \<open>Reading back what was written\<close>

lemma parse_tag_loop_used: "parse_tag_loop k data tag shift rv = Some (used, tag') \<Longrightarrow> rv < used"
  by (induction k data tag shift rv rule: parse_tag_loop.induct) (auto split: if_splits)

lemma parse_tag_and_wiretype_used:
  "parse_tag_and_wiretype data = Some (used, tag, wt) \<Longrightarrow> 0 < used \<and> data \<noteq> []"
  by (auto simp: parse_tag_and_wiretype_def Let_def dest: parse_tag_loop_used
      split: list.splits if_splits option.splits)

text \<open>
  The bytes of a varint: all but the last have the high bit. Its value is the
  little-endian number formed by the low seven bits of each byte.
\<close>

fun is_varint :: "bytes \<Rightarrow> bool" where
  "is_varint [] = False"
| "is_varint [b] = (\<not> bit b 7)"
| "is_varint (b # bs) = (bit b 7 \<and> is_varint bs)"

fun varint_val :: "nat \<Rightarrow> bytes \<Rightarrow> u32" where
  "varint_val shift [] = 0"
| "varint_val shift (b # bs) = push_bit shift (ucast (b AND 0x7f)) OR varint_val (shift + 7) bs"

lemma mask7_byte: "(0x7f :: byte) = mask 7"
  by (simp add: mask_eq_exp_minus_1)

lemma high_bit_byte: "(b :: byte) AND 0x80 = 0 \<longleftrightarrow> \<not> bit b 7"
  using and_exp_eq_0_iff_not_bit [of b 7] by simp

lemma and_mask7_no_high: "\<not> bit b 7 \<Longrightarrow> (b :: byte) AND 0x7f = b"
  by (rule bit_word_eqI) (auto simp: mask7_byte bit_simps less_Suc_eq numeral_eq_Suc)

lemma is_varint_nonempty: "is_varint bs \<Longrightarrow> bs \<noteq> []"
  by (cases bs) auto

lemma is_varint_Cons:
  "is_varint (b # bs) \<longleftrightarrow> (if bs = [] then \<not> bit b 7 else bit b 7 \<and> is_varint bs)"
  by (cases bs) auto

lemma scan_prefix_varint:
  assumes "is_varint bs" "length bs \<le> k"
  shows "scan_prefix k (bs @ rest) val shift i = Some (i + length bs, val OR varint_val shift bs)"
  using assms
proof (induction bs arbitrary: k val shift i rule: is_varint.induct)
  case 1
  then show ?case by simp
next
  case (2 b)
  then show ?case by (cases k) (auto simp: high_bit_byte Let_def)
next
  case (3 b c bs)
  then show ?case by (cases k) (auto simp: high_bit_byte Let_def or.assoc)
qed

lemma parse_tag_loop_varint:
  assumes "is_varint bs" "length bs \<le> k"
  shows "parse_tag_loop k (bs @ rest) tag shift rv = Some (rv + length bs, tag OR varint_val shift bs)"
  using assms
proof (induction bs arbitrary: k tag shift rv rule: is_varint.induct)
  case 1
  then show ?case by simp
next
  case (2 b)
  then show ?case by (cases k) (auto simp: high_bit_byte and_mask7_no_high)
next
  case (3 b c bs)
  then show ?case by (cases k) (auto simp: high_bit_byte or.assoc)
qed

lemma scan_varint_field_varint:
  assumes "is_varint bs" "length bs \<le> k"
  shows "scan_varint_field k (bs @ rest) = Some (length bs)"
  using assms
proof (induction bs arbitrary: k rule: is_varint.induct)
  case 1
  then show ?case by simp
next
  case (2 b)
  then show ?case by (cases k) (auto simp: high_bit_byte)
next
  case (3 b c bs)
  then show ?case by (cases k) (auto simp: high_bit_byte)
qed

lemma le_drop_bit_iff:
  "0x80 \<le> drop_bit 7 (v :: u32) \<longleftrightarrow> 0x4000 \<le> v"
  "0x80 \<le> drop_bit 14 (v :: u32) \<longleftrightarrow> 0x200000 \<le> v"
  "0x80 \<le> drop_bit 21 (v :: u32) \<longleftrightarrow> 0x10000000 \<le> v"
  by (simp_all add: word_le_nat_alt unat_drop_bit_eq) (simp_all add: drop_bit_eq_div, linarith+)

lemma take_bit_small:
  assumes "(w :: 'a::len word) < 2 ^ m"
  shows "take_bit m w = w"
proof (cases "m < LENGTH('a)")
  case True
  then have "uint w < 2 ^ m"
    using assms word_2p_lem [of m w] by (simp add: word_size)
  then have "take_bit m (uint w) = uint w"
    by (simp add: take_bit_int_eq_self)
  then show ?thesis
    by (metis unsigned_take_bit_eq word_uint_eq_iff True less_imp_le)
next
  case False
  then show ?thesis by (simp add: take_bit_word_eq_self)
qed

lemma bit_0x80: "bit (0x80 :: int) n \<longleftrightarrow> n = 7"
  using bit_exp_iff [where ?'a = int, of 7 n] by auto

lemma not_bit_small:
  "(w :: 'a::len word) < 2 ^ m \<Longrightarrow> m \<le> n \<Longrightarrow> \<not> bit w n"
  by (metis bit_take_bit_iff not_le take_bit_small)

lemma uint32_pack_cases:
  "v < 0x80 \<Longrightarrow> uint32_pack v = [ucast v]"
  "0x80 \<le> v \<Longrightarrow> v < 0x4000 \<Longrightarrow> uint32_pack v = [ucast (v OR 0x80), ucast (drop_bit 7 v)]"
  "0x4000 \<le> v \<Longrightarrow> v < 0x200000 \<Longrightarrow>
     uint32_pack v = [ucast (v OR 0x80), ucast (drop_bit 7 v OR 0x80), ucast (drop_bit 14 v)]"
  "0x200000 \<le> v \<Longrightarrow> v < 0x10000000 \<Longrightarrow>
     uint32_pack v = [ucast (v OR 0x80), ucast (drop_bit 7 v OR 0x80), ucast (drop_bit 14 v OR 0x80),
       ucast (drop_bit 21 v)]"
  "0x10000000 \<le> v \<Longrightarrow>
     uint32_pack v = [ucast (v OR 0x80), ucast (drop_bit 7 v OR 0x80), ucast (drop_bit 14 v OR 0x80),
       ucast (drop_bit 21 v OR 0x80), ucast (drop_bit 28 v)]"
  by (auto simp: uint32_pack_def Let_def le_drop_bit_iff not_le dest: le_less_trans)

lemma uint32_range_cases:
  obtains (B1) "(v :: u32) < 0x80"
  | (B2) "0x80 \<le> v" "v < 0x4000"
  | (B3) "0x4000 \<le> v" "v < 0x200000"
  | (B4) "0x200000 \<le> v" "v < 0x10000000"
  | (B5) "0x10000000 \<le> v"
  by (meson not_le)

lemma is_varint_uint32_pack: "is_varint (uint32_pack v)"
  by (cases rule: uint32_range_cases [of v])
   (auto simp: uint32_pack_cases bit_simps not_bit_small [of v 7 7] not_bit_small [of v 14 14] not_bit_small [of v 21 21]
    not_bit_small [of v 28 28] dest: bit_imp_le_length)

lemma length_uint32_pack: "length (uint32_pack v) = uint32_size v"
  by (auto simp: uint32_pack_def uint32_size_def Let_def le_drop_bit_iff not_le)

lemma seven_bits:
  "ucast (ucast ((x :: u32) OR 0x80) AND 0x7f :: byte) = take_bit 7 x"
  "ucast (ucast x AND 0x7f :: byte) = take_bit 7 x"
  by (intro bit_word_eqI; auto simp: bit_simps mask7_byte bit_0x80)+

lemma take_bit_join:
  "take_bit k v OR push_bit k (take_bit l (drop_bit k v)) = take_bit (k + l) (v :: 'a::len word)"
  "take_bit k v OR (push_bit k (take_bit l (drop_bit k v)) OR w) = take_bit (k + l) v OR w"
  by (intro bit_word_eqI; auto simp: bit_simps)+

lemma varint_val_uint32_pack: "varint_val 0 (uint32_pack v) = v"
  by (cases rule: uint32_range_cases [of v])
    (simp_all add: uint32_pack_cases seven_bits take_bit_join take_bit_small [of v 7]
      take_bit_small [of v 14] take_bit_small [of v 21] take_bit_small [of v 28] take_bit_word_eq_self [of 35])

lemma uint32_size_bounds: "1 \<le> uint32_size v" "uint32_size v \<le> 5"
  by (auto simp: uint32_size_def)

lemma take_conv_map_nth: "k \<le> length xs \<Longrightarrow> take k xs = map ((!) xs) [0..<k]"
  by (rule nth_equalityI) auto

lemma upt_small:
  "[0..<2] = [0, 1]" "[0..<3] = [0, 1, 2]" "[0..<4] = [0, 1, 2, 3]" "[0..<5] = [0, 1, 2, 3, 4]"
  "[0..<8] = [0, 1, 2, 3, 4, 5, 6, 7]"
  by (simp_all add: upt_conv_Cons)

lemma push_bit_28_and: "push_bit 28 (ucast (b AND 0x7f)) = (push_bit 28 (ucast (b :: byte)) :: u32)"
  by (rule bit_word_eqI) (auto simp: bit_simps mask7_byte)

lemma parse_uint32_varint_val:
  assumes "1 \<le> len" "len \<le> length data"
  shows "parse_uint32 len data = varint_val 0 (take (min 5 len) data)"
proof -
  consider "len = 1" | "len = 2" | "len = 3" | "len = 4" | "5 \<le> len"
    using assms(1) by linarith
  then show ?thesis
    using assms
    by cases (simp_all add: take_conv_map_nth parse_uint32_def push_bit_28_and or.assoc min_def upt_small
      del: push_bit_numeral)
qed

lemma parse_uint32_pack: "parse_uint32 (uint32_size v) (uint32_pack v @ rest) = v"
  using uint32_size_bounds [of v]
  by (simp add: parse_uint32_varint_val length_uint32_pack varint_val_uint32_pack min_def)

lemma scan_varint_uint32_pack:
  "scan_varint_field (min 10 (length (uint32_pack v @ rest))) (uint32_pack v @ rest) = Some (uint32_size v)"
  by (subst scan_varint_field_varint) (auto simp: is_varint_uint32_pack length_uint32_pack uint32_size_def)

lemma scan_length_prefixed_data_pack:
  assumes "length bs + 5 < 2 ^ 32"
  shows "scan_length_prefixed_data (binary_data_pack bs @ rest) =
    Some (prefixed_size (length bs), uint32_size (word_of_nat (length bs)))"
proof -
  let ?v = "word_of_nat (length bs) :: u32"
  have "scan_prefix (min 5 (length (binary_data_pack bs @ rest))) (binary_data_pack bs @ rest) 0 0 0
     = Some (uint32_size ?v, ?v)"
    using uint32_size_bounds [of ?v]
    by (simp add: binary_data_pack_def scan_prefix_varint is_varint_uint32_pack length_uint32_pack
      varint_val_uint32_pack)
  moreover have "unat (word_of_nat (uint32_size ?v) + ?v) = prefixed_size (length bs)"
    using uint32_size_bounds [of ?v] assms
    by (simp add: prefixed_size_def unat_of_nat take_bit_nat_eq_self flip: of_nat_add)
  ultimately show ?thesis
    using uint32_size_bounds [of ?v]
    by (simp add: scan_length_prefixed_data_def prefixed_size_def binary_data_pack_def length_uint32_pack)
qed


lemma sint_nonneg:
  assumes "\<not> sint (v :: u32) < 0"
  shows "sint v = uint v"
proof -
  have "\<not> bit v 31"
    using assms bit_last_iff [of v] by simp
  then have "bit v n \<Longrightarrow> n < 31" for n
    using bit_imp_le_length [of v n] by (cases "n = 31") auto
  then have "take_bit 31 (uint v) = uint v"
    by (intro bit_eqI) (auto simp: bit_simps)
  then show ?thesis
    using \<open>\<not> bit v 31\<close> by (simp add: sint_uint signed_take_bit_eq_if_positive bit_uint_iff)
qed

lemma seven_bits_signed:
  "k + 7 \<le> 32 \<Longrightarrow> take_bit 7 (signed_drop_bit k (v :: u32)) = take_bit 7 (drop_bit k v)"
  "push_bit 28 (take_bit 7 (signed_drop_bit 28 (v :: u32))) = push_bit 28 (take_bit 7 (drop_bit 28 v))"
  by (intro bit_word_eqI; auto simp: bit_simps bit_signed_drop_bit_iff)+

lemma is_varint_int32_pack: "is_varint (int32_pack v)"
  by (simp add: int32_pack_def is_varint_uint32_pack bit_simps)

lemma int32_size_nonneg: "\<not> sint v < 0 \<Longrightarrow> int32_size v = uint32_size v"
  by (simp add: int32_size_def uint32_size_def sint_nonneg word_less_def)

lemma length_int32_pack: "length (int32_pack v) = int32_size v"
  by (cases "sint v < 0") (simp_all add: int32_pack_def int32_size_nonneg length_uint32_pack, simp add: int32_size_def)

lemma varint_val_int32_pack: "varint_val 0 (take (min 5 (int32_size v)) (int32_pack v)) = v"
proof (cases "sint v < 0")
  case True
  then show ?thesis
    by (simp add: int32_pack_def int32_size_def seven_bits seven_bits_signed take_bit_join take_bit_word_eq_self [of 35])
next
  case False
  then show ?thesis
    using uint32_size_bounds [of v]
    by (simp add: int32_pack_def int32_size_nonneg length_uint32_pack varint_val_uint32_pack min_def)
qed

lemma parse_int32_pack: "parse_uint32 (int32_size v) (int32_pack v @ rest) = v"
  using varint_val_int32_pack [of v]
  by (subst parse_uint32_varint_val) (auto simp: length_int32_pack int32_size_def)

lemma ucast_byte: "ucast (ucast (x :: u64) :: byte) = take_bit 8 x"
  by (rule bit_word_eqI) (auto simp: bit_simps)

lemma parse_fixed_uint64_pack: "parse_fixed_uint64 (fixed64_pack v @ rest) = v"
  by (simp add: parse_fixed_uint64_def fixed64_pack_def upt_small ucast_byte take_bit_join
      take_bit_word_eq_self [of 64])

lemma parse_boolean_pack: "parse_boolean 1 (boolean_pack b @ rest) = b"
  by (simp add: parse_boolean_def boolean_pack_def)


lemma tag_range_cases:
  obtains (T1) "(i :: u32) < 0x10"
  | (T2) "0x10 \<le> i" "i < 0x800"
  | (T3) "0x800 \<le> i" "i < 0x40000"
  | (T4) "0x40000 \<le> i" "i < 0x2000000"
  | (T5) "0x2000000 \<le> i"
  by (meson not_le)

lemma bit_small: "(w :: 'a::len word) < 2 ^ m \<Longrightarrow> bit w n \<Longrightarrow> n < m"
  using not_bit_small not_le by blast

lemma unat_push3: "i < 0x20000000 \<Longrightarrow> unat (push_bit 3 (i :: u32)) = 8 * unat i"
  by (simp add: unat_word_ariths word_less_nat_alt push_bit_eq_mult)

lemma push3_cmp:
  assumes "i < 0x20000000"
  shows "push_bit 3 (i :: u32) < 0x80 \<longleftrightarrow> i < 0x10" "0x80 \<le> push_bit 3 i \<longleftrightarrow> 0x10 \<le> i"
    "push_bit 3 i < 0x4000 \<longleftrightarrow> i < 0x800" "0x4000 \<le> push_bit 3 i \<longleftrightarrow> 0x800 \<le> i"
    "push_bit 3 i < 0x200000 \<longleftrightarrow> i < 0x40000" "0x200000 \<le> push_bit 3 i \<longleftrightarrow> 0x40000 \<le> i"
    "push_bit 3 i < 0x10000000 \<longleftrightarrow> i < 0x2000000"
    "0x10000000 \<le> push_bit 3 i \<longleftrightarrow> 0x2000000 \<le> i"
  using assms by (simp_all only: word_less_nat_alt word_le_nat_alt unat_push3) auto

lemma drop_push3:
  assumes "i < 0x20000000" "3 \<le> k"
  shows "drop_bit k (push_bit 3 (i :: u32)) = drop_bit (k - 3) i"
  using bit_small [of i 29] assms by (intro bit_word_eqI) (fastforce simp: bit_simps)

lemma tag_pack_small:
  assumes "i < 0x20000000"
  shows "i < 0x10 \<Longrightarrow> tag_pack i = [ucast (push_bit 3 i)]"
  "0x10 \<le> i \<Longrightarrow> i < 0x800 \<Longrightarrow> tag_pack i = [ucast (push_bit 3 i OR 0x80), ucast (drop_bit 4 i)]"
  "0x800 \<le> i \<Longrightarrow> i < 0x40000 \<Longrightarrow> tag_pack i =
    [ucast (push_bit 3 i OR 0x80), ucast (drop_bit 4 i OR 0x80), ucast (drop_bit 11 i)]"
  "0x40000 \<le> i \<Longrightarrow> i < 0x2000000 \<Longrightarrow> tag_pack i =
    [ucast (push_bit 3 i OR 0x80), ucast (drop_bit 4 i OR 0x80), ucast (drop_bit 11 i OR 0x80),
     ucast (drop_bit 18 i)]"
  "0x2000000 \<le> i \<Longrightarrow> tag_pack i =
    [ucast (push_bit 3 i OR 0x80), ucast (drop_bit 4 i OR 0x80), ucast (drop_bit 11 i OR 0x80),
     ucast (drop_bit 18 i OR 0x80), ucast (drop_bit 25 i)]"
  using assms
  by (simp_all add: tag_pack_def uint32_pack_cases push3_cmp drop_push3 del: push_bit_numeral)

lemma tag_pack_large:
  assumes "0x20000000 \<le> i"
  shows "tag_pack i =
    [ucast (push_bit 3 i OR 0x80), ucast (drop_bit 4 i OR 0x80), ucast (drop_bit 11 i OR 0x80),
     ucast (drop_bit 18 i OR 0x80), ucast (drop_bit 25 i)]"
proof -
  let ?v = "push_bit 3 (ucast i) :: u64"
  have hi: "ucast (drop_bit 32 ?v) = drop_bit 29 i" and lo: "ucast ?v = push_bit 3 i"
    by (intro bit_word_eqI; auto simp: bit_simps dest: bit_imp_le_length)+
  have "unat (drop_bit 29 i) = unat i div 2 ^ 29"
    by (simp add: unat_drop_bit_eq) (simp add: drop_bit_eq_div)
  moreover have "unat i < 2 ^ 32" "2 ^ 29 \<le> unat i"
    using assms unsigned_less [where ?'a = nat, of i] by (simp_all add: word_le_nat_alt)
  ultimately have "unat (drop_bit 29 i) < 8" "0 < unat (drop_bit 29 i)"
    by auto
  then have hi_range: "drop_bit 29 i < 8" "drop_bit 29 i \<noteq> 0"
    by (auto simp: word_less_nat_alt)
  have bytes: "ucast (drop_bit 7 (push_bit 3 i) OR 0x80) = (ucast (drop_bit 4 i OR 0x80) :: byte)"
    "ucast (drop_bit 14 (push_bit 3 i) OR 0x80) = (ucast (drop_bit 11 i OR 0x80) :: byte)"
    "ucast (drop_bit 21 (push_bit 3 i) OR 0x80) = (ucast (drop_bit 18 i OR 0x80) :: byte)"
    "ucast (push_bit 4 (drop_bit 29 i) OR drop_bit 28 (push_bit 3 i)) = (ucast (drop_bit 25 i) :: byte)"
    by (intro bit_word_eqI; auto simp: bit_simps bit_0x80)+
  show ?thesis
    using assms
    by (simp add: tag_pack_def uint64_pack_def hi lo hi_range bytes Let_def not_less [symmetric] del: push_bit_numeral)
qed

lemma tag_pack_cases:
  "i < 0x10 \<Longrightarrow> tag_pack i = [ucast (push_bit 3 i)]"
  "0x10 \<le> i \<Longrightarrow> i < 0x800 \<Longrightarrow> tag_pack i = [ucast (push_bit 3 i OR 0x80), ucast (drop_bit 4 i)]"
  "0x800 \<le> i \<Longrightarrow> i < 0x40000 \<Longrightarrow> tag_pack i =
    [ucast (push_bit 3 i OR 0x80), ucast (drop_bit 4 i OR 0x80), ucast (drop_bit 11 i)]"
  "0x40000 \<le> i \<Longrightarrow> i < 0x2000000 \<Longrightarrow> tag_pack i =
    [ucast (push_bit 3 i OR 0x80), ucast (drop_bit 4 i OR 0x80), ucast (drop_bit 11 i OR 0x80),
     ucast (drop_bit 18 i)]"
  "0x2000000 \<le> i \<Longrightarrow> tag_pack i =
    [ucast (push_bit 3 i OR 0x80), ucast (drop_bit 4 i OR 0x80), ucast (drop_bit 11 i OR 0x80),
     ucast (drop_bit 18 i OR 0x80), ucast (drop_bit 25 i)]"
proof -
  have small: "i < 0x20000000" if "i < 0x10 \<or> i < 0x800 \<or> i < 0x40000 \<or> i < 0x2000000"
    using that by (auto simp: word_less_nat_alt)
  show "i < 0x10 \<Longrightarrow> tag_pack i = [ucast (push_bit 3 i)]"
    using small tag_pack_small(1) by blast
  show "0x10 \<le> i \<Longrightarrow> i < 0x800 \<Longrightarrow> tag_pack i = [ucast (push_bit 3 i OR 0x80), ucast (drop_bit 4 i)]"
    using small tag_pack_small(2) by blast
  show "0x800 \<le> i \<Longrightarrow> i < 0x40000 \<Longrightarrow> tag_pack i =
    [ucast (push_bit 3 i OR 0x80), ucast (drop_bit 4 i OR 0x80), ucast (drop_bit 11 i)]"
    using small tag_pack_small(3) by blast
  show "0x40000 \<le> i \<Longrightarrow> i < 0x2000000 \<Longrightarrow> tag_pack i =
    [ucast (push_bit 3 i OR 0x80), ucast (drop_bit 4 i OR 0x80), ucast (drop_bit 11 i OR 0x80),
     ucast (drop_bit 18 i)]"
    using small tag_pack_small(4) by blast
  show "0x2000000 \<le> i \<Longrightarrow> tag_pack i =
    [ucast (push_bit 3 i OR 0x80), ucast (drop_bit 4 i OR 0x80), ucast (drop_bit 11 i OR 0x80),
     ucast (drop_bit 18 i OR 0x80), ucast (drop_bit 25 i)]"
    using tag_pack_small(5) tag_pack_large not_le by blast
qed

lemma length_tag_pack: "length (tag_pack i) = get_tag_size i"
  by (cases rule: tag_range_cases [of i]) (auto simp: get_tag_size_def tag_pack_cases dest: le_less_trans)

lemma tag_first_byte:
  assumes "wt < 8"
  shows "(ucast (push_bit 3 (i :: u32)) OR wt :: byte) AND 7 = wt"
   "(ucast (push_bit 3 i OR 0x80) OR wt :: byte) AND 7 = wt"
   "ucast (drop_bit 3 ((ucast (push_bit 3 i) OR wt :: byte) AND 0x7f)) = take_bit 4 i"
   "ucast (drop_bit 3 ((ucast (push_bit 3 i OR 0x80) OR wt :: byte) AND 0x7f)) = take_bit 4 i"
   "bit (ucast (push_bit 3 i OR 0x80) OR wt :: byte) 7"
proof -
  have wt: "bit wt n \<Longrightarrow> n < 3" for n
    using bit_small [of wt 3 n] assms by simp
  have seven: "(7 :: byte) = mask 3" 
    by (simp add: mask_eq_exp_minus_1)
  show "(ucast (push_bit 3 (i :: u32)) OR wt :: byte) AND 7 = wt"
   "(ucast (push_bit 3 i OR 0x80) OR wt :: byte) AND 7 = wt"
   "ucast (drop_bit 3 ((ucast (push_bit 3 i) OR wt :: byte) AND 0x7f)) = take_bit 4 i"
   "ucast (drop_bit 3 ((ucast (push_bit 3 i OR 0x80) OR wt :: byte) AND 0x7f)) = take_bit 4 i"
   "bit (ucast (push_bit 3 i OR 0x80) OR wt :: byte) 7"
    by (intro bit_word_eqI; auto simp: bit_simps mask7_byte seven bit_0x80 dest: wt)+
    (simp add: bit_simps)
qed

lemma tag_pack_shape:
  obtains (one) "i < 0x10" "tag_pack i = [ucast (push_bit 3 i)]"
  | (more) bs where "tag_pack i = ucast (push_bit 3 i OR 0x80) # bs" "is_varint bs"
      "take_bit 4 i OR varint_val 4 bs = i" "length bs \<le> 4"
proof -
  have *: thesis if "tag_pack i = ucast (push_bit 3 i OR 0x80) # bs" "is_varint bs \<and>
      take_bit 4 i OR varint_val 4 bs = i \<and> length bs \<le> 4" for bs
    using that more by blast
  show thesis
  proof (cases rule: tag_range_cases [of i])
    case T1
    then show ?thesis using one tag_pack_cases(1) by blast
  next
    case T2
    then show ?thesis
      by (intro * [OF tag_pack_cases(2)])
        (auto simp: seven_bits take_bit_join take_bit_small [of i 11] bit_simps not_bit_small [of i 11 11])
  next
    case T3
    then show ?thesis
      by (intro * [OF tag_pack_cases(3)])
        (auto simp: seven_bits take_bit_join take_bit_small [of i 18] bit_simps not_bit_small [of i 18 18])
  next
    case T4
    then show ?thesis
      by (intro * [OF tag_pack_cases(4)])
        (auto simp: seven_bits take_bit_join take_bit_small [of i 25] bit_simps not_bit_small [of i 25 25])
  next
    case T5
    then show ?thesis
      by (intro * [OF tag_pack_cases(5)])
        (auto simp: seven_bits take_bit_join take_bit_word_eq_self [of 32] bit_simps dest: bit_imp_le_length)
  qed
qed

lemma parse_tag_wire_pack:
  assumes "wt < 8"
  shows "parse_tag_and_wiretype (tag_wire_pack i wt @ rest) = Some (get_tag_size i, i, wt)"
proof (cases rule: tag_pack_shape [of i])
  case one
  then have "take_bit 4 i = i"
    by (simp add: take_bit_small)
  moreover have "\<not> bit (ucast (push_bit 3 i) OR wt :: byte) 7"
    using bit_small [of i 4] bit_small [of wt 3] assms one(1) 
    by (fastforce simp: bit_simps)
  ultimately show ?thesis
    using one assms tag_first_byte(3) [OF assms, of i]
    by (simp add: parse_tag_and_wiretype_def tag_wire_pack_def tag_first_byte high_bit_byte get_tag_size_def Let_def
     del: push_bit_numeral)
next
  case (more bs)
  have "get_tag_size i = Suc (length bs)"
    using more(1) length_tag_pack [of i] by simp
  moreover have "parse_tag_loop (min 5 (Suc (length bs + length rest)) - 1) (bs @ rest) (take_bit 4 i) 4 1 = 
     Some (1 + length bs, take_bit 4 i OR varint_val 4 bs)"
    using more by (intro parse_tag_loop_varint) auto
  ultimately show ?thesis
    using more assms tag_first_byte(4) [OF assms, of i]
    by (simp add: parse_tag_and_wiretype_def tag_wire_pack_def tag_first_byte high_bit_byte Let_def
     del: push_bit_numeral)
qed

lemma length_tag_wire_pack: "length (tag_wire_pack i wt) = get_tag_size i"
  by (simp add: tag_wire_pack_def split: list.split flip: length_tag_pack)

lemma get_tag_size_pos: "0 < get_tag_size i"
  by (simp add: get_tag_size_def)

lemma length_fixed64_pack: "length (fixed64_pack v) = 8"
  by (simp add: fixed64_pack_def)

lemma length_boolean_pack: "length (boolean_pack b) = 1"
  by (simp add: boolean_pack_def)

lemma length_binary_data_pack: "length (binary_data_pack bs) = prefixed_size (length bs)"
  by (simp add: binary_data_pack_def prefixed_size_def length_uint32_pack)

lemmas pack_lengths = length_uint32_pack length_int32_pack length_fixed64_pack length_boolean_pack
  length_binary_data_pack length_tag_wire_pack

section \<open>Lengths that wrap at 32 bits\<close>

lemma bit_varint_val:
  "bit (varint_val s bs) n \<longleftrightarrow>
     s \<le> n \<and> n < 32 \<and> (n - s) div 7 < length bs \<and> bit (bs ! ((n - s) div 7)) ((n - s) mod 7)"
proof (induction bs arbitrary: s)
  case Nil
  then show ?case by simp
next
  case (Cons b bs)
  show ?case
  proof (cases "s + 7 \<le> n")
    case True
    then have d: "(n - s) div 7 = Suc ((n - (s + 7)) div 7)" "(n - s) mod 7 = (n - (s + 7)) mod 7"
      by (simp_all add: le_div_geq le_mod_geq)
    have "\<not> bit (0x7f :: byte) (n - s)"
      using True bit_take_bit_iff [of 7 "-1 :: byte" "n - s"] by (simp add: take_bit_eq_mask mask_eq_exp_minus_1)
    then show ?thesis
      using True by (simp add: bit_or_iff bit_push_bit_iff bit_and_iff bit_ucast_iff d Cons) blast
  next
    case False
    then have "bit (0x7f :: byte) (n - s)" if "s \<le> n"
      using that bit_take_bit_iff [of 7 "-1 :: byte" "n - s"] by (auto simp: take_bit_eq_mask mask_eq_exp_minus_1 bit_minus_1_iff)
    then show ?thesis
      using False by (auto simp: bit_or_iff bit_push_bit_iff bit_and_iff bit_ucast_iff Cons dest: bit_imp_le_length)
  qed
qed

lemma scan_prefix_split:
  assumes "scan_prefix k data val shift i = Some (n, v)"
  obtains bs rest where "data = bs @ rest" "length bs \<le> k" "n = i + length bs" "v = val OR varint_val shift bs"
  using assms
proof (induction k data val shift i arbitrary: thesis rule: scan_prefix.induct)
  case (3 k b data val shift i)
  show ?case
  proof (cases "b AND 0x80 = 0")
    case True
    then show ?thesis
      using "3.prems"(2) by (auto simp: Let_def intro!: "3.prems"(1) [of "[b]" data])
  next
    case False
    then obtain bs rest where "data = bs @ rest" "length bs \<le> k" "n = i + 1 + length bs"
        "v = (val OR push_bit shift (ucast (b AND 0x7f))) OR varint_val (shift + 7) bs"
      using "3.prems"(2) by (auto simp: Let_def elim: "3.IH" [OF refl])
    then show ?thesis
      by (intro "3.prems"(1) [of "b # bs" rest]) (simp_all add: or.assoc)
  qed
qed simp_all

lemma high_bits_set:
  fixes v :: u32
  assumes "2 ^ 32 - 8 \<le> unat v" "3 \<le> n" "n < 32"
  shows "bit v n"
proof -
  have "(unat v) div 2 ^ 3 = 2 ^ 29 - 1"
    using assms(1) unsigned_less [of v, where 'a = nat] by (simp add: div_nat_eqI)
  then have "drop_bit 3 (unat v) = mask 29"
    by (simp add: drop_bit_eq_div mask_eq_exp_minus_1)
  then have "bit (unat v) (3 + (n - 3))"
    using assms by (metis bit_drop_bit_eq bit_mask_iff comp_apply less_diff_conv2 numeral_plus_numeral add_num_simps possible_bit_nat)
  then show ?thesis
    using assms by (simp add: bit_unsigned_iff)
qed

lemma low_three_bits:
  fixes b :: byte
  assumes "bit b 0" "bit b 1" "bit b 2"
  shows "b AND 7 = 7"
proof (rule bit_word_eqI)
  fix n
  have "(7 :: byte) = mask 3"
    by (simp add: mask_eq_exp_minus_1)
  moreover have "n < 3 \<Longrightarrow> bit b n"
    using assms by (auto simp: numeral_3_eq_3 less_Suc_eq numeral_2_eq_2)
  ultimately show "bit (b AND 7) n = bit (7 :: byte) n"
    by (metis bit_and_iff bit_mask_iff)
qed

text \<open>
  A length that wraps at 32 bits leaves the scanner inside the prefix, before a byte whose low three bits
  are set.
\<close>

lemma scan_length_wrapped:
  assumes "scan_length_prefixed_data data = Some (len, hdr)" "len < hdr"
  obtains b rest where "drop len data = b # rest" "b AND 7 = 7"
proof -
  obtain v where v: "scan_prefix (min 5 (length data)) data 0 0 0 = Some (hdr, v)"
      and len: "len = unat (word_of_nat hdr + v)" "len \<noteq> 0"
    using assms(1) by (auto simp: scan_length_prefixed_data_def Let_def split: option.splits prod.splits if_splits)
  obtain bs rest where bs: "data = bs @ rest" "length bs \<le> 5" "hdr = length bs" "v = varint_val 0 bs"
    using v by (rule scan_prefix_split) auto
  have "unat (word_of_nat hdr :: u32) = hdr"
    using bs by (simp add: unat_of_nat)
  then have "2 ^ 32 - 8 \<le> unat v"
    using len assms(2) bs by (cases "hdr + unat v < 2 ^ 32") (auto simp: unat_word_ariths)
  then have high: "bit (varint_val 0 bs) n" if "3 \<le> n" "n < 32" for n
    using high_bits_set that bs by blast
  have "4 < length bs"
    using high [of 31] by (simp add: bit_varint_val)
  have "bit (bs ! len) j" if "j < 3" for j
  proof -
    have "(7 * len + j) div 7 = len" "(7 * len + j) mod 7 = j"
      using that by (simp_all add: div_nat_eqI)
    then show ?thesis
      using high [of "7 * len + j"] assms(2) len(2) bs(2,3) that by (simp add: bit_varint_val)
  qed
  then show thesis
    using assms(2) bs that [of "bs ! len" "drop (Suc len) data"]
    by (simp add: low_three_bits Cons_nth_drop_Suc [symmetric])
qed

end
