(* ===== verification/Protobuf.thy ===== *)
theory Protobuf
  imports Varint "HOL-Library.Sublist"
begin

text \<open>
  The protocol-buffer encoder and decoder of \<open>protobuf-c/protobuf-c.c\<close>, for the field
  types and labels that the generated descriptors of this repository use:
  optional \<open>uint32\<close>, \<open>int32\<close>, \<open>bool\<close>, \<open>fixed64\<close>, \<open>bytes\<close> and message
  fields, and repeated message fields (no required, packed or oneof field, no string,
  no default value occurs in any \<open>*.pb-c.c\<close> file).

  A message is its descriptor, one slot per field of the descriptor, and the unknown
  fields; an absent optional field is \<open>Opt None\<close> (\<open>has_x\<close> false, or a null
  pointer for a message). Unpacking follows the two passes of
  \<open>protobuf_c_message_unpack\<close>: scan the bytes into members, then parse each member
  into its slot. A null result is \<open>PB_NULL\<close>; \<open>PB_OVERREAD\<close> marks a read
  outside the input buffer.
\<close>

section \<open>Descriptors and messages\<close>

datatype pb_type =
    TYPE_UINT32
  | TYPE_INT32
  | TYPE_BOOL
  | TYPE_FIXED64
  | TYPE_BYTES
  | TYPE_MESSAGE pb_desc
and pb_field =
    Optional_field u32 pb_type
  | Repeated_message u32 pb_desc
and pb_desc = Desc "pb_field list" "(int \<times> int) list"

fun desc_fields :: "pb_desc \<Rightarrow> pb_field list" where
  "desc_fields (Desc fs rs) = fs"

fun field_ranges :: "pb_desc \<Rightarrow> (int \<times> int) list" where
  "field_ranges (Desc fs rs) = rs"

fun field_id :: "pb_field \<Rightarrow> u32" where
  "field_id (Optional_field i t) = i"
| "field_id (Repeated_message i d) = i"

fun field_type :: "pb_field \<Rightarrow> pb_type" where
  "field_type (Optional_field i t) = t"
| "field_type (Repeated_message i d) = TYPE_MESSAGE d"

record pb_unknown =
  unk_tag :: u32
  unk_wire_type :: byte
  unk_data :: bytes

datatype pb_value =
    V_UINT32 u32
  | V_INT32 u32
  | V_BOOL bool
  | V_FIXED64 u64
  | V_BYTES bytes
  | V_MESSAGE pb_message
and pb_slot = Opt "pb_value option" | Rep "pb_value list"
and pb_message = Message pb_desc "pb_slot list" "pb_unknown list"

fun msg_desc :: "pb_message \<Rightarrow> pb_desc" where
  "msg_desc (Message d ss us) = d"

fun msg_slots :: "pb_message \<Rightarrow> pb_slot list" where
  "msg_slots (Message d ss us) = ss"

section \<open>Packing\<close>

definition WIRE_TYPE_VARINT :: byte where "WIRE_TYPE_VARINT = 0"
definition WIRE_TYPE_64BIT :: byte where "WIRE_TYPE_64BIT = 1"
definition WIRE_TYPE_LENGTH_PREFIXED :: byte where "WIRE_TYPE_LENGTH_PREFIXED = 2"
definition WIRE_TYPE_32BIT :: byte where "WIRE_TYPE_32BIT = 5"

lemmas wire_type_defs =
  WIRE_TYPE_VARINT_def WIRE_TYPE_64BIT_def WIRE_TYPE_LENGTH_PREFIXED_def WIRE_TYPE_32BIT_def

fun type_wire_type :: "pb_type \<Rightarrow> byte" where
  "type_wire_type TYPE_UINT32 = WIRE_TYPE_VARINT"
| "type_wire_type TYPE_INT32 = WIRE_TYPE_VARINT"
| "type_wire_type TYPE_BOOL = WIRE_TYPE_VARINT"
| "type_wire_type TYPE_FIXED64 = WIRE_TYPE_64BIT"
| "type_wire_type TYPE_BYTES = WIRE_TYPE_LENGTH_PREFIXED"
| "type_wire_type (TYPE_MESSAGE d) = WIRE_TYPE_LENGTH_PREFIXED"

text \<open>
  The value of a field decides which branch of the \<open>switch\<close> in
  \<open>required_field_pack\<close> is taken; a well-formed message (below) has values of its
  fields' types.
\<close>

fun protobuf_c_message_pack :: "pb_message \<Rightarrow> bytes"
  and value_pack :: "pb_value \<Rightarrow> bytes"
  and field_pack :: "pb_field \<Rightarrow> pb_slot \<Rightarrow> bytes"
  and fields_pack :: "pb_field list \<Rightarrow> pb_slot list \<Rightarrow> bytes"
  and repeated_pack :: "pb_field \<Rightarrow> pb_value list \<Rightarrow> bytes"
where
  "protobuf_c_message_pack (Message d ss us) =
     fields_pack (desc_fields d) ss @
     concat (map (\<lambda>u. tag_wire_pack (unk_tag u) (unk_wire_type u) @ unk_data u) us)"
| "value_pack (V_UINT32 w) = uint32_pack w"
| "value_pack (V_INT32 w) = int32_pack w"
| "value_pack (V_BOOL b) = boolean_pack b"
| "value_pack (V_FIXED64 w) = fixed64_pack w"
| "value_pack (V_BYTES bs) = binary_data_pack bs"
| "value_pack (V_MESSAGE m) = binary_data_pack (protobuf_c_message_pack m)"
| "field_pack f (Opt None) = []"
| "field_pack f (Opt (Some v)) =
     tag_wire_pack (field_id f) (type_wire_type (field_type f)) @ value_pack v"
| "field_pack f (Rep vs) = repeated_pack f vs"
| "repeated_pack f [] = []"
| "repeated_pack f (v # vs) =
     tag_wire_pack (field_id f) (type_wire_type (field_type f)) @ value_pack v @ repeated_pack f vs"
| "fields_pack (f # fs) (s # ss) = field_pack f s @ fields_pack fs ss"
| "fields_pack _ _ = []"

fun protobuf_c_message_get_packed_size :: "pb_message \<Rightarrow> nat"
  and value_size :: "pb_value \<Rightarrow> nat"
  and field_get_packed_size :: "pb_field \<Rightarrow> pb_slot \<Rightarrow> nat"
  and fields_get_packed_size :: "pb_field list \<Rightarrow> pb_slot list \<Rightarrow> nat"
  and repeated_size :: "pb_value list \<Rightarrow> nat"
where
  "protobuf_c_message_get_packed_size (Message d ss us) =
     fields_get_packed_size (desc_fields d) ss +
     sum_list (map (\<lambda>u. get_tag_size (unk_tag u) + length (unk_data u)) us)"
| "value_size (V_UINT32 w) = uint32_size w"
| "value_size (V_INT32 w) = int32_size w"
| "value_size (V_BOOL b) = 1"
| "value_size (V_FIXED64 w) = 8"
| "value_size (V_BYTES bs) = prefixed_size (length bs)"
| "value_size (V_MESSAGE m) = prefixed_size (protobuf_c_message_get_packed_size m)"
| "field_get_packed_size f (Opt None) = 0"
| "field_get_packed_size f (Opt (Some v)) = get_tag_size (field_id f) + value_size v"
| "field_get_packed_size f (Rep vs) = get_tag_size (field_id f) * length vs + repeated_size vs"
| "repeated_size [] = 0"
| "repeated_size (v # vs) = value_size v + repeated_size vs"
| "fields_get_packed_size (f # fs) (s # ss) =
     field_get_packed_size f s + fields_get_packed_size fs ss"
| "fields_get_packed_size _ _ = 0"

section \<open>Scanning\<close>

text \<open>
  Binary search for a field number in the sorted ranges of a descriptor; the last
  range is a sentinel that holds the number of fields. The result is the index of
  the field, or \<open>-1\<close>.
\<close>

function int_range_search :: "(int \<times> int) list \<Rightarrow> int \<Rightarrow> nat \<Rightarrow> nat \<Rightarrow> int" where
  "int_range_search ranges value start n =
     (if n > 1 then
        let mid = start + n div 2 in
        if value < fst (ranges ! mid) then int_range_search ranges value start (mid - start)
        else if value \<ge> fst (ranges ! mid) + (snd (ranges ! (mid + 1)) - snd (ranges ! mid))
        then int_range_search ranges value (mid + 1) (start + n - (mid + 1))
        else (value - fst (ranges ! mid)) + snd (ranges ! mid)
      else if n > 0 then
        let start_orig_index = snd (ranges ! start);
            range_size = snd (ranges ! (start + 1)) - start_orig_index
        in if fst (ranges ! start) \<le> value \<and> value < fst (ranges ! start) + range_size
           then (value - fst (ranges ! start)) + start_orig_index
           else -1
      else -1)"
  by pat_completeness auto
termination
  by (relation "measure (\<lambda>(ranges, value, start, n). n)") auto

declare int_range_search.simps [simp del]

definition int_range_lookup :: "(int \<times> int) list \<Rightarrow> int \<Rightarrow> int" where
  "int_range_lookup ranges value = int_range_search ranges value 0 (length ranges - 1)"

text \<open>
  A scanned member: \<open>sm_data\<close> is the input from the member's data to the end of the
  buffer, \<open>sm_len\<close> the length the scan gave it, \<open>sm_field\<close> the index of its field.
\<close>

record scanned_member =
  sm_tag :: u32
  sm_wire_type :: byte
  sm_prefix_len :: nat
  sm_field :: "nat option"
  sm_len :: nat
  sm_data :: bytes

definition scan_member_length :: "byte \<Rightarrow> bytes \<Rightarrow> (nat \<times> nat) option" where
  "scan_member_length wire_type data =
     (if wire_type = WIRE_TYPE_VARINT then
        map_option (\<lambda>n. (n, 0)) (scan_varint_field (min 10 (length data)) data)
      else if wire_type = WIRE_TYPE_64BIT then
        (if length data < 8 then None else Some (8, 0))
      else if wire_type = WIRE_TYPE_LENGTH_PREFIXED then scan_length_prefixed_data data
      else if wire_type = WIRE_TYPE_32BIT then
        (if length data < 4 then None else Some (4, 0))
      else None)"

text \<open>The field of a tag: the field of the previous member, or the one found by search.\<close>

definition lookup_field :: "pb_desc \<Rightarrow> nat \<Rightarrow> u32 \<Rightarrow> nat option" where
  "lookup_field d last_field tag =
     (if last_field < length (desc_fields d) \<and> field_id (desc_fields d ! last_field) = tag then Some last_field
      else let i = int_range_lookup (field_ranges d) (sint tag)
           in if i < 0 then None else Some (nat i))"

text \<open>
  The members fill slabs of \<open>16 * 2 ^ k\<close> entries for \<open>k = 0, \<dots>, 22\<close>; a member that
  does not fit is an error.
\<close>

definition max_scanned_members :: int where
  "max_scanned_members = 16 * (2 ^ 23 - 1)"

function scan_members :: "pb_desc \<Rightarrow> nat \<Rightarrow> nat \<Rightarrow> bytes \<Rightarrow> scanned_member list option" where
  "scan_members d last_field count at =
     (if at = [] then Some []
      else case parse_tag_and_wiretype at of
        None \<Rightarrow> None
      | Some (used, tag, wire_type) \<Rightarrow>
          let field = lookup_field d last_field tag; data = drop used at in
          case scan_member_length wire_type data of
            None \<Rightarrow> None
          | Some (len, pref_len) \<Rightarrow>
              if int count = max_scanned_members then None
              else map_option
                (Cons \<lparr>sm_tag = tag, sm_wire_type = wire_type, sm_prefix_len = pref_len,
                   sm_field = field, sm_len = len, sm_data = data\<rparr>)
                (scan_members d (case field of None \<Rightarrow> last_field | Some i \<Rightarrow> i) (count + 1)
                   (drop len data)))"
  by pat_completeness auto
termination
  by (relation "measure (\<lambda>(d, last_field, count, at). length at)")
    (auto dest!: parse_tag_and_wiretype_used)

declare scan_members.simps [simp del]

section \<open>Parsing\<close>

datatype pb_error = PB_NULL | PB_OVERREAD

text \<open>The payload of a length-prefixed member.\<close>

definition sm_payload :: "scanned_member \<Rightarrow> pb_error + bytes" where
  "sm_payload sm =
     (if sm_len sm < sm_prefix_len sm then Inl PB_OVERREAD
      else Inr (take (sm_len sm - sm_prefix_len sm) (drop (sm_prefix_len sm) (sm_data sm))))"

text \<open>
  \<open>parse_required_member\<close>; \<open>sub\<close> unpacks the bytes of an embedded message of the
  field. The wire type of a \<open>bool\<close> is not checked.
\<close>

fun parse_required_member ::
  "(bytes \<Rightarrow> pb_error + pb_message) \<Rightarrow> pb_type \<Rightarrow> scanned_member \<Rightarrow> pb_error + pb_value" where
  "parse_required_member sub TYPE_UINT32 sm =
     (if sm_wire_type sm \<noteq> WIRE_TYPE_VARINT then Inl PB_NULL
      else Inr (V_UINT32 (parse_uint32 (sm_len sm) (sm_data sm))))"
| "parse_required_member sub TYPE_INT32 sm =
     (if sm_wire_type sm \<noteq> WIRE_TYPE_VARINT then Inl PB_NULL
      else Inr (V_INT32 (parse_uint32 (sm_len sm) (sm_data sm))))"
| "parse_required_member sub TYPE_BOOL sm =
     Inr (V_BOOL (parse_boolean (sm_len sm) (sm_data sm)))"
| "parse_required_member sub TYPE_FIXED64 sm =
     (if sm_wire_type sm \<noteq> WIRE_TYPE_64BIT then Inl PB_NULL
      else Inr (V_FIXED64 (parse_fixed_uint64 (sm_data sm))))"
| "parse_required_member sub TYPE_BYTES sm =
     (if sm_wire_type sm \<noteq> WIRE_TYPE_LENGTH_PREFIXED then Inl PB_NULL
      else map_sum id V_BYTES (sm_payload sm))"
| "parse_required_member sub (TYPE_MESSAGE d) sm =
     (if sm_wire_type sm \<noteq> WIRE_TYPE_LENGTH_PREFIXED then Inl PB_NULL
      else case sm_payload sm of
             Inl e \<Rightarrow> Inl e
           | Inr bs \<Rightarrow> map_sum id V_MESSAGE (sub bs))"

text \<open>
  \<open>merge_messages\<close>: the slots of an earlier occurrence of an embedded message are
  carried into a later one. Bytes of length 0 have a null data pointer.
\<close>

fun merge_messages :: "pb_message \<Rightarrow> pb_message \<Rightarrow> pb_message"
  and merge_value :: "pb_value \<Rightarrow> pb_value option \<Rightarrow> pb_value option"
  and merge_slots :: "pb_slot list \<Rightarrow> pb_slot list \<Rightarrow> pb_slot list"
where
  "merge_messages (Message d1 es us1) (Message d2 ls us2) = Message d2 (merge_slots es ls) us2"
| "merge_value (V_MESSAGE em) None = Some (V_MESSAGE em)"
| "merge_value (V_MESSAGE em) (Some (V_MESSAGE lm)) = Some (V_MESSAGE (merge_messages em lm))"
| "merge_value (V_BYTES e) l =
     (if e \<noteq> [] \<and> (l = None \<or> l = Some (V_BYTES [])) then Some (V_BYTES e) else l)"
| "merge_value e None = Some e"
| "merge_value e (Some l) = Some l"
| "merge_slots (Rep es # ess) (Rep ls # lss) = Rep (es @ ls) # merge_slots ess lss"
| "merge_slots (Opt (Some e) # ess) (Opt l # lss) = Opt (merge_value e l) # merge_slots ess lss"
| "merge_slots (e # ess) (l # lss) = l # merge_slots ess lss"
| "merge_slots _ lss = lss"

text \<open>
  A parsed value goes into its slot: it is appended to a repeated field
  (\<open>parse_repeated_member\<close>), merged with an earlier embedded message, and otherwise
  replaces what was there (\<open>parse_optional_member\<close>).
\<close>

fun put_slot :: "pb_slot \<Rightarrow> pb_value \<Rightarrow> pb_slot" where
  "put_slot (Rep vs) v = Rep (vs @ [v])"
| "put_slot (Opt (Some (V_MESSAGE em))) (V_MESSAGE lm) = Opt (Some (V_MESSAGE (merge_messages em lm)))"
| "put_slot (Opt old) v = Opt (Some v)"

fun parse_member ::
  "pb_desc \<Rightarrow> (nat \<Rightarrow> bytes \<Rightarrow> pb_error + pb_message) \<Rightarrow> scanned_member \<Rightarrow> pb_message \<Rightarrow>
     pb_error + pb_message" where
  "parse_member d subs sm (Message d' ss us) =
     (case sm_field sm of
        None \<Rightarrow>
          Inr (Message d' ss (us @ [\<lparr>unk_tag = sm_tag sm, unk_wire_type = sm_wire_type sm,
                                     unk_data = take (sm_len sm) (sm_data sm)\<rparr>]))
      | Some i \<Rightarrow>
          (case parse_required_member (subs i) (field_type (desc_fields d ! i)) sm of
             Inl e \<Rightarrow> Inl e
           | Inr v \<Rightarrow> Inr (Message d' (ss[i := put_slot (ss ! i) v]) us)))"

fun parse_members ::
  "pb_desc \<Rightarrow> (nat \<Rightarrow> bytes \<Rightarrow> pb_error + pb_message) \<Rightarrow> scanned_member list \<Rightarrow> pb_message \<Rightarrow>
     pb_error + pb_message" where
  "parse_members d subs [] m = Inr m"
| "parse_members d subs (sm # sms) m =
     (case parse_member d subs sm m of
        Inl e \<Rightarrow> Inl e
      | Inr m' \<Rightarrow> parse_members d subs sms m')"

fun init_slot :: "pb_field \<Rightarrow> pb_slot" where
  "init_slot (Optional_field i t) = Opt None"
| "init_slot (Repeated_message i d) = Rep []"

definition protobuf_c_message_init :: "pb_desc \<Rightarrow> pb_message" where
  "protobuf_c_message_init d = Message d (map init_slot (desc_fields d)) []"

lemma nth_field_size [termination_simp]:
  "i < length fs \<Longrightarrow> fs ! i = f \<Longrightarrow> size f \<le> size_list size fs"
  by (metis nth_mem size_list_estimation' order_refl)

lemma sub_desc_size:
  assumes "i < length (desc_fields d)" "field_type (desc_fields d ! i) = TYPE_MESSAGE d'"
  shows "size d' < size d"
proof -
  obtain fs rs where d: "d = Desc fs rs" by (cases d)
  have "size (fs ! i) \<le> size_list size fs"
    using assms(1) d by (auto intro: nth_field_size)
  moreover have "size d' < size (fs ! i)"
    using assms d by (cases "fs ! i") auto
  ultimately show ?thesis
    using d by simp
qed

text \<open>
  Unpacking; the recursion is on the descriptor, since an embedded message is unpacked
  with the descriptor of its field.
\<close>

function protobuf_c_message_unpack :: "pb_desc \<Rightarrow> bytes \<Rightarrow> pb_error + pb_message" where
  "protobuf_c_message_unpack d data =
     (case scan_members d 0 0 data of
        None \<Rightarrow> Inl PB_NULL
      | Some sms \<Rightarrow>
          parse_members d
            (\<lambda>i bs. if i < length (desc_fields d)
               then (case field_type (desc_fields d ! i) of
                       TYPE_MESSAGE d' \<Rightarrow> protobuf_c_message_unpack d' bs
                     | _ \<Rightarrow> Inl PB_NULL)
               else Inl PB_NULL)
            sms (protobuf_c_message_init d))"
  by pat_completeness auto
termination
  by (relation "measure (\<lambda>(d, data). size d)") (auto intro: sub_desc_size)

declare protobuf_c_message_unpack.simps [simp del]

section \<open>Well-formed descriptors and messages\<close>

text \<open>
  A descriptor is well formed when its field numbers are distinct and the range
  table finds the index of each; the generated descriptors satisfy this.
\<close>

fun desc_ok :: "pb_desc \<Rightarrow> bool"
  and field_ok :: "pb_field \<Rightarrow> bool"
  and type_ok :: "pb_type \<Rightarrow> bool"
where
  "desc_ok (Desc fs rs) =
     (list_all field_ok fs \<and> distinct (map field_id fs) \<and>
      list_all (\<lambda>i. int_range_lookup rs (sint (field_id (fs ! i))) = int i) [0..<length fs])"
| "field_ok (Optional_field i t) = type_ok t"
| "field_ok (Repeated_message i d) = desc_ok d"
| "type_ok (TYPE_MESSAGE d) = desc_ok d"
| "type_ok _ = True"

fun message_ok :: "pb_message \<Rightarrow> bool"
  and value_ok :: "pb_type \<Rightarrow> pb_value \<Rightarrow> bool"
  and slot_ok :: "pb_field \<Rightarrow> pb_slot \<Rightarrow> bool"
  and slots_ok :: "pb_field list \<Rightarrow> pb_slot list \<Rightarrow> bool"
  and values_ok :: "pb_type \<Rightarrow> pb_value list \<Rightarrow> bool"
where
  "message_ok (Message d ss us) = (slots_ok (desc_fields d) ss \<and> us = [])"
| "value_ok TYPE_UINT32 (V_UINT32 w) = True"
| "value_ok TYPE_INT32 (V_INT32 w) = True"
| "value_ok TYPE_BOOL (V_BOOL b) = True"
| "value_ok TYPE_FIXED64 (V_FIXED64 w) = True"
| "value_ok TYPE_BYTES (V_BYTES bs) = True"
| "value_ok (TYPE_MESSAGE d) (V_MESSAGE m) = (msg_desc m = d \<and> message_ok m)"
| "value_ok _ _ = False"
| "slot_ok (Optional_field i t) (Opt None) = True"
| "slot_ok (Optional_field i t) (Opt (Some v)) = value_ok t v"
| "slot_ok (Repeated_message i d) (Rep vs) = values_ok (TYPE_MESSAGE d) vs"
| "slot_ok _ _ = False"
| "values_ok t [] = True"
| "values_ok t (v # vs) = (value_ok t v \<and> values_ok t vs)"
| "slots_ok [] [] = True"
| "slots_ok (f # fs) (s # ss) = (slot_ok f s \<and> slots_ok fs ss)"
| "slots_ok _ _ = False"

section \<open>The packed size is the length of the packed bytes\<close>

lemma pack_length:
  "length (protobuf_c_message_pack m) = protobuf_c_message_get_packed_size m"
  "length (value_pack v) = value_size v"
  "length (field_pack f s) = field_get_packed_size f s"
  "length (fields_pack fs ss) = fields_get_packed_size fs ss"
  "length (repeated_pack f vs) = get_tag_size (field_id f) * length vs + repeated_size vs"
  by (induction m and v and f s and fs ss and f vs rule:
      protobuf_c_message_pack_value_pack_field_pack_fields_pack_repeated_pack.induct)
    (auto simp: pack_lengths length_concat comp_def)

section \<open>A packed message as a sequence of members\<close>

text \<open>
  The members of a message in packing order (field index and value), and the scanned
  members that the scan of the packed bytes yields for them.
\<close>

fun slot_values :: "pb_slot \<Rightarrow> pb_value list" where
  "slot_values (Opt None) = []"
| "slot_values (Opt (Some v)) = [v]"
| "slot_values (Rep vs) = vs"

fun message_members :: "nat \<Rightarrow> pb_slot list \<Rightarrow> (nat \<times> pb_value) list" where
  "message_members k [] = []"
| "message_members k (s # ss) = map (Pair k) (slot_values s) @ message_members (Suc k) ss"

definition member_pack :: "pb_field list \<Rightarrow> nat \<times> pb_value \<Rightarrow> bytes" where
  "member_pack fs = (\<lambda>(i, v). tag_wire_pack (field_id (fs ! i)) (type_wire_type (field_type (fs ! i))) @ value_pack v)"

definition members_pack :: "pb_field list \<Rightarrow> (nat \<times> pb_value) list \<Rightarrow> bytes" where
  "members_pack fs ms = concat (map (member_pack fs) ms)"

lemma repeated_pack_members:
  "repeated_pack (fs ! k) vs = members_pack fs (map (Pair k) vs)"
  by (induction vs) (auto simp: members_pack_def member_pack_def)

lemma members_pack_simps:
  "members_pack fs [] = []"
  "members_pack fs (x # ms) = member_pack fs x @ members_pack fs ms"
  "members_pack fs (ms @ ns) = members_pack fs ms @ members_pack fs ns"
  by (auto simp: members_pack_def)

lemma fields_pack_members:
  "slots_ok (drop k fs) ss \<Longrightarrow> fields_pack (drop k fs) ss = members_pack fs (message_members k ss)"
proof (induction ss arbitrary: k)
  case Nil
  then show ?case by (cases "drop k fs") (auto simp: members_pack_simps)
next
  case (Cons s ss)
  then have k: "k < length fs" "drop k fs = fs ! k # drop (Suc k) fs"
    by (cases "k < length fs"; simp add: Cons_nth_drop_Suc)+
  have "field_pack (fs ! k) s = members_pack fs (map (Pair k) (slot_values s))"
    by (cases s rule: slot_values.cases)
      (auto simp: repeated_pack_members members_pack_simps member_pack_def)
  then show ?case
    using Cons k by (simp add: members_pack_simps)
qed

fun value_prefix :: "pb_value \<Rightarrow> nat" where
  "value_prefix (V_BYTES bs) = uint32_size (word_of_nat (length bs))"
| "value_prefix (V_MESSAGE m) = uint32_size (word_of_nat (length (protobuf_c_message_pack m)))"
| "value_prefix _ = 0"

lemma type_wire_type_less: "type_wire_type t < 8"
  by (cases t) (auto simp: wire_type_defs)

lemma scan_varint_field_pack:
  "scan_varint_field (min 10 (uint32_size w + length rest)) (uint32_pack w @ rest) = Some (uint32_size w)"
  "scan_varint_field (min 10 (int32_size w + length rest)) (int32_pack w @ rest) = Some (int32_size w)"
  by (subst scan_varint_field_varint;
      simp add: is_varint_uint32_pack is_varint_int32_pack pack_lengths;
      simp add: uint32_size_def int32_size_def)+

lemma scan_varint_field_boolean: "scan_varint_field (Suc k) (boolean_pack b @ rest) = Some (Suc 0)"
  by (simp add: boolean_pack_def)

lemma scan_member_length_pack:
  assumes "value_ok t v" "value_size v + 5 < 2 ^ 32"
  shows "scan_member_length (type_wire_type t) (value_pack v @ rest) = Some (value_size v, value_prefix v)"
  using assms
  by (cases "(t, v)" rule: value_ok.cases)
    (simp_all add: scan_member_length_def wire_type_defs pack_lengths pack_length scan_varint_field_pack scan_varint_field_boolean
      scan_length_prefixed_data_pack prefixed_size_def)

lemma lookup_field_ok:
  assumes "desc_ok d" "i < length (desc_fields d)"
  shows "lookup_field d last_field (field_id (desc_fields d ! i)) = Some i"
  using assms
  by (cases d) (auto simp: lookup_field_def list_all_iff Let_def distinct_map inj_on_eq_iff nth_eq_iff_index_eq)

definition packed_member :: "pb_field list \<Rightarrow> nat \<times> pb_value \<Rightarrow> bytes \<Rightarrow> scanned_member" where
  "packed_member fs = (\<lambda>(i, v) rest.
     \<lparr>sm_tag = field_id (fs ! i), sm_wire_type = type_wire_type (field_type (fs ! i)),
      sm_prefix_len = value_prefix v, sm_field = Some i, sm_len = value_size v,
      sm_data = value_pack v @ rest\<rparr>)"

fun packed_members :: "pb_field list \<Rightarrow> (nat \<times> pb_value) list \<Rightarrow> scanned_member list" where
  "packed_members fs [] = []"
| "packed_members fs (x # ms) = packed_member fs x (members_pack fs ms) # packed_members fs ms"

definition member_ok :: "pb_field list \<Rightarrow> nat \<times> pb_value \<Rightarrow> bool" where
  "member_ok fs = (\<lambda>(i, v). i < length fs \<and> value_ok (field_type (fs ! i)) v \<and> value_size v + 5 < 2 ^ 32)"

lemma tag_wire_pack_nonempty: "tag_wire_pack i wt \<noteq> []"
  using length_tag_wire_pack [of i wt] get_tag_size_pos [of i] by auto

lemma scan_members_pack:
  assumes "desc_ok d" "list_all (member_ok (desc_fields d)) ms" "int (count + length ms) \<le> max_scanned_members"
  shows "scan_members d last_field count (members_pack (desc_fields d) ms) = Some (packed_members (desc_fields d) ms)"
  using assms
proof (induction ms arbitrary: last_field count)
  case Nil
  then show ?case by (simp add: members_pack_simps scan_members.simps)
next
  case (Cons x ms)
  obtain i v where x: "x = (i, v)" by fastforce
  let ?fs = "desc_fields d" and ?rest = "members_pack (desc_fields d) ms"
  have ok: "i < length ?fs" "value_ok (field_type (?fs ! i)) v" "value_size v + 5 < 2 ^ 32"
    using Cons x by (auto simp: member_ok_def)
  show ?case
    using Cons ok
    by (simp add: x members_pack_simps member_pack_def scan_members.simps [of d last_field]
        tag_wire_pack_nonempty parse_tag_wire_pack type_wire_type_less length_tag_wire_pack Let_def
        scan_member_length_pack lookup_field_ok pack_length packed_member_def)
qed

lemma sm_payload_binary:
  assumes "sm_data sm = binary_data_pack bs @ rest" "sm_len sm = prefixed_size (length bs)"
    "sm_prefix_len sm = uint32_size (word_of_nat (length bs))"
  shows "sm_payload sm = Inr bs"
  using assms by (simp add: sm_payload_def prefixed_size_def binary_data_pack_def length_uint32_pack)

lemma parse_required_packed_member:
  assumes "value_ok (field_type (fs ! i)) v" "\<And>m. v = V_MESSAGE m \<Longrightarrow> sub (protobuf_c_message_pack m) = Inr m"
  shows "parse_required_member sub (field_type (fs ! i)) (packed_member fs (i, v) rest) = Inr v"
  using assms
  by (cases "(field_type (fs ! i), v)" rule: value_ok.cases)
    (simp_all add: packed_member_def wire_type_defs parse_uint32_pack parse_int32_pack 
      parse_fixed_uint64_pack parse_boolean_pack [simplified] sm_payload_binary pack_length)


lemma message_members_bound:
  "(i, v) \<in> set (message_members k ss) \<Longrightarrow> k \<le> i"
  by (induction ss arbitrary: k) (auto dest: Suc_leD)

lemma values_ok_iff: "values_ok t vs \<longleftrightarrow> list_all (value_ok t) vs"
  by (induction vs) auto

lemma slot_values_ok: "slot_ok f s \<Longrightarrow> v \<in> set (slot_values s) \<Longrightarrow> value_ok (field_type f) v"
  by (cases "(f, s)" rule: slot_ok.cases) (auto simp: values_ok_iff list_all_iff)

lemma message_members_ok:
  assumes "slots_ok (drop k fs) ss" "(i, v) \<in> set (message_members k ss)"
  shows "i < length fs \<and> value_ok (field_type (fs ! i)) v"
  using assms
proof (induction ss arbitrary: k)
  case (Cons s ss)
  then have "k < length fs" "drop k fs = fs ! k # drop (Suc k) fs"
    by (cases "k < length fs"; simp add: Cons_nth_drop_Suc)+
  then show ?case
    using Cons by (auto dest: slot_values_ok)
qed simp

lemma value_size_pos: "0 < value_size v"
  by (cases v) (auto simp: uint32_size_def int32_size_def prefixed_size_def)

lemma member_size:
  "(i, v) \<in> set ms \<Longrightarrow> value_size v < length (members_pack fs ms)"
  "2 * length ms \<le> length (members_pack fs ms)"
proof -
  have pos: "value_size v + 1 \<le> length (member_pack fs (i, v))" for i v
    using get_tag_size_pos [of "field_id (fs ! i)"]
    by (simp add: member_pack_def length_tag_wire_pack pack_length)
  show "(i, v) \<in> set ms \<Longrightarrow> value_size v < length (members_pack fs ms)"
  proof (induction ms)
    case (Cons x ms)
    then show ?case
      using pos [of v i] by (auto simp: members_pack_simps)
  qed simp
  have two: "2 \<le> length (member_pack fs x)" for x
    using pos [of "snd x" "fst x"] value_size_pos [of "snd x"] by simp
  show "2 * length ms \<le> length (members_pack fs ms)"
  proof (induction ms)
    case (Cons x ms)
    then show ?case
      using two [of x] by (simp add: members_pack_simps)
  qed simp
qed

lemma slot_values_size: "v \<in> set (slot_values s) \<Longrightarrow> size v < size s"
  by (cases s rule: slot_values.cases) (auto dest: size_list_estimation' [where f = size])

lemma member_message_size:
  "(i, V_MESSAGE m) \<in> set (message_members k ss) \<Longrightarrow> size m < Suc (size_list size ss)"
  by (induction ss arbitrary: k) (fastforce dest: slot_values_size)+

lemma put_slot_values:
  assumes "values_ok (TYPE_MESSAGE d) vs"
  shows "foldl put_slot (Rep ws) vs = Rep (ws @ vs)"
  by (induction vs arbitrary: ws) auto

lemma put_slot_init: "slot_ok f s \<Longrightarrow> foldl put_slot (init_slot f) (slot_values s) = s"
  by (cases "(f, s)" rule: slot_ok.cases) (auto simp: put_slot_values)

lemma parse_members_slot:
  assumes "d = Desc fs rs" "i = length pre"
    "\<And>v rest. v \<in> set vs \<Longrightarrow>
      parse_required_member (subs i) (field_type (fs ! i)) (packed_member fs (i, v) rest) = Inr v"
  shows "parse_members d subs (packed_members fs (map (Pair i) vs @ ms)) (Message d (pre @ s # post) us) =
    parse_members d subs (packed_members fs ms) (Message d (pre @ foldl put_slot s vs # post) us)"
  using assms by (induction vs arbitrary: s) (auto simp: packed_member_def)

lemma parse_members_pack:
  assumes "slots_ok (drop k fs) ss" "length pre = k" "d = Desc fs rs"
    "\<And>i v rest. (i, v) \<in> set (message_members k ss) \<Longrightarrow>
      parse_required_member (subs i) (field_type (fs ! i)) (packed_member fs (i, v) rest) = Inr v"
  shows "parse_members d subs (packed_members fs (message_members k ss))
    (Message d (pre @ map init_slot (drop k fs)) us) = Inr (Message d (pre @ ss) us)"
  using assms
proof (induction ss arbitrary: k pre)
  case Nil
  then show ?case by (cases "drop k fs") auto
next
  case (Cons s ss)
  then have k: "k < length fs" "drop k fs = fs ! k # drop (Suc k) fs"
    by (cases "k < length fs"; simp add: Cons_nth_drop_Suc)+
  have "parse_members d subs (packed_members fs (message_members k (s # ss)))
    (Message d (pre @ map init_slot (drop k fs)) us) = 
    parse_members d subs (packed_members fs (message_members (Suc k) ss))
    (Message d (pre @ s # map init_slot (drop (Suc k) fs)) us)"
    using parse_members_slot [OF Cons.prems(3) Cons.prems(2) [symmetric], of "slot_values s" subs]
      Cons.prems k by (simp add: put_slot_init)
  also have "\<dots> = Inr (Message d ((pre @ [s]) @ ss) us)"
    using Cons.IH [of "Suc k" "pre @ [s]"] Cons.prems k by simp
  finally show ?case by simp
qed

section \<open>Unpacking a packed message\<close>

lemma unpack_pack:
  assumes "message_ok m" "desc_ok (msg_desc m)" "protobuf_c_message_get_packed_size m < 2 ^ 27"
  shows "protobuf_c_message_unpack (msg_desc m) (protobuf_c_message_pack m) = Inr m"
  using assms
proof (induction m rule: measure_induct_rule [of size])
  case (less m)
  obtain d ss where m: "m = Message d ss []"
    using less.prems(1) by (cases m) auto
  obtain fs rs where d: "d = Desc fs rs"
    by (cases d)
  let ?ms = "message_members 0 ss"
  have slots: "slots_ok (drop 0 fs) ss"
    using less.prems(1) m d by simp
  have pack: "protobuf_c_message_pack m = members_pack fs ?ms"
    using fields_pack_members [OF slots] m d by simp
  have size: "length (members_pack fs ?ms) < 2 ^ 27"
    using less.prems(3) pack pack_length(1) by metis
  have "list_all (member_ok fs) ?ms"
    using message_members_ok [OF slots] member_size(1) [of _ _ ?ms fs] size
    by (fastforce simp: member_ok_def list_all_iff)
  moreover have "int (length ?ms) \<le> max_scanned_members"
    using member_size(2) [of ?ms fs] size by (simp add: max_scanned_members_def)
  ultimately have scan: "scan_members d 0 0 (members_pack fs ?ms) = Some (packed_members fs ?ms)"
    using scan_members_pack [of d ?ms 0 0] less.prems(2) m d by simp
  have IH: "protobuf_c_message_unpack (msg_desc m') (protobuf_c_message_pack m') = Inr m'"
    if "(i, V_MESSAGE m') \<in> set ?ms" for i m'
  proof (rule less.IH)
    show "size m' < size m"
      using that m by (simp add: member_message_size)
    have ok: "i < length fs" "value_ok (field_type (fs ! i)) (V_MESSAGE m')"
      using message_members_ok [OF slots that] by auto
    then show "message_ok m'"
      by (cases "fs ! i"; cases "field_type (fs ! i)") auto
    show "desc_ok (msg_desc m')"
      using less.prems(2) ok m d by (cases "fs ! i"; cases "field_type (fs ! i)") (auto simp: list_all_length)
    have "value_size (V_MESSAGE m') < 2 ^ 27"
      using member_size(1) [OF that] size less_trans by blast
    then show "protobuf_c_message_get_packed_size m' < 2 ^ 27"
      by (simp add: prefixed_size_def)
  qed
  have "parse_required_member sub (field_type (fs ! i)) (packed_member fs (i, v) rest) = Inr v"
    if "(i, v) \<in> set ?ms" 
      "\<And>d'. i < length fs \<Longrightarrow> field_type (fs ! i) = TYPE_MESSAGE d' \<Longrightarrow> sub = protobuf_c_message_unpack d'"
      for i v sub rest
  proof (rule parse_required_packed_member)
    show ok: "value_ok (field_type (fs ! i)) v"
      using message_members_ok [OF slots that(1)] by simp
    fix m' assume "v = V_MESSAGE m'"
    then show "sub (protobuf_c_message_pack m') = Inr m'"
      using ok message_members_ok [OF slots that(1)] IH [of i m'] that
      by (cases "field_type (fs ! i)") auto
  qed
  then have "parse_members d
      (\<lambda>i bs. if i < length fs then (case field_type (fs ! i) of
                   TYPE_MESSAGE d' \<Rightarrow> protobuf_c_message_unpack d' bs | _ \<Rightarrow> Inl PB_NULL)
               else Inl PB_NULL)
      (packed_members fs ?ms) (Message d ([] @ map init_slot (drop 0 fs)) []) = Inr (Message d ([] @ ss) [])"
    by (intro parse_members_pack [OF slots _ d]) simp_all
  moreover have fields: "desc_fields d = fs" and desc: "msg_desc m = d"
    using d m by simp_all
  ultimately show ?case
    unfolding pack desc protobuf_c_message_unpack.simps [of d] fields
    by (simp add: m scan protobuf_c_message_init_def fields)
qed

section \<open>Every read stays in the buffer\<close>

lemma scan_members_wire_type_7:
  "b AND 7 = 7 \<Longrightarrow> scan_members d l c (b # rest) = None"
  by (subst scan_members.simps)
    (auto simp: parse_tag_and_wiretype_def scan_member_length_def wire_type_defs Let_def split: option.splits prod.splits if_splits)


lemma scan_varint_field_le: "scan_varint_field k data = Some n \<Longrightarrow> n \<le> length data"
  by (induction k data arbitrary: n rule: scan_varint_field.induct) (auto split: if_splits)

lemma scan_member_length_le:
  "scan_member_length t data = Some (len, pref) \<Longrightarrow> len \<le> length data"
  by (auto simp: scan_member_length_def scan_length_prefixed_data_def Let_def dest: scan_varint_field_le
      split: if_splits option.splits prod.splits)

lemma scan_member_length_wrapped:
  assumes "scan_member_length t data = Some (len, pref)" "len < pref"
  shows "scan_members d l c (drop len data) = None"
proof -
  have "scan_length_prefixed_data data = Some (len, pref)"
    using assms by (auto simp: scan_member_length_def split: if_splits)
  then show ?thesis
    using assms(2) by (elim scan_length_wrapped) (auto simp: scan_members_wire_type_7)
qed

text \<open>
  What is read of a member lies in the buffer: its prefix and its payload are parts of the
  bytes that follow its tag.
\<close>

definition sm_in_bounds :: "bytes \<Rightarrow> scanned_member \<Rightarrow> bool" where
  "sm_in_bounds data sm \<longleftrightarrow>
     suffix (sm_data sm) data \<and> sm_len sm \<le> length (sm_data sm) \<and> sm_prefix_len sm \<le> sm_len sm"

lemma sm_in_bounds_suffix: "suffix ys xs \<Longrightarrow> sm_in_bounds ys sm \<Longrightarrow> sm_in_bounds xs sm"
  unfolding sm_in_bounds_def by (meson suffix_order.trans)

lemma scan_members_in_bounds:
  "scan_members d l c at = Some sms \<Longrightarrow> sm \<in> set sms \<Longrightarrow> sm_in_bounds at sm"
proof (induction d l c at arbitrary: sms sm rule: scan_members.induct)
  case (1 d l c at)
  show ?case
  proof (cases "at = []")
    case True
    then show ?thesis
      using "1.prems" by (subst (asm) scan_members.simps) simp
  next
    case False
    obtain used tag t len pref sms' where parts: "parse_tag_and_wiretype at = Some (used, tag, t)"
        "scan_member_length t (drop used at) = Some (len, pref)" "int c \<noteq> max_scanned_members"
        "scan_members d (case lookup_field d l tag of None \<Rightarrow> l | Some i \<Rightarrow> i) (c + 1) (drop len (drop used at)) = Some sms'"
        "sms = \<lparr>sm_tag = tag, sm_wire_type = t, sm_prefix_len = pref, sm_field = lookup_field d l tag,
            sm_len = len, sm_data = drop used at\<rparr> # sms'"
      using "1.prems"(1) False
      by (subst (asm) scan_members.simps) (auto simp: Let_def split: option.splits prod.splits if_splits)
    have "\<not> len < pref"
      using scan_member_length_wrapped [OF parts(2)] parts(4) by auto
    then have head: "sm_in_bounds at (hd sms)"
      using parts scan_member_length_le [OF parts(2)] by (simp add: sm_in_bounds_def suffix_drop)
    have "sm \<in> set sms' \<Longrightarrow> sm_in_bounds (drop len (drop used at)) sm"
      using "1.IH" [OF False parts(1) refl refl refl refl parts(2) refl parts(3,4)] .
    then have "sm \<in> set sms' \<Longrightarrow> sm_in_bounds at sm"
      using sm_in_bounds_suffix suffix_drop by (metis drop_drop)
    then show ?thesis
      using head "1.prems"(2) parts(5) by auto
  qed
qed

lemma parse_required_member_in_bounds:
  "sm_prefix_len sm \<le> sm_len sm \<Longrightarrow> (\<And>bs. sub bs \<noteq> Inl PB_OVERREAD) \<Longrightarrow>
    parse_required_member sub t sm \<noteq> Inl PB_OVERREAD"
  by (cases "(sub, t, sm)" rule: parse_required_member.cases) (auto simp: sm_payload_def map_sum_def split: sum.splits)

lemma parse_members_in_bounds:
  assumes "\<And>sm. sm \<in> set sms \<Longrightarrow> sm_prefix_len sm \<le> sm_len sm" "\<And>i bs. subs i bs \<noteq> Inl PB_OVERREAD"
  shows "parse_members d subs sms m \<noteq> Inl PB_OVERREAD"
  using assms(1)
proof (induction sms arbitrary: m)
  case (Cons sm sms)
  have "parse_member d subs sm m \<noteq> Inl PB_OVERREAD"
    using parse_required_member_in_bounds [of sm] Cons.prems [of sm] assms(2)
    by (cases m) (auto split: option.splits sum.splits)
  then show ?case
    using Cons by (auto split: sum.splits)
qed simp

lemma unpack_in_bounds: "protobuf_c_message_unpack d data \<noteq> Inl PB_OVERREAD"
proof (induction d data rule: protobuf_c_message_unpack.induct)
  case (1 d data)
  show ?case
  proof (cases "scan_members d 0 0 data")
    case None
    then show ?thesis by (simp add: protobuf_c_message_unpack.simps [of d])
  next
    case (Some sms)
    show ?thesis
      unfolding protobuf_c_message_unpack.simps [of d] Some option.case
      using scan_members_in_bounds [OF Some] "1.IH" [OF Some]
      by (intro parse_members_in_bounds) (auto simp: sm_in_bounds_def split: pb_type.splits)
  qed
qed

end
