(* ===== verification/Pb_Codec.thy ===== *)
theory Pb_Codec
  imports Protobuf
begin

text \<open>
  The interface between the structures of the generated \<open>*.pb-c.c\<close> files and the
  generic messages of \<open>protobuf-c\<close>: how a structure member is seen as a slot of the
  message, and the locale of structures whose view as a message can be read back.
\<close>

definition uint32_slot :: "u32 option \<Rightarrow> pb_slot" where
  "uint32_slot x = Opt (map_option V_UINT32 x)"

definition int32_slot :: "u32 option \<Rightarrow> pb_slot" where
  "int32_slot x = Opt (map_option V_INT32 x)"

definition bool_slot :: "bool option \<Rightarrow> pb_slot" where
  "bool_slot x = Opt (map_option V_BOOL x)"

definition fixed64_slot :: "u64 option \<Rightarrow> pb_slot" where
  "fixed64_slot x = Opt (map_option V_FIXED64 x)"

definition bytes_slot :: "bytes option \<Rightarrow> pb_slot" where
  "bytes_slot x = Opt (map_option V_BYTES x)"

definition message_slot :: "('a \<Rightarrow> pb_message) \<Rightarrow> 'a option \<Rightarrow> pb_slot" where
  "message_slot f x = Opt (map_option (\<lambda>y. V_MESSAGE (f y)) x)"

definition repeated_slot :: "('a \<Rightarrow> pb_message) \<Rightarrow> 'a list \<Rightarrow> pb_slot" where
  "repeated_slot f xs = Rep (map (\<lambda>y. V_MESSAGE (f y)) xs)"

fun slot_uint32 :: "pb_slot \<Rightarrow> u32 option" where
  "slot_uint32 (Opt (Some (V_UINT32 w))) = Some w"
| "slot_uint32 _ = None"

fun slot_int32 :: "pb_slot \<Rightarrow> u32 option" where
  "slot_int32 (Opt (Some (V_INT32 w))) = Some w"
| "slot_int32 _ = None"

fun slot_bool :: "pb_slot \<Rightarrow> bool option" where
  "slot_bool (Opt (Some (V_BOOL b))) = Some b"
| "slot_bool _ = None"

fun slot_fixed64 :: "pb_slot \<Rightarrow> u64 option" where
  "slot_fixed64 (Opt (Some (V_FIXED64 w))) = Some w"
| "slot_fixed64 _ = None"

fun slot_bytes :: "pb_slot \<Rightarrow> bytes option" where
  "slot_bytes (Opt (Some (V_BYTES bs))) = Some bs"
| "slot_bytes _ = None"

fun slot_message :: "(pb_message \<Rightarrow> 'a) \<Rightarrow> pb_slot \<Rightarrow> 'a option" where
  "slot_message f (Opt (Some (V_MESSAGE m))) = Some (f m)"
| "slot_message f _ = None"

fun value_message :: "pb_value \<Rightarrow> pb_message option" where
  "value_message (V_MESSAGE m) = Some m"
| "value_message _ = None"

fun slot_repeated :: "(pb_message \<Rightarrow> 'a) \<Rightarrow> pb_slot \<Rightarrow> 'a list" where
  "slot_repeated f (Rep vs) = map f (List.map_filter value_message vs)"
| "slot_repeated f _ = []"

lemmas slot_defs =
  uint32_slot_def int32_slot_def bool_slot_def fixed64_slot_def bytes_slot_def

lemma slot_scalars [simp]:
  "slot_uint32 (uint32_slot x) = x"
  "slot_int32 (int32_slot x) = x"
  "slot_bool (bool_slot b) = b"
  "slot_fixed64 (fixed64_slot y) = y"
  "slot_bytes (bytes_slot z) = z"
  by ((cases x; simp add: slot_defs), (cases x; simp add: slot_defs), (cases b; simp add: slot_defs),
      (cases y; simp add: slot_defs), (cases z; simp add: slot_defs))

lemma slot_scalars_ok [simp]:
  "slot_ok (Optional_field i TYPE_UINT32) (uint32_slot x)"
  "slot_ok (Optional_field i TYPE_INT32) (int32_slot x)"
  "slot_ok (Optional_field i TYPE_BOOL) (bool_slot b)"
  "slot_ok (Optional_field i TYPE_FIXED64) (fixed64_slot y)"
  "slot_ok (Optional_field i TYPE_BYTES) (bytes_slot z)"
  by ((cases x; simp add: slot_defs), (cases x; simp add: slot_defs), (cases b; simp add: slot_defs),
      (cases y; simp add: slot_defs), (cases z; simp add: slot_defs))

lemma slot_message_slot: "(\<And>y. g (f y) = y) \<Longrightarrow> slot_message g (message_slot f x) = x"
  by (cases x) (simp_all add: message_slot_def)

lemma slot_repeated_slot:
  assumes "\<And>y. g (f y) = y"
  shows "slot_repeated g (repeated_slot f xs) = xs"
  using assms by (induction xs) (simp_all add: repeated_slot_def List.map_filter_simps)

text \<open>A structure, its descriptor and its view as a message.\<close>

locale pb_codec =
  fixes descriptor :: pb_desc
    and to_msg :: "'a \<Rightarrow> pb_message"
    and of_msg :: "pb_message \<Rightarrow> 'a"
  assumes desc_ok: "desc_ok descriptor"
    and msg_ok: "message_ok (to_msg x)"
    and msg_desc: "msg_desc (to_msg x) = descriptor"
    and of_to: "of_msg (to_msg x) = x"
begin

lemma unpack_pack_msg:
  assumes "protobuf_c_message_get_packed_size (to_msg x) < 2 ^ 27"
  shows "map_sum id of_msg (protobuf_c_message_unpack descriptor (protobuf_c_message_pack (to_msg x))) =
    Inr x"
  using unpack_pack [of "to_msg x"] assms by (simp add: desc_ok msg_ok msg_desc of_to)

lemma slot_ok_message: "slot_ok (Optional_field i (TYPE_MESSAGE descriptor)) (message_slot to_msg x)"
  by (cases x) (simp_all add: message_slot_def msg_ok msg_desc)

lemma slot_ok_repeated: "slot_ok (Repeated_message i descriptor) (repeated_slot to_msg xs)"
  by (simp add: repeated_slot_def values_ok_iff list_all_iff msg_ok msg_desc)

lemmas embed =
  desc_ok slot_ok_message slot_ok_repeated slot_message_slot [of of_msg to_msg, OF of_to]
  slot_repeated_slot [of of_msg to_msg, OF of_to]

end

section \<open>Bounds on packed sizes\<close>

definition bytes_len :: "bytes option \<Rightarrow> nat" where
  "bytes_len x = (case x of None \<Rightarrow> 0 | Some bs \<Rightarrow> length bs)"

lemma bytes_len_simps [simp]: "bytes_len None = 0" "bytes_len (Some bs) = length bs"
  by (simp_all add: bytes_len_def)

lemma get_tag_size_le: "get_tag_size i \<le> 5"
  by (simp add: get_tag_size_def)

lemma value_size_le:
  "value_size (V_UINT32 w) \<le> 5"
  "value_size (V_INT32 w) \<le> 10"
  "value_size (V_BYTES bs) \<le> 5 + length bs"
  "value_size (V_MESSAGE m) \<le> 5 + protobuf_c_message_get_packed_size m"
  by (simp_all add: uint32_size_def int32_size_def prefixed_size_def)

lemma slot_size_le:
  "field_get_packed_size f (uint32_slot x) \<le> 10"
  "field_get_packed_size f (int32_slot x) \<le> 15"
  "field_get_packed_size f (bool_slot b) \<le> 6"
  "field_get_packed_size f (fixed64_slot y) \<le> 13"
  "field_get_packed_size f (bytes_slot z) \<le> 10 + bytes_len z"
  using get_tag_size_le [of "field_id f"] value_size_le(1) [of "the x"] value_size_le(2) [of "the x"]
    value_size_le(3) [of "the z"]
  by ((cases x; simp add: slot_defs), (cases x; simp add: slot_defs), (cases b; simp add: slot_defs),
      (cases y; simp add: slot_defs), (cases z; simp add: slot_defs))

lemma message_slot_size_le:
  "field_get_packed_size f (message_slot g x) \<le>
     (case x of None \<Rightarrow> 0 | Some y \<Rightarrow> 10 + protobuf_c_message_get_packed_size (g y))"
  using get_tag_size_le [of "field_id f"] value_size_le(4) [of "g (the x)"]
  by (cases x) (simp_all add: message_slot_def)

lemma repeated_slot_size_le:
  "field_get_packed_size f (repeated_slot g xs) \<le>
     sum_list (map (\<lambda>y. 10 + protobuf_c_message_get_packed_size (g y)) xs)"
proof (induction xs)
  case (Cons x xs)
  then show ?case
    using get_tag_size_le [of "field_id f"] value_size_le(4) [of "g x"]
    by (simp add: repeated_slot_def)
qed (simp add: repeated_slot_def)

lemmas message_size_unfold =
  protobuf_c_message_get_packed_size.simps desc_fields.simps fields_get_packed_size.simps
  list.map sum_list.Nil add_0_right

lemmas slot_size_bounds = slot_size_le message_slot_size_le repeated_slot_size_le

text \<open>
  The library allocates a buffer of the packed size, packs into it and compares the
  two lengths; and it maps a failed unpack to an error code of its own.
\<close>

definition checked_pack :: "nat \<Rightarrow> bytes \<Rightarrow> bytes result" where
  "checked_pack len packed = (if length packed \<noteq> len then Inl SG_ERR_INVALID_PROTO_BUF else Inr packed)"

fun pb_result :: "sg_error \<Rightarrow> pb_error + 'a \<Rightarrow> 'a result" where
  "pb_result e (Inl PB_NULL) = Inl e"
| "pb_result e (Inl PB_OVERREAD) = Inl SG_ABORT"
| "pb_result e (Inr m) = Inr m"

lemma checked_pack_length [simp]: "checked_pack (length packed) packed = Inr packed"
  by (simp add: checked_pack_def)

lemma pb_result_eq_Inr [simp]: "pb_result e r = Inr m \<longleftrightarrow> r = Inr m"
  by (cases "(e, r)" rule: pb_result.cases) auto

lemmas range_simps = int_range_lookup_def int_range_search.simps

end
