(* ===== verification/LocalStorageProtocol.thy ===== *)
theory LocalStorageProtocol
  imports Pb_Codec
begin

text \<open>
  The messages of \<open>LocalStorageProtocol.pb-c.c\<close>: sessions, session records, pre keys,
  identity key pairs and sender keys as they are stored.
  A structure of the generated header is a record with an optional value per optional
  field and a list per repeated field; its descriptor holds the field numbers, types and
  number ranges of the generated table; \<open>_to_msg\<close> and \<open>_of_msg\<close> relate the structure to
  the generic message that \<open>protobuf-c\<close> reads and writes through the field offsets. Each
  structure is an instance of the locale \<open>pb_codec\<close>, so that unpacking its packed bytes
  gives it back.
\<close>

subsection \<open>\<open>Textsecure__SessionStructure__Chain__ChainKey\<close>\<close>

record Textsecure__SessionStructure__Chain__ChainKey =
  ChainKey_index :: "u32 option"
  ChainKey_key :: "bytes option"

definition textsecure__session_structure__chain__chain_key__init :: Textsecure__SessionStructure__Chain__ChainKey where
  "textsecure__session_structure__chain__chain_key__init =
     \<lparr>ChainKey_index = None, ChainKey_key = None\<rparr>"

definition textsecure__session_structure__chain__chain_key__descriptor :: pb_desc where
  "textsecure__session_structure__chain__chain_key__descriptor = Desc
     [Optional_field 1 TYPE_UINT32,
      Optional_field 2 TYPE_BYTES]
     [(1, 0), (0, 2)]"

definition ChainKey_to_msg :: "Textsecure__SessionStructure__Chain__ChainKey \<Rightarrow> pb_message" where
  "ChainKey_to_msg m = Message textsecure__session_structure__chain__chain_key__descriptor
     [uint32_slot (ChainKey_index m),
      bytes_slot (ChainKey_key m)] []"

definition ChainKey_of_msg :: "pb_message \<Rightarrow> Textsecure__SessionStructure__Chain__ChainKey" where
  "ChainKey_of_msg m =
     \<lparr>ChainKey_index = slot_uint32 (msg_slots m ! 0),
      ChainKey_key = slot_bytes (msg_slots m ! 1)\<rparr>"

interpretation ChainKey: pb_codec textsecure__session_structure__chain__chain_key__descriptor ChainKey_to_msg ChainKey_of_msg
  by unfold_locales
    (simp_all add: textsecure__session_structure__chain__chain_key__descriptor_def ChainKey_to_msg_def ChainKey_of_msg_def
      range_simps upt_conv_Cons)

lemma ChainKey_size:
  "protobuf_c_message_get_packed_size (ChainKey_to_msg m) \<le>
     10 +
      ((10 + bytes_len (ChainKey_key m)))"
  unfolding ChainKey_to_msg_def textsecure__session_structure__chain__chain_key__descriptor_def message_size_unfold
  by (intro add_mono slot_size_bounds)

subsection \<open>\<open>Textsecure__SessionStructure__Chain__MessageKey\<close>\<close>

record Textsecure__SessionStructure__Chain__MessageKey =
  MessageKey_index :: "u32 option"
  MessageKey_cipherkey :: "bytes option"
  MessageKey_mackey :: "bytes option"
  MessageKey_iv :: "bytes option"

definition textsecure__session_structure__chain__message_key__init :: Textsecure__SessionStructure__Chain__MessageKey where
  "textsecure__session_structure__chain__message_key__init =
     \<lparr>MessageKey_index = None, MessageKey_cipherkey = None, MessageKey_mackey = None,
       MessageKey_iv = None\<rparr>"

definition textsecure__session_structure__chain__message_key__descriptor :: pb_desc where
  "textsecure__session_structure__chain__message_key__descriptor = Desc
     [Optional_field 1 TYPE_UINT32,
      Optional_field 2 TYPE_BYTES,
      Optional_field 3 TYPE_BYTES,
      Optional_field 4 TYPE_BYTES]
     [(1, 0), (0, 4)]"

definition MessageKey_to_msg :: "Textsecure__SessionStructure__Chain__MessageKey \<Rightarrow> pb_message" where
  "MessageKey_to_msg m = Message textsecure__session_structure__chain__message_key__descriptor
     [uint32_slot (MessageKey_index m),
      bytes_slot (MessageKey_cipherkey m),
      bytes_slot (MessageKey_mackey m),
      bytes_slot (MessageKey_iv m)] []"

definition MessageKey_of_msg :: "pb_message \<Rightarrow> Textsecure__SessionStructure__Chain__MessageKey" where
  "MessageKey_of_msg m =
     \<lparr>MessageKey_index = slot_uint32 (msg_slots m ! 0),
      MessageKey_cipherkey = slot_bytes (msg_slots m ! 1),
      MessageKey_mackey = slot_bytes (msg_slots m ! 2),
      MessageKey_iv = slot_bytes (msg_slots m ! 3)\<rparr>"

interpretation MessageKey: pb_codec textsecure__session_structure__chain__message_key__descriptor MessageKey_to_msg MessageKey_of_msg
  by unfold_locales
    (simp_all add: textsecure__session_structure__chain__message_key__descriptor_def MessageKey_to_msg_def MessageKey_of_msg_def
      range_simps upt_conv_Cons)

lemma MessageKey_size:
  "protobuf_c_message_get_packed_size (MessageKey_to_msg m) \<le>
     10 +
      ((10 + bytes_len (MessageKey_cipherkey m)) +
      ((10 + bytes_len (MessageKey_mackey m)) +
      ((10 + bytes_len (MessageKey_iv m)))))"
  unfolding MessageKey_to_msg_def textsecure__session_structure__chain__message_key__descriptor_def message_size_unfold
  by (intro add_mono slot_size_bounds)

subsection \<open>\<open>Textsecure__SessionStructure__Chain\<close>\<close>

record Textsecure__SessionStructure__Chain =
  Chain_senderratchetkey :: "bytes option"
  Chain_senderratchetkeyprivate :: "bytes option"
  Chain_chainkey :: "Textsecure__SessionStructure__Chain__ChainKey option"
  Chain_messagekeys :: "Textsecure__SessionStructure__Chain__MessageKey list"

definition textsecure__session_structure__chain__init :: Textsecure__SessionStructure__Chain where
  "textsecure__session_structure__chain__init =
     \<lparr>Chain_senderratchetkey = None, Chain_senderratchetkeyprivate = None,
       Chain_chainkey = None, Chain_messagekeys = []\<rparr>"

definition textsecure__session_structure__chain__descriptor :: pb_desc where
  "textsecure__session_structure__chain__descriptor = Desc
     [Optional_field 1 TYPE_BYTES,
      Optional_field 2 TYPE_BYTES,
      Optional_field 3 (TYPE_MESSAGE textsecure__session_structure__chain__chain_key__descriptor),
      Repeated_message 4 textsecure__session_structure__chain__message_key__descriptor]
     [(1, 0), (0, 4)]"

definition Chain_to_msg :: "Textsecure__SessionStructure__Chain \<Rightarrow> pb_message" where
  "Chain_to_msg m = Message textsecure__session_structure__chain__descriptor
     [bytes_slot (Chain_senderratchetkey m),
      bytes_slot (Chain_senderratchetkeyprivate m),
      message_slot ChainKey_to_msg (Chain_chainkey m),
      repeated_slot MessageKey_to_msg (Chain_messagekeys m)] []"

definition Chain_of_msg :: "pb_message \<Rightarrow> Textsecure__SessionStructure__Chain" where
  "Chain_of_msg m =
     \<lparr>Chain_senderratchetkey = slot_bytes (msg_slots m ! 0),
      Chain_senderratchetkeyprivate = slot_bytes (msg_slots m ! 1),
      Chain_chainkey = slot_message ChainKey_of_msg (msg_slots m ! 2),
      Chain_messagekeys = slot_repeated MessageKey_of_msg (msg_slots m ! 3)\<rparr>"

interpretation Chain: pb_codec textsecure__session_structure__chain__descriptor Chain_to_msg Chain_of_msg
  by unfold_locales
    (simp_all add: textsecure__session_structure__chain__descriptor_def Chain_to_msg_def Chain_of_msg_def
      range_simps upt_conv_Cons
      ChainKey.embed
      MessageKey.embed)

lemma Chain_size:
  "protobuf_c_message_get_packed_size (Chain_to_msg m) \<le>
     (10 + bytes_len (Chain_senderratchetkey m)) +
      ((10 + bytes_len (Chain_senderratchetkeyprivate m)) +
      ((case Chain_chainkey m of None \<Rightarrow> 0 | Some y \<Rightarrow> 10 + protobuf_c_message_get_packed_size (ChainKey_to_msg y)) +
      (sum_list (map (\<lambda>y. 10 + protobuf_c_message_get_packed_size (MessageKey_to_msg y)) (Chain_messagekeys m)))))"
  unfolding Chain_to_msg_def textsecure__session_structure__chain__descriptor_def message_size_unfold
  by (intro add_mono slot_size_bounds)

subsection \<open>\<open>Textsecure__SessionStructure__PendingKeyExchange\<close>\<close>

record Textsecure__SessionStructure__PendingKeyExchange =
  PendingKeyExchange_sequence :: "u32 option"
  PendingKeyExchange_localbasekey :: "bytes option"
  PendingKeyExchange_localbasekeyprivate :: "bytes option"
  PendingKeyExchange_localratchetkey :: "bytes option"
  PendingKeyExchange_localratchetkeyprivate :: "bytes option"
  PendingKeyExchange_localidentitykey :: "bytes option"
  PendingKeyExchange_localidentitykeyprivate :: "bytes option"

definition textsecure__session_structure__pending_key_exchange__init :: Textsecure__SessionStructure__PendingKeyExchange where
  "textsecure__session_structure__pending_key_exchange__init =
     \<lparr>PendingKeyExchange_sequence = None, PendingKeyExchange_localbasekey = None,
       PendingKeyExchange_localbasekeyprivate = None,
       PendingKeyExchange_localratchetkey = None,
       PendingKeyExchange_localratchetkeyprivate = None,
       PendingKeyExchange_localidentitykey = None,
       PendingKeyExchange_localidentitykeyprivate = None\<rparr>"

definition textsecure__session_structure__pending_key_exchange__descriptor :: pb_desc where
  "textsecure__session_structure__pending_key_exchange__descriptor = Desc
     [Optional_field 1 TYPE_UINT32,
      Optional_field 2 TYPE_BYTES,
      Optional_field 3 TYPE_BYTES,
      Optional_field 4 TYPE_BYTES,
      Optional_field 5 TYPE_BYTES,
      Optional_field 7 TYPE_BYTES,
      Optional_field 8 TYPE_BYTES]
     [(1, 0), (7, 5), (0, 7)]"

definition PendingKeyExchange_to_msg :: "Textsecure__SessionStructure__PendingKeyExchange \<Rightarrow> pb_message" where
  "PendingKeyExchange_to_msg m = Message textsecure__session_structure__pending_key_exchange__descriptor
     [uint32_slot (PendingKeyExchange_sequence m),
      bytes_slot (PendingKeyExchange_localbasekey m),
      bytes_slot (PendingKeyExchange_localbasekeyprivate m),
      bytes_slot (PendingKeyExchange_localratchetkey m),
      bytes_slot (PendingKeyExchange_localratchetkeyprivate m),
      bytes_slot (PendingKeyExchange_localidentitykey m),
      bytes_slot (PendingKeyExchange_localidentitykeyprivate m)] []"

definition PendingKeyExchange_of_msg :: "pb_message \<Rightarrow> Textsecure__SessionStructure__PendingKeyExchange" where
  "PendingKeyExchange_of_msg m =
     \<lparr>PendingKeyExchange_sequence = slot_uint32 (msg_slots m ! 0),
      PendingKeyExchange_localbasekey = slot_bytes (msg_slots m ! 1),
      PendingKeyExchange_localbasekeyprivate = slot_bytes (msg_slots m ! 2),
      PendingKeyExchange_localratchetkey = slot_bytes (msg_slots m ! 3),
      PendingKeyExchange_localratchetkeyprivate = slot_bytes (msg_slots m ! 4),
      PendingKeyExchange_localidentitykey = slot_bytes (msg_slots m ! 5),
      PendingKeyExchange_localidentitykeyprivate = slot_bytes (msg_slots m ! 6)\<rparr>"

interpretation PendingKeyExchange: pb_codec textsecure__session_structure__pending_key_exchange__descriptor PendingKeyExchange_to_msg PendingKeyExchange_of_msg
  by unfold_locales
    (simp_all add: textsecure__session_structure__pending_key_exchange__descriptor_def PendingKeyExchange_to_msg_def PendingKeyExchange_of_msg_def
      range_simps upt_conv_Cons)

lemma PendingKeyExchange_size:
  "protobuf_c_message_get_packed_size (PendingKeyExchange_to_msg m) \<le>
     10 +
      ((10 + bytes_len (PendingKeyExchange_localbasekey m)) +
      ((10 + bytes_len (PendingKeyExchange_localbasekeyprivate m)) +
      ((10 + bytes_len (PendingKeyExchange_localratchetkey m)) +
      ((10 + bytes_len (PendingKeyExchange_localratchetkeyprivate m)) +
      ((10 + bytes_len (PendingKeyExchange_localidentitykey m)) +
      ((10 + bytes_len (PendingKeyExchange_localidentitykeyprivate m))))))))"
  unfolding PendingKeyExchange_to_msg_def textsecure__session_structure__pending_key_exchange__descriptor_def message_size_unfold
  by (intro add_mono slot_size_bounds)

subsection \<open>\<open>Textsecure__SessionStructure__PendingPreKey\<close>\<close>

record Textsecure__SessionStructure__PendingPreKey =
  PendingPreKey_prekeyid :: "u32 option"
  PendingPreKey_basekey :: "bytes option"
  PendingPreKey_signedprekeyid :: "u32 option"

definition textsecure__session_structure__pending_pre_key__init :: Textsecure__SessionStructure__PendingPreKey where
  "textsecure__session_structure__pending_pre_key__init =
     \<lparr>PendingPreKey_prekeyid = None, PendingPreKey_basekey = None,
       PendingPreKey_signedprekeyid = None\<rparr>"

definition textsecure__session_structure__pending_pre_key__descriptor :: pb_desc where
  "textsecure__session_structure__pending_pre_key__descriptor = Desc
     [Optional_field 1 TYPE_UINT32,
      Optional_field 2 TYPE_BYTES,
      Optional_field 3 TYPE_INT32]
     [(1, 0), (0, 3)]"

definition PendingPreKey_to_msg :: "Textsecure__SessionStructure__PendingPreKey \<Rightarrow> pb_message" where
  "PendingPreKey_to_msg m = Message textsecure__session_structure__pending_pre_key__descriptor
     [uint32_slot (PendingPreKey_prekeyid m),
      bytes_slot (PendingPreKey_basekey m),
      int32_slot (PendingPreKey_signedprekeyid m)] []"

definition PendingPreKey_of_msg :: "pb_message \<Rightarrow> Textsecure__SessionStructure__PendingPreKey" where
  "PendingPreKey_of_msg m =
     \<lparr>PendingPreKey_prekeyid = slot_uint32 (msg_slots m ! 0),
      PendingPreKey_basekey = slot_bytes (msg_slots m ! 1),
      PendingPreKey_signedprekeyid = slot_int32 (msg_slots m ! 2)\<rparr>"

interpretation PendingPreKey: pb_codec textsecure__session_structure__pending_pre_key__descriptor PendingPreKey_to_msg PendingPreKey_of_msg
  by unfold_locales
    (simp_all add: textsecure__session_structure__pending_pre_key__descriptor_def PendingPreKey_to_msg_def PendingPreKey_of_msg_def
      range_simps upt_conv_Cons)

lemma PendingPreKey_size:
  "protobuf_c_message_get_packed_size (PendingPreKey_to_msg m) \<le>
     10 +
      ((10 + bytes_len (PendingPreKey_basekey m)) +
      (15))"
  unfolding PendingPreKey_to_msg_def textsecure__session_structure__pending_pre_key__descriptor_def message_size_unfold
  by (intro add_mono slot_size_bounds)

subsection \<open>\<open>Textsecure__SessionStructure\<close>\<close>

record Textsecure__SessionStructure =
  SessionStructure_sessionversion :: "u32 option"
  SessionStructure_localidentitypublic :: "bytes option"
  SessionStructure_remoteidentitypublic :: "bytes option"
  SessionStructure_rootkey :: "bytes option"
  SessionStructure_previouscounter :: "u32 option"
  SessionStructure_senderchain :: "Textsecure__SessionStructure__Chain option"
  SessionStructure_receiverchains :: "Textsecure__SessionStructure__Chain list"
  SessionStructure_pendingkeyexchange :: "Textsecure__SessionStructure__PendingKeyExchange option"
  SessionStructure_pendingprekey :: "Textsecure__SessionStructure__PendingPreKey option"
  SessionStructure_remoteregistrationid :: "u32 option"
  SessionStructure_localregistrationid :: "u32 option"
  SessionStructure_needsrefresh :: "bool option"
  SessionStructure_alicebasekey :: "bytes option"

definition textsecure__session_structure__init :: Textsecure__SessionStructure where
  "textsecure__session_structure__init =
     \<lparr>SessionStructure_sessionversion = None, SessionStructure_localidentitypublic = None,
       SessionStructure_remoteidentitypublic = None, SessionStructure_rootkey = None,
       SessionStructure_previouscounter = None, SessionStructure_senderchain = None,
       SessionStructure_receiverchains = [], SessionStructure_pendingkeyexchange = None,
       SessionStructure_pendingprekey = None, SessionStructure_remoteregistrationid = None,
       SessionStructure_localregistrationid = None, SessionStructure_needsrefresh = None,
       SessionStructure_alicebasekey = None\<rparr>"

definition textsecure__session_structure__descriptor :: pb_desc where
  "textsecure__session_structure__descriptor = Desc
     [Optional_field 1 TYPE_UINT32,
      Optional_field 2 TYPE_BYTES,
      Optional_field 3 TYPE_BYTES,
      Optional_field 4 TYPE_BYTES,
      Optional_field 5 TYPE_UINT32,
      Optional_field 6 (TYPE_MESSAGE textsecure__session_structure__chain__descriptor),
      Repeated_message 7 textsecure__session_structure__chain__descriptor,
      Optional_field 8 (TYPE_MESSAGE textsecure__session_structure__pending_key_exchange__descriptor),
      Optional_field 9 (TYPE_MESSAGE textsecure__session_structure__pending_pre_key__descriptor),
      Optional_field 10 TYPE_UINT32,
      Optional_field 11 TYPE_UINT32,
      Optional_field 12 TYPE_BOOL,
      Optional_field 13 TYPE_BYTES]
     [(1, 0), (0, 13)]"

definition SessionStructure_to_msg :: "Textsecure__SessionStructure \<Rightarrow> pb_message" where
  "SessionStructure_to_msg m = Message textsecure__session_structure__descriptor
     [uint32_slot (SessionStructure_sessionversion m),
      bytes_slot (SessionStructure_localidentitypublic m),
      bytes_slot (SessionStructure_remoteidentitypublic m),
      bytes_slot (SessionStructure_rootkey m),
      uint32_slot (SessionStructure_previouscounter m),
      message_slot Chain_to_msg (SessionStructure_senderchain m),
      repeated_slot Chain_to_msg (SessionStructure_receiverchains m),
      message_slot PendingKeyExchange_to_msg (SessionStructure_pendingkeyexchange m),
      message_slot PendingPreKey_to_msg (SessionStructure_pendingprekey m),
      uint32_slot (SessionStructure_remoteregistrationid m),
      uint32_slot (SessionStructure_localregistrationid m),
      bool_slot (SessionStructure_needsrefresh m),
      bytes_slot (SessionStructure_alicebasekey m)] []"

definition SessionStructure_of_msg :: "pb_message \<Rightarrow> Textsecure__SessionStructure" where
  "SessionStructure_of_msg m =
     \<lparr>SessionStructure_sessionversion = slot_uint32 (msg_slots m ! 0),
      SessionStructure_localidentitypublic = slot_bytes (msg_slots m ! 1),
      SessionStructure_remoteidentitypublic = slot_bytes (msg_slots m ! 2),
      SessionStructure_rootkey = slot_bytes (msg_slots m ! 3),
      SessionStructure_previouscounter = slot_uint32 (msg_slots m ! 4),
      SessionStructure_senderchain = slot_message Chain_of_msg (msg_slots m ! 5),
      SessionStructure_receiverchains = slot_repeated Chain_of_msg (msg_slots m ! 6),
      SessionStructure_pendingkeyexchange = slot_message PendingKeyExchange_of_msg (msg_slots m ! 7),
      SessionStructure_pendingprekey = slot_message PendingPreKey_of_msg (msg_slots m ! 8),
      SessionStructure_remoteregistrationid = slot_uint32 (msg_slots m ! 9),
      SessionStructure_localregistrationid = slot_uint32 (msg_slots m ! 10),
      SessionStructure_needsrefresh = slot_bool (msg_slots m ! 11),
      SessionStructure_alicebasekey = slot_bytes (msg_slots m ! 12)\<rparr>"

definition textsecure__session_structure__get_packed_size :: "Textsecure__SessionStructure \<Rightarrow> nat" where
  "textsecure__session_structure__get_packed_size m = protobuf_c_message_get_packed_size (SessionStructure_to_msg m)"

definition textsecure__session_structure__pack :: "Textsecure__SessionStructure \<Rightarrow> bytes" where
  "textsecure__session_structure__pack m = protobuf_c_message_pack (SessionStructure_to_msg m)"

definition textsecure__session_structure__unpack :: "bytes \<Rightarrow> pb_error + Textsecure__SessionStructure" where
  "textsecure__session_structure__unpack data =
     map_sum id SessionStructure_of_msg (protobuf_c_message_unpack textsecure__session_structure__descriptor data)"

interpretation SessionStructure: pb_codec textsecure__session_structure__descriptor SessionStructure_to_msg SessionStructure_of_msg
  by unfold_locales
    (simp_all add: textsecure__session_structure__descriptor_def SessionStructure_to_msg_def SessionStructure_of_msg_def
      range_simps upt_conv_Cons
      Chain.embed
      PendingKeyExchange.embed
      PendingPreKey.embed)

lemma SessionStructure_size:
  "protobuf_c_message_get_packed_size (SessionStructure_to_msg m) \<le>
     10 +
      ((10 + bytes_len (SessionStructure_localidentitypublic m)) +
      ((10 + bytes_len (SessionStructure_remoteidentitypublic m)) +
      ((10 + bytes_len (SessionStructure_rootkey m)) +
      (10 +
      ((case SessionStructure_senderchain m of None \<Rightarrow> 0 | Some y \<Rightarrow> 10 + protobuf_c_message_get_packed_size (Chain_to_msg y)) +
      (sum_list (map (\<lambda>y. 10 + protobuf_c_message_get_packed_size (Chain_to_msg y)) (SessionStructure_receiverchains m)) +
      ((case SessionStructure_pendingkeyexchange m of None \<Rightarrow> 0 | Some y \<Rightarrow> 10 + protobuf_c_message_get_packed_size (PendingKeyExchange_to_msg y)) +
      ((case SessionStructure_pendingprekey m of None \<Rightarrow> 0 | Some y \<Rightarrow> 10 + protobuf_c_message_get_packed_size (PendingPreKey_to_msg y)) +
      (10 +
      (10 +
      (6 +
      ((10 + bytes_len (SessionStructure_alicebasekey m))))))))))))))"
  unfolding SessionStructure_to_msg_def textsecure__session_structure__descriptor_def message_size_unfold
  by (intro add_mono slot_size_bounds)

lemma textsecure__session_structure__roundtrip:
  "textsecure__session_structure__get_packed_size m < 2 ^ 27 \<Longrightarrow>
     textsecure__session_structure__unpack (textsecure__session_structure__pack m) = Inr m"
  unfolding textsecure__session_structure__get_packed_size_def textsecure__session_structure__pack_def textsecure__session_structure__unpack_def
  by (rule SessionStructure.unpack_pack_msg)

lemma length_textsecure__session_structure__pack [simp]:
  "length (textsecure__session_structure__pack m) = textsecure__session_structure__get_packed_size m"
  by (simp add: textsecure__session_structure__pack_def textsecure__session_structure__get_packed_size_def pack_length)

subsection \<open>\<open>Textsecure__RecordStructure\<close>\<close>

record Textsecure__RecordStructure =
  RecordStructure_currentsession :: "Textsecure__SessionStructure option"
  RecordStructure_previoussessions :: "Textsecure__SessionStructure list"

definition textsecure__record_structure__init :: Textsecure__RecordStructure where
  "textsecure__record_structure__init =
     \<lparr>RecordStructure_currentsession = None, RecordStructure_previoussessions = []\<rparr>"

definition textsecure__record_structure__descriptor :: pb_desc where
  "textsecure__record_structure__descriptor = Desc
     [Optional_field 1 (TYPE_MESSAGE textsecure__session_structure__descriptor),
      Repeated_message 2 textsecure__session_structure__descriptor]
     [(1, 0), (0, 2)]"

definition RecordStructure_to_msg :: "Textsecure__RecordStructure \<Rightarrow> pb_message" where
  "RecordStructure_to_msg m = Message textsecure__record_structure__descriptor
     [message_slot SessionStructure_to_msg (RecordStructure_currentsession m),
      repeated_slot SessionStructure_to_msg (RecordStructure_previoussessions m)] []"

definition RecordStructure_of_msg :: "pb_message \<Rightarrow> Textsecure__RecordStructure" where
  "RecordStructure_of_msg m =
     \<lparr>RecordStructure_currentsession = slot_message SessionStructure_of_msg (msg_slots m ! 0),
      RecordStructure_previoussessions = slot_repeated SessionStructure_of_msg (msg_slots m ! 1)\<rparr>"

definition textsecure__record_structure__get_packed_size :: "Textsecure__RecordStructure \<Rightarrow> nat" where
  "textsecure__record_structure__get_packed_size m = protobuf_c_message_get_packed_size (RecordStructure_to_msg m)"

definition textsecure__record_structure__pack :: "Textsecure__RecordStructure \<Rightarrow> bytes" where
  "textsecure__record_structure__pack m = protobuf_c_message_pack (RecordStructure_to_msg m)"

definition textsecure__record_structure__unpack :: "bytes \<Rightarrow> pb_error + Textsecure__RecordStructure" where
  "textsecure__record_structure__unpack data =
     map_sum id RecordStructure_of_msg (protobuf_c_message_unpack textsecure__record_structure__descriptor data)"

interpretation RecordStructure: pb_codec textsecure__record_structure__descriptor RecordStructure_to_msg RecordStructure_of_msg
  by unfold_locales
    (simp_all add: textsecure__record_structure__descriptor_def RecordStructure_to_msg_def RecordStructure_of_msg_def
      range_simps upt_conv_Cons
      SessionStructure.embed)

lemma RecordStructure_size:
  "protobuf_c_message_get_packed_size (RecordStructure_to_msg m) \<le>
     (case RecordStructure_currentsession m of None \<Rightarrow> 0 | Some y \<Rightarrow> 10 + protobuf_c_message_get_packed_size (SessionStructure_to_msg y)) +
      (sum_list (map (\<lambda>y. 10 + protobuf_c_message_get_packed_size (SessionStructure_to_msg y)) (RecordStructure_previoussessions m)))"
  unfolding RecordStructure_to_msg_def textsecure__record_structure__descriptor_def message_size_unfold
  by (intro add_mono slot_size_bounds)

lemma textsecure__record_structure__roundtrip:
  "textsecure__record_structure__get_packed_size m < 2 ^ 27 \<Longrightarrow>
     textsecure__record_structure__unpack (textsecure__record_structure__pack m) = Inr m"
  unfolding textsecure__record_structure__get_packed_size_def textsecure__record_structure__pack_def textsecure__record_structure__unpack_def
  by (rule RecordStructure.unpack_pack_msg)

lemma length_textsecure__record_structure__pack [simp]:
  "length (textsecure__record_structure__pack m) = textsecure__record_structure__get_packed_size m"
  by (simp add: textsecure__record_structure__pack_def textsecure__record_structure__get_packed_size_def pack_length)

subsection \<open>\<open>Textsecure__PreKeyRecordStructure\<close>\<close>

record Textsecure__PreKeyRecordStructure =
  PreKeyRecordStructure_id :: "u32 option"
  PreKeyRecordStructure_publickey :: "bytes option"
  PreKeyRecordStructure_privatekey :: "bytes option"

definition textsecure__pre_key_record_structure__init :: Textsecure__PreKeyRecordStructure where
  "textsecure__pre_key_record_structure__init =
     \<lparr>PreKeyRecordStructure_id = None, PreKeyRecordStructure_publickey = None,
       PreKeyRecordStructure_privatekey = None\<rparr>"

definition textsecure__pre_key_record_structure__descriptor :: pb_desc where
  "textsecure__pre_key_record_structure__descriptor = Desc
     [Optional_field 1 TYPE_UINT32,
      Optional_field 2 TYPE_BYTES,
      Optional_field 3 TYPE_BYTES]
     [(1, 0), (0, 3)]"

definition PreKeyRecordStructure_to_msg :: "Textsecure__PreKeyRecordStructure \<Rightarrow> pb_message" where
  "PreKeyRecordStructure_to_msg m = Message textsecure__pre_key_record_structure__descriptor
     [uint32_slot (PreKeyRecordStructure_id m),
      bytes_slot (PreKeyRecordStructure_publickey m),
      bytes_slot (PreKeyRecordStructure_privatekey m)] []"

definition PreKeyRecordStructure_of_msg :: "pb_message \<Rightarrow> Textsecure__PreKeyRecordStructure" where
  "PreKeyRecordStructure_of_msg m =
     \<lparr>PreKeyRecordStructure_id = slot_uint32 (msg_slots m ! 0),
      PreKeyRecordStructure_publickey = slot_bytes (msg_slots m ! 1),
      PreKeyRecordStructure_privatekey = slot_bytes (msg_slots m ! 2)\<rparr>"

definition textsecure__pre_key_record_structure__get_packed_size :: "Textsecure__PreKeyRecordStructure \<Rightarrow> nat" where
  "textsecure__pre_key_record_structure__get_packed_size m = protobuf_c_message_get_packed_size (PreKeyRecordStructure_to_msg m)"

definition textsecure__pre_key_record_structure__pack :: "Textsecure__PreKeyRecordStructure \<Rightarrow> bytes" where
  "textsecure__pre_key_record_structure__pack m = protobuf_c_message_pack (PreKeyRecordStructure_to_msg m)"

definition textsecure__pre_key_record_structure__unpack :: "bytes \<Rightarrow> pb_error + Textsecure__PreKeyRecordStructure" where
  "textsecure__pre_key_record_structure__unpack data =
     map_sum id PreKeyRecordStructure_of_msg (protobuf_c_message_unpack textsecure__pre_key_record_structure__descriptor data)"

interpretation PreKeyRecordStructure: pb_codec textsecure__pre_key_record_structure__descriptor PreKeyRecordStructure_to_msg PreKeyRecordStructure_of_msg
  by unfold_locales
    (simp_all add: textsecure__pre_key_record_structure__descriptor_def PreKeyRecordStructure_to_msg_def PreKeyRecordStructure_of_msg_def
      range_simps upt_conv_Cons)

lemma PreKeyRecordStructure_size:
  "protobuf_c_message_get_packed_size (PreKeyRecordStructure_to_msg m) \<le>
     10 +
      ((10 + bytes_len (PreKeyRecordStructure_publickey m)) +
      ((10 + bytes_len (PreKeyRecordStructure_privatekey m))))"
  unfolding PreKeyRecordStructure_to_msg_def textsecure__pre_key_record_structure__descriptor_def message_size_unfold
  by (intro add_mono slot_size_bounds)

lemma textsecure__pre_key_record_structure__roundtrip:
  "textsecure__pre_key_record_structure__get_packed_size m < 2 ^ 27 \<Longrightarrow>
     textsecure__pre_key_record_structure__unpack (textsecure__pre_key_record_structure__pack m) = Inr m"
  unfolding textsecure__pre_key_record_structure__get_packed_size_def textsecure__pre_key_record_structure__pack_def textsecure__pre_key_record_structure__unpack_def
  by (rule PreKeyRecordStructure.unpack_pack_msg)

lemma length_textsecure__pre_key_record_structure__pack [simp]:
  "length (textsecure__pre_key_record_structure__pack m) = textsecure__pre_key_record_structure__get_packed_size m"
  by (simp add: textsecure__pre_key_record_structure__pack_def textsecure__pre_key_record_structure__get_packed_size_def pack_length)

subsection \<open>\<open>Textsecure__SignedPreKeyRecordStructure\<close>\<close>

record Textsecure__SignedPreKeyRecordStructure =
  SignedPreKeyRecordStructure_id :: "u32 option"
  SignedPreKeyRecordStructure_publickey :: "bytes option"
  SignedPreKeyRecordStructure_privatekey :: "bytes option"
  SignedPreKeyRecordStructure_signature :: "bytes option"
  SignedPreKeyRecordStructure_timestamp :: "u64 option"

definition textsecure__signed_pre_key_record_structure__init :: Textsecure__SignedPreKeyRecordStructure where
  "textsecure__signed_pre_key_record_structure__init =
     \<lparr>SignedPreKeyRecordStructure_id = None, SignedPreKeyRecordStructure_publickey = None,
       SignedPreKeyRecordStructure_privatekey = None,
       SignedPreKeyRecordStructure_signature = None,
       SignedPreKeyRecordStructure_timestamp = None\<rparr>"

definition textsecure__signed_pre_key_record_structure__descriptor :: pb_desc where
  "textsecure__signed_pre_key_record_structure__descriptor = Desc
     [Optional_field 1 TYPE_UINT32,
      Optional_field 2 TYPE_BYTES,
      Optional_field 3 TYPE_BYTES,
      Optional_field 4 TYPE_BYTES,
      Optional_field 5 TYPE_FIXED64]
     [(1, 0), (0, 5)]"

definition SignedPreKeyRecordStructure_to_msg :: "Textsecure__SignedPreKeyRecordStructure \<Rightarrow> pb_message" where
  "SignedPreKeyRecordStructure_to_msg m = Message textsecure__signed_pre_key_record_structure__descriptor
     [uint32_slot (SignedPreKeyRecordStructure_id m),
      bytes_slot (SignedPreKeyRecordStructure_publickey m),
      bytes_slot (SignedPreKeyRecordStructure_privatekey m),
      bytes_slot (SignedPreKeyRecordStructure_signature m),
      fixed64_slot (SignedPreKeyRecordStructure_timestamp m)] []"

definition SignedPreKeyRecordStructure_of_msg :: "pb_message \<Rightarrow> Textsecure__SignedPreKeyRecordStructure" where
  "SignedPreKeyRecordStructure_of_msg m =
     \<lparr>SignedPreKeyRecordStructure_id = slot_uint32 (msg_slots m ! 0),
      SignedPreKeyRecordStructure_publickey = slot_bytes (msg_slots m ! 1),
      SignedPreKeyRecordStructure_privatekey = slot_bytes (msg_slots m ! 2),
      SignedPreKeyRecordStructure_signature = slot_bytes (msg_slots m ! 3),
      SignedPreKeyRecordStructure_timestamp = slot_fixed64 (msg_slots m ! 4)\<rparr>"

definition textsecure__signed_pre_key_record_structure__get_packed_size :: "Textsecure__SignedPreKeyRecordStructure \<Rightarrow> nat" where
  "textsecure__signed_pre_key_record_structure__get_packed_size m = protobuf_c_message_get_packed_size (SignedPreKeyRecordStructure_to_msg m)"

definition textsecure__signed_pre_key_record_structure__pack :: "Textsecure__SignedPreKeyRecordStructure \<Rightarrow> bytes" where
  "textsecure__signed_pre_key_record_structure__pack m = protobuf_c_message_pack (SignedPreKeyRecordStructure_to_msg m)"

definition textsecure__signed_pre_key_record_structure__unpack :: "bytes \<Rightarrow> pb_error + Textsecure__SignedPreKeyRecordStructure" where
  "textsecure__signed_pre_key_record_structure__unpack data =
     map_sum id SignedPreKeyRecordStructure_of_msg (protobuf_c_message_unpack textsecure__signed_pre_key_record_structure__descriptor data)"

interpretation SignedPreKeyRecordStructure: pb_codec textsecure__signed_pre_key_record_structure__descriptor SignedPreKeyRecordStructure_to_msg SignedPreKeyRecordStructure_of_msg
  by unfold_locales
    (simp_all add: textsecure__signed_pre_key_record_structure__descriptor_def SignedPreKeyRecordStructure_to_msg_def SignedPreKeyRecordStructure_of_msg_def
      range_simps upt_conv_Cons)

lemma SignedPreKeyRecordStructure_size:
  "protobuf_c_message_get_packed_size (SignedPreKeyRecordStructure_to_msg m) \<le>
     10 +
      ((10 + bytes_len (SignedPreKeyRecordStructure_publickey m)) +
      ((10 + bytes_len (SignedPreKeyRecordStructure_privatekey m)) +
      ((10 + bytes_len (SignedPreKeyRecordStructure_signature m)) +
      (13))))"
  unfolding SignedPreKeyRecordStructure_to_msg_def textsecure__signed_pre_key_record_structure__descriptor_def message_size_unfold
  by (intro add_mono slot_size_bounds)

lemma textsecure__signed_pre_key_record_structure__roundtrip:
  "textsecure__signed_pre_key_record_structure__get_packed_size m < 2 ^ 27 \<Longrightarrow>
     textsecure__signed_pre_key_record_structure__unpack (textsecure__signed_pre_key_record_structure__pack m) = Inr m"
  unfolding textsecure__signed_pre_key_record_structure__get_packed_size_def textsecure__signed_pre_key_record_structure__pack_def textsecure__signed_pre_key_record_structure__unpack_def
  by (rule SignedPreKeyRecordStructure.unpack_pack_msg)

lemma length_textsecure__signed_pre_key_record_structure__pack [simp]:
  "length (textsecure__signed_pre_key_record_structure__pack m) = textsecure__signed_pre_key_record_structure__get_packed_size m"
  by (simp add: textsecure__signed_pre_key_record_structure__pack_def textsecure__signed_pre_key_record_structure__get_packed_size_def pack_length)

subsection \<open>\<open>Textsecure__IdentityKeyPairStructure\<close>\<close>

record Textsecure__IdentityKeyPairStructure =
  IdentityKeyPairStructure_publickey :: "bytes option"
  IdentityKeyPairStructure_privatekey :: "bytes option"

definition textsecure__identity_key_pair_structure__init :: Textsecure__IdentityKeyPairStructure where
  "textsecure__identity_key_pair_structure__init =
     \<lparr>IdentityKeyPairStructure_publickey = None, IdentityKeyPairStructure_privatekey = None\<rparr>"

definition textsecure__identity_key_pair_structure__descriptor :: pb_desc where
  "textsecure__identity_key_pair_structure__descriptor = Desc
     [Optional_field 1 TYPE_BYTES,
      Optional_field 2 TYPE_BYTES]
     [(1, 0), (0, 2)]"

definition IdentityKeyPairStructure_to_msg :: "Textsecure__IdentityKeyPairStructure \<Rightarrow> pb_message" where
  "IdentityKeyPairStructure_to_msg m = Message textsecure__identity_key_pair_structure__descriptor
     [bytes_slot (IdentityKeyPairStructure_publickey m),
      bytes_slot (IdentityKeyPairStructure_privatekey m)] []"

definition IdentityKeyPairStructure_of_msg :: "pb_message \<Rightarrow> Textsecure__IdentityKeyPairStructure" where
  "IdentityKeyPairStructure_of_msg m =
     \<lparr>IdentityKeyPairStructure_publickey = slot_bytes (msg_slots m ! 0),
      IdentityKeyPairStructure_privatekey = slot_bytes (msg_slots m ! 1)\<rparr>"

definition textsecure__identity_key_pair_structure__get_packed_size :: "Textsecure__IdentityKeyPairStructure \<Rightarrow> nat" where
  "textsecure__identity_key_pair_structure__get_packed_size m = protobuf_c_message_get_packed_size (IdentityKeyPairStructure_to_msg m)"

definition textsecure__identity_key_pair_structure__pack :: "Textsecure__IdentityKeyPairStructure \<Rightarrow> bytes" where
  "textsecure__identity_key_pair_structure__pack m = protobuf_c_message_pack (IdentityKeyPairStructure_to_msg m)"

definition textsecure__identity_key_pair_structure__unpack :: "bytes \<Rightarrow> pb_error + Textsecure__IdentityKeyPairStructure" where
  "textsecure__identity_key_pair_structure__unpack data =
     map_sum id IdentityKeyPairStructure_of_msg (protobuf_c_message_unpack textsecure__identity_key_pair_structure__descriptor data)"

interpretation IdentityKeyPairStructure: pb_codec textsecure__identity_key_pair_structure__descriptor IdentityKeyPairStructure_to_msg IdentityKeyPairStructure_of_msg
  by unfold_locales
    (simp_all add: textsecure__identity_key_pair_structure__descriptor_def IdentityKeyPairStructure_to_msg_def IdentityKeyPairStructure_of_msg_def
      range_simps upt_conv_Cons)

lemma IdentityKeyPairStructure_size:
  "protobuf_c_message_get_packed_size (IdentityKeyPairStructure_to_msg m) \<le>
     (10 + bytes_len (IdentityKeyPairStructure_publickey m)) +
      ((10 + bytes_len (IdentityKeyPairStructure_privatekey m)))"
  unfolding IdentityKeyPairStructure_to_msg_def textsecure__identity_key_pair_structure__descriptor_def message_size_unfold
  by (intro add_mono slot_size_bounds)

lemma textsecure__identity_key_pair_structure__roundtrip:
  "textsecure__identity_key_pair_structure__get_packed_size m < 2 ^ 27 \<Longrightarrow>
     textsecure__identity_key_pair_structure__unpack (textsecure__identity_key_pair_structure__pack m) = Inr m"
  unfolding textsecure__identity_key_pair_structure__get_packed_size_def textsecure__identity_key_pair_structure__pack_def textsecure__identity_key_pair_structure__unpack_def
  by (rule IdentityKeyPairStructure.unpack_pack_msg)

lemma length_textsecure__identity_key_pair_structure__pack [simp]:
  "length (textsecure__identity_key_pair_structure__pack m) = textsecure__identity_key_pair_structure__get_packed_size m"
  by (simp add: textsecure__identity_key_pair_structure__pack_def textsecure__identity_key_pair_structure__get_packed_size_def pack_length)

subsection \<open>\<open>Textsecure__SenderKeyStateStructure__SenderChainKey\<close>\<close>

record Textsecure__SenderKeyStateStructure__SenderChainKey =
  SenderChainKey_iteration :: "u32 option"
  SenderChainKey_seed :: "bytes option"

definition textsecure__sender_key_state_structure__sender_chain_key__init :: Textsecure__SenderKeyStateStructure__SenderChainKey where
  "textsecure__sender_key_state_structure__sender_chain_key__init =
     \<lparr>SenderChainKey_iteration = None, SenderChainKey_seed = None\<rparr>"

definition textsecure__sender_key_state_structure__sender_chain_key__descriptor :: pb_desc where
  "textsecure__sender_key_state_structure__sender_chain_key__descriptor = Desc
     [Optional_field 1 TYPE_UINT32,
      Optional_field 2 TYPE_BYTES]
     [(1, 0), (0, 2)]"

definition SenderChainKey_to_msg :: "Textsecure__SenderKeyStateStructure__SenderChainKey \<Rightarrow> pb_message" where
  "SenderChainKey_to_msg m = Message textsecure__sender_key_state_structure__sender_chain_key__descriptor
     [uint32_slot (SenderChainKey_iteration m),
      bytes_slot (SenderChainKey_seed m)] []"

definition SenderChainKey_of_msg :: "pb_message \<Rightarrow> Textsecure__SenderKeyStateStructure__SenderChainKey" where
  "SenderChainKey_of_msg m =
     \<lparr>SenderChainKey_iteration = slot_uint32 (msg_slots m ! 0),
      SenderChainKey_seed = slot_bytes (msg_slots m ! 1)\<rparr>"

interpretation SenderChainKey: pb_codec textsecure__sender_key_state_structure__sender_chain_key__descriptor SenderChainKey_to_msg SenderChainKey_of_msg
  by unfold_locales
    (simp_all add: textsecure__sender_key_state_structure__sender_chain_key__descriptor_def SenderChainKey_to_msg_def SenderChainKey_of_msg_def
      range_simps upt_conv_Cons)

lemma SenderChainKey_size:
  "protobuf_c_message_get_packed_size (SenderChainKey_to_msg m) \<le>
     10 +
      ((10 + bytes_len (SenderChainKey_seed m)))"
  unfolding SenderChainKey_to_msg_def textsecure__sender_key_state_structure__sender_chain_key__descriptor_def message_size_unfold
  by (intro add_mono slot_size_bounds)

subsection \<open>\<open>Textsecure__SenderKeyStateStructure__SenderMessageKey\<close>\<close>

record Textsecure__SenderKeyStateStructure__SenderMessageKey =
  SenderMessageKey_iteration :: "u32 option"
  SenderMessageKey_seed :: "bytes option"

definition textsecure__sender_key_state_structure__sender_message_key__init :: Textsecure__SenderKeyStateStructure__SenderMessageKey where
  "textsecure__sender_key_state_structure__sender_message_key__init =
     \<lparr>SenderMessageKey_iteration = None, SenderMessageKey_seed = None\<rparr>"

definition textsecure__sender_key_state_structure__sender_message_key__descriptor :: pb_desc where
  "textsecure__sender_key_state_structure__sender_message_key__descriptor = Desc
     [Optional_field 1 TYPE_UINT32,
      Optional_field 2 TYPE_BYTES]
     [(1, 0), (0, 2)]"

definition SenderMessageKey_to_msg :: "Textsecure__SenderKeyStateStructure__SenderMessageKey \<Rightarrow> pb_message" where
  "SenderMessageKey_to_msg m = Message textsecure__sender_key_state_structure__sender_message_key__descriptor
     [uint32_slot (SenderMessageKey_iteration m),
      bytes_slot (SenderMessageKey_seed m)] []"

definition SenderMessageKey_of_msg :: "pb_message \<Rightarrow> Textsecure__SenderKeyStateStructure__SenderMessageKey" where
  "SenderMessageKey_of_msg m =
     \<lparr>SenderMessageKey_iteration = slot_uint32 (msg_slots m ! 0),
      SenderMessageKey_seed = slot_bytes (msg_slots m ! 1)\<rparr>"

interpretation SenderMessageKey: pb_codec textsecure__sender_key_state_structure__sender_message_key__descriptor SenderMessageKey_to_msg SenderMessageKey_of_msg
  by unfold_locales
    (simp_all add: textsecure__sender_key_state_structure__sender_message_key__descriptor_def SenderMessageKey_to_msg_def SenderMessageKey_of_msg_def
      range_simps upt_conv_Cons)

lemma SenderMessageKey_size:
  "protobuf_c_message_get_packed_size (SenderMessageKey_to_msg m) \<le>
     10 +
      ((10 + bytes_len (SenderMessageKey_seed m)))"
  unfolding SenderMessageKey_to_msg_def textsecure__sender_key_state_structure__sender_message_key__descriptor_def message_size_unfold
  by (intro add_mono slot_size_bounds)

subsection \<open>\<open>Textsecure__SenderKeyStateStructure__SenderSigningKey\<close>\<close>

record Textsecure__SenderKeyStateStructure__SenderSigningKey =
  SenderSigningKey_public :: "bytes option"
  SenderSigningKey_private :: "bytes option"

definition textsecure__sender_key_state_structure__sender_signing_key__init :: Textsecure__SenderKeyStateStructure__SenderSigningKey where
  "textsecure__sender_key_state_structure__sender_signing_key__init =
     \<lparr>SenderSigningKey_public = None, SenderSigningKey_private = None\<rparr>"

definition textsecure__sender_key_state_structure__sender_signing_key__descriptor :: pb_desc where
  "textsecure__sender_key_state_structure__sender_signing_key__descriptor = Desc
     [Optional_field 1 TYPE_BYTES,
      Optional_field 2 TYPE_BYTES]
     [(1, 0), (0, 2)]"

definition SenderSigningKey_to_msg :: "Textsecure__SenderKeyStateStructure__SenderSigningKey \<Rightarrow> pb_message" where
  "SenderSigningKey_to_msg m = Message textsecure__sender_key_state_structure__sender_signing_key__descriptor
     [bytes_slot (SenderSigningKey_public m),
      bytes_slot (SenderSigningKey_private m)] []"

definition SenderSigningKey_of_msg :: "pb_message \<Rightarrow> Textsecure__SenderKeyStateStructure__SenderSigningKey" where
  "SenderSigningKey_of_msg m =
     \<lparr>SenderSigningKey_public = slot_bytes (msg_slots m ! 0),
      SenderSigningKey_private = slot_bytes (msg_slots m ! 1)\<rparr>"

interpretation SenderSigningKey: pb_codec textsecure__sender_key_state_structure__sender_signing_key__descriptor SenderSigningKey_to_msg SenderSigningKey_of_msg
  by unfold_locales
    (simp_all add: textsecure__sender_key_state_structure__sender_signing_key__descriptor_def SenderSigningKey_to_msg_def SenderSigningKey_of_msg_def
      range_simps upt_conv_Cons)

lemma SenderSigningKey_size:
  "protobuf_c_message_get_packed_size (SenderSigningKey_to_msg m) \<le>
     (10 + bytes_len (SenderSigningKey_public m)) +
      ((10 + bytes_len (SenderSigningKey_private m)))"
  unfolding SenderSigningKey_to_msg_def textsecure__sender_key_state_structure__sender_signing_key__descriptor_def message_size_unfold
  by (intro add_mono slot_size_bounds)

subsection \<open>\<open>Textsecure__SenderKeyStateStructure\<close>\<close>

record Textsecure__SenderKeyStateStructure =
  SenderKeyStateStructure_senderkeyid :: "u32 option"
  SenderKeyStateStructure_senderchainkey :: "Textsecure__SenderKeyStateStructure__SenderChainKey option"
  SenderKeyStateStructure_sendersigningkey :: "Textsecure__SenderKeyStateStructure__SenderSigningKey option"
  SenderKeyStateStructure_sendermessagekeys :: "Textsecure__SenderKeyStateStructure__SenderMessageKey list"

definition textsecure__sender_key_state_structure__init :: Textsecure__SenderKeyStateStructure where
  "textsecure__sender_key_state_structure__init =
     \<lparr>SenderKeyStateStructure_senderkeyid = None,
       SenderKeyStateStructure_senderchainkey = None,
       SenderKeyStateStructure_sendersigningkey = None,
       SenderKeyStateStructure_sendermessagekeys = []\<rparr>"

definition textsecure__sender_key_state_structure__descriptor :: pb_desc where
  "textsecure__sender_key_state_structure__descriptor = Desc
     [Optional_field 1 TYPE_UINT32,
      Optional_field 2 (TYPE_MESSAGE textsecure__sender_key_state_structure__sender_chain_key__descriptor),
      Optional_field 3 (TYPE_MESSAGE textsecure__sender_key_state_structure__sender_signing_key__descriptor),
      Repeated_message 4 textsecure__sender_key_state_structure__sender_message_key__descriptor]
     [(1, 0), (0, 4)]"

definition SenderKeyStateStructure_to_msg :: "Textsecure__SenderKeyStateStructure \<Rightarrow> pb_message" where
  "SenderKeyStateStructure_to_msg m = Message textsecure__sender_key_state_structure__descriptor
     [uint32_slot (SenderKeyStateStructure_senderkeyid m),
      message_slot SenderChainKey_to_msg (SenderKeyStateStructure_senderchainkey m),
      message_slot SenderSigningKey_to_msg (SenderKeyStateStructure_sendersigningkey m),
      repeated_slot SenderMessageKey_to_msg (SenderKeyStateStructure_sendermessagekeys m)] []"

definition SenderKeyStateStructure_of_msg :: "pb_message \<Rightarrow> Textsecure__SenderKeyStateStructure" where
  "SenderKeyStateStructure_of_msg m =
     \<lparr>SenderKeyStateStructure_senderkeyid = slot_uint32 (msg_slots m ! 0),
      SenderKeyStateStructure_senderchainkey = slot_message SenderChainKey_of_msg (msg_slots m ! 1),
      SenderKeyStateStructure_sendersigningkey = slot_message SenderSigningKey_of_msg (msg_slots m ! 2),
      SenderKeyStateStructure_sendermessagekeys = slot_repeated SenderMessageKey_of_msg (msg_slots m ! 3)\<rparr>"

definition textsecure__sender_key_state_structure__get_packed_size :: "Textsecure__SenderKeyStateStructure \<Rightarrow> nat" where
  "textsecure__sender_key_state_structure__get_packed_size m = protobuf_c_message_get_packed_size (SenderKeyStateStructure_to_msg m)"

definition textsecure__sender_key_state_structure__pack :: "Textsecure__SenderKeyStateStructure \<Rightarrow> bytes" where
  "textsecure__sender_key_state_structure__pack m = protobuf_c_message_pack (SenderKeyStateStructure_to_msg m)"

definition textsecure__sender_key_state_structure__unpack :: "bytes \<Rightarrow> pb_error + Textsecure__SenderKeyStateStructure" where
  "textsecure__sender_key_state_structure__unpack data =
     map_sum id SenderKeyStateStructure_of_msg (protobuf_c_message_unpack textsecure__sender_key_state_structure__descriptor data)"

interpretation SenderKeyStateStructure: pb_codec textsecure__sender_key_state_structure__descriptor SenderKeyStateStructure_to_msg SenderKeyStateStructure_of_msg
  by unfold_locales
    (simp_all add: textsecure__sender_key_state_structure__descriptor_def SenderKeyStateStructure_to_msg_def SenderKeyStateStructure_of_msg_def
      range_simps upt_conv_Cons
      SenderChainKey.embed
      SenderSigningKey.embed
      SenderMessageKey.embed)

lemma SenderKeyStateStructure_size:
  "protobuf_c_message_get_packed_size (SenderKeyStateStructure_to_msg m) \<le>
     10 +
      ((case SenderKeyStateStructure_senderchainkey m of None \<Rightarrow> 0 | Some y \<Rightarrow> 10 + protobuf_c_message_get_packed_size (SenderChainKey_to_msg y)) +
      ((case SenderKeyStateStructure_sendersigningkey m of None \<Rightarrow> 0 | Some y \<Rightarrow> 10 + protobuf_c_message_get_packed_size (SenderSigningKey_to_msg y)) +
      (sum_list (map (\<lambda>y. 10 + protobuf_c_message_get_packed_size (SenderMessageKey_to_msg y)) (SenderKeyStateStructure_sendermessagekeys m)))))"
  unfolding SenderKeyStateStructure_to_msg_def textsecure__sender_key_state_structure__descriptor_def message_size_unfold
  by (intro add_mono slot_size_bounds)

lemma textsecure__sender_key_state_structure__roundtrip:
  "textsecure__sender_key_state_structure__get_packed_size m < 2 ^ 27 \<Longrightarrow>
     textsecure__sender_key_state_structure__unpack (textsecure__sender_key_state_structure__pack m) = Inr m"
  unfolding textsecure__sender_key_state_structure__get_packed_size_def textsecure__sender_key_state_structure__pack_def textsecure__sender_key_state_structure__unpack_def
  by (rule SenderKeyStateStructure.unpack_pack_msg)

lemma length_textsecure__sender_key_state_structure__pack [simp]:
  "length (textsecure__sender_key_state_structure__pack m) = textsecure__sender_key_state_structure__get_packed_size m"
  by (simp add: textsecure__sender_key_state_structure__pack_def textsecure__sender_key_state_structure__get_packed_size_def pack_length)

subsection \<open>\<open>Textsecure__SenderKeyRecordStructure\<close>\<close>

record Textsecure__SenderKeyRecordStructure =
  SenderKeyRecordStructure_senderkeystates :: "Textsecure__SenderKeyStateStructure list"

definition textsecure__sender_key_record_structure__init :: Textsecure__SenderKeyRecordStructure where
  "textsecure__sender_key_record_structure__init =
     \<lparr>SenderKeyRecordStructure_senderkeystates = []\<rparr>"

definition textsecure__sender_key_record_structure__descriptor :: pb_desc where
  "textsecure__sender_key_record_structure__descriptor = Desc
     [Repeated_message 1 textsecure__sender_key_state_structure__descriptor]
     [(1, 0), (0, 1)]"

definition SenderKeyRecordStructure_to_msg :: "Textsecure__SenderKeyRecordStructure \<Rightarrow> pb_message" where
  "SenderKeyRecordStructure_to_msg m = Message textsecure__sender_key_record_structure__descriptor
     [repeated_slot SenderKeyStateStructure_to_msg (SenderKeyRecordStructure_senderkeystates m)] []"

definition SenderKeyRecordStructure_of_msg :: "pb_message \<Rightarrow> Textsecure__SenderKeyRecordStructure" where
  "SenderKeyRecordStructure_of_msg m =
     \<lparr>SenderKeyRecordStructure_senderkeystates = slot_repeated SenderKeyStateStructure_of_msg (msg_slots m ! 0)\<rparr>"

definition textsecure__sender_key_record_structure__get_packed_size :: "Textsecure__SenderKeyRecordStructure \<Rightarrow> nat" where
  "textsecure__sender_key_record_structure__get_packed_size m = protobuf_c_message_get_packed_size (SenderKeyRecordStructure_to_msg m)"

definition textsecure__sender_key_record_structure__pack :: "Textsecure__SenderKeyRecordStructure \<Rightarrow> bytes" where
  "textsecure__sender_key_record_structure__pack m = protobuf_c_message_pack (SenderKeyRecordStructure_to_msg m)"

definition textsecure__sender_key_record_structure__unpack :: "bytes \<Rightarrow> pb_error + Textsecure__SenderKeyRecordStructure" where
  "textsecure__sender_key_record_structure__unpack data =
     map_sum id SenderKeyRecordStructure_of_msg (protobuf_c_message_unpack textsecure__sender_key_record_structure__descriptor data)"

interpretation SenderKeyRecordStructure: pb_codec textsecure__sender_key_record_structure__descriptor SenderKeyRecordStructure_to_msg SenderKeyRecordStructure_of_msg
  by unfold_locales
    (simp_all add: textsecure__sender_key_record_structure__descriptor_def SenderKeyRecordStructure_to_msg_def SenderKeyRecordStructure_of_msg_def
      range_simps upt_conv_Cons
      SenderKeyStateStructure.embed)

lemma SenderKeyRecordStructure_size:
  "protobuf_c_message_get_packed_size (SenderKeyRecordStructure_to_msg m) \<le>
     sum_list (map (\<lambda>y. 10 + protobuf_c_message_get_packed_size (SenderKeyStateStructure_to_msg y)) (SenderKeyRecordStructure_senderkeystates m))"
  unfolding SenderKeyRecordStructure_to_msg_def textsecure__sender_key_record_structure__descriptor_def message_size_unfold
  by (intro add_mono slot_size_bounds)

lemma textsecure__sender_key_record_structure__roundtrip:
  "textsecure__sender_key_record_structure__get_packed_size m < 2 ^ 27 \<Longrightarrow>
     textsecure__sender_key_record_structure__unpack (textsecure__sender_key_record_structure__pack m) = Inr m"
  unfolding textsecure__sender_key_record_structure__get_packed_size_def textsecure__sender_key_record_structure__pack_def textsecure__sender_key_record_structure__unpack_def
  by (rule SenderKeyRecordStructure.unpack_pack_msg)

lemma length_textsecure__sender_key_record_structure__pack [simp]:
  "length (textsecure__sender_key_record_structure__pack m) = textsecure__sender_key_record_structure__get_packed_size m"
  by (simp add: textsecure__sender_key_record_structure__pack_def textsecure__sender_key_record_structure__get_packed_size_def pack_length)

end
