(* ===== verification/Ratchet.thy ===== *)
theory Ratchet
  imports HKDF LocalStorageProtocol
begin

text \<open>
  The first half of \<open>ratchet.c\<close>: chain keys, root keys and message keys of the double
  ratchet, and identity key pairs with their stored form. Objects that keep a pointer to
  the context or to a key derivation context hold the latter; the context is an argument
  of the functions. The lemmas give each operation as a function of its inputs when the
  HMAC and agreement callbacks work, and show that both parties of a ratchet step
  derive the same root and chain keys.
\<close>

section \<open>Chain keys\<close>

record ratchet_chain_key =
  ck_kdf :: hkdf_context
  ck_key :: bytes
  ck_index :: u32

record ratchet_root_key =
  rk_kdf :: hkdf_context
  rk_key :: bytes

record ratchet_message_keys =
  mk_cipher_key :: bytes
  mk_mac_key :: bytes
  mk_iv :: bytes
  mk_counter :: u32

record ratchet_identity_key_pair =
  identity_public_key :: ec_public_key
  identity_private_key :: ec_private_key

definition RATCHET_CIPHER_KEY_LENGTH :: nat where "RATCHET_CIPHER_KEY_LENGTH = 32"
definition RATCHET_MAC_KEY_LENGTH :: nat where "RATCHET_MAC_KEY_LENGTH = 32"
definition RATCHET_IV_LENGTH :: nat where "RATCHET_IV_LENGTH = 16"
definition DERIVED_MESSAGE_SECRETS_SIZE :: nat where "DERIVED_MESSAGE_SECRETS_SIZE = 80"
definition DERIVED_ROOT_SECRETS_SIZE :: nat where "DERIVED_ROOT_SECRETS_SIZE = 64"

lemmas ratchet_constants =
  RATCHET_CIPHER_KEY_LENGTH_def RATCHET_MAC_KEY_LENGTH_def RATCHET_IV_LENGTH_def
  DERIVED_MESSAGE_SECRETS_SIZE_def DERIVED_ROOT_SECRETS_SIZE_def HASH_OUTPUT_SIZE_def

text \<open>The bytes of a C string literal, without the final zero.\<close>

definition ascii :: "string \<Rightarrow> bytes" where
  "ascii s = map of_char s"

definition ratchet_chain_key_create ::
  "hkdf_context option \<Rightarrow> bytes option \<Rightarrow> u32 \<Rightarrow> ratchet_chain_key result" where
  "ratchet_chain_key_create kdf key index =
     (case (kdf, key) of
        (Some f, Some k) \<Rightarrow> Inr \<lparr>ck_kdf = f, ck_key = k, ck_index = index\<rparr>
      | _ \<Rightarrow> Inl SG_ERR_INVAL)"

definition ratchet_chain_key_get_key :: "ratchet_chain_key \<Rightarrow> bytes" where
  "ratchet_chain_key_get_key chain_key = ck_key chain_key"

definition ratchet_chain_key_get_key_protobuf :: "ratchet_chain_key \<Rightarrow> bytes" where
  "ratchet_chain_key_get_key_protobuf chain_key = ck_key chain_key"

definition ratchet_chain_key_get_index :: "ratchet_chain_key \<Rightarrow> u32" where
  "ratchet_chain_key_get_index chain_key = ck_index chain_key"

definition ratchet_chain_key_get_base_material ::
  "('h, 'd, 'w) signal_context \<Rightarrow> ratchet_chain_key \<Rightarrow> bytes \<Rightarrow> bytes result" where
  "ratchet_chain_key_get_base_material context chain_key seed =
     signal_hmac_sha256 context (ck_key chain_key) [seed]"

definition ratchet_chain_key_get_message_keys ::
  "('h, 'd, 'w) signal_context \<Rightarrow> ratchet_chain_key \<Rightarrow> ratchet_message_keys result" where
  "ratchet_chain_key_get_message_keys context chain_key =
     rbind (ratchet_chain_key_get_base_material context chain_key [0x01]) (\<lambda>input_key_material.
     rbind (hkdf_derive_secrets context (ck_kdf chain_key) input_key_material
              (replicate HASH_OUTPUT_SIZE 0) (Some (ascii ''WhisperMessageKeys''))
              DERIVED_MESSAGE_SECRETS_SIZE) (\<lambda>key_material_data.
     if length key_material_data \<noteq>
          RATCHET_CIPHER_KEY_LENGTH + RATCHET_MAC_KEY_LENGTH + RATCHET_IV_LENGTH
     then Inl SG_ERR_UNKNOWN
     else Inr
       \<lparr>mk_cipher_key = take RATCHET_CIPHER_KEY_LENGTH key_material_data,
        mk_mac_key = take RATCHET_MAC_KEY_LENGTH (drop RATCHET_CIPHER_KEY_LENGTH key_material_data),
        mk_iv = take RATCHET_IV_LENGTH
          (drop (RATCHET_CIPHER_KEY_LENGTH + RATCHET_MAC_KEY_LENGTH) key_material_data),
        mk_counter = ck_index chain_key\<rparr>))"

definition ratchet_chain_key_create_next ::
  "('h, 'd, 'w) signal_context \<Rightarrow> ratchet_chain_key \<Rightarrow> ratchet_chain_key result" where
  "ratchet_chain_key_create_next context chain_key =
     rbind (ratchet_chain_key_get_base_material context chain_key [0x02]) (\<lambda>next_key.
     ratchet_chain_key_create (Some (ck_kdf chain_key)) (Some next_key) (ck_index chain_key + 1))"

section \<open>Root keys\<close>

definition ratchet_root_key_create ::
  "hkdf_context option \<Rightarrow> bytes option \<Rightarrow> ratchet_root_key result" where
  "ratchet_root_key_create kdf key =
     (case (kdf, key) of
        (Some f, Some k) \<Rightarrow> Inr \<lparr>rk_kdf = f, rk_key = k\<rparr>
      | _ \<Rightarrow> Inl SG_ERR_INVAL)"

definition ratchet_root_key_create_chain ::
  "('h, 'd, 'w) signal_context \<Rightarrow> ratchet_root_key \<Rightarrow> ec_public_key option \<Rightarrow>
     ec_private_key option \<Rightarrow> (ratchet_root_key \<times> ratchet_chain_key) result" where
  "ratchet_root_key_create_chain context root_key their_ratchet_key our_ratchet_key_private =
     (if their_ratchet_key = None \<or> our_ratchet_key_private = None then Inl SG_ERR_INVAL
      else
        rbind (curve_calculate_agreement context their_ratchet_key our_ratchet_key_private)
          (\<lambda>shared_secret.
        rbind (hkdf_derive_secrets context (rk_kdf root_key) shared_secret (rk_key root_key)
                 (Some (ascii ''WhisperRatchet'')) DERIVED_ROOT_SECRETS_SIZE) (\<lambda>derived_secret.
        if length derived_secret \<noteq> DERIVED_ROOT_SECRETS_SIZE then Inl SG_ERR_UNKNOWN
        else
          rbind (ratchet_root_key_create (Some (rk_kdf root_key)) (Some (take 32 derived_secret)))
            (\<lambda>new_root_key.
          rbind (ratchet_chain_key_create (Some (rk_kdf root_key))
                   (Some (take 32 (drop 32 derived_secret))) 0) (\<lambda>new_chain_key.
          Inr (new_root_key, new_chain_key))))))"

definition ratchet_root_key_get_key :: "ratchet_root_key \<Rightarrow> bytes" where
  "ratchet_root_key_get_key root_key = rk_key root_key"

definition ratchet_root_key_get_key_protobuf :: "ratchet_root_key \<Rightarrow> bytes" where
  "ratchet_root_key_get_key_protobuf root_key = rk_key root_key"

fun ratchet_root_key_compare :: "ratchet_root_key option \<Rightarrow> ratchet_root_key option \<Rightarrow> int" where
  "ratchet_root_key_compare None None = 0"
| "ratchet_root_key_compare None (Some k2) = -1"
| "ratchet_root_key_compare (Some k1) None = 1"
| "ratchet_root_key_compare (Some k1) (Some k2) =
     (let kdf_compare = hkdf_compare (Some (rk_kdf k1)) (Some (rk_kdf k2)) in
      if kdf_compare \<noteq> 0 then kdf_compare
      else if length (rk_key k1) < length (rk_key k2) then -1
      else if length (rk_key k1) > length (rk_key k2) then 1
      else signal_constant_memcmp (rk_key k1) (rk_key k2) (length (rk_key k1)))"

section \<open>Identity key pairs\<close>

definition ratchet_identity_key_pair_create ::
  "ec_public_key \<Rightarrow> ec_private_key \<Rightarrow> ratchet_identity_key_pair" where
  "ratchet_identity_key_pair_create pub priv =
     \<lparr>identity_public_key = pub, identity_private_key = priv\<rparr>"

definition ratchet_identity_key_pair_serialize ::
  "ratchet_identity_key_pair option \<Rightarrow> bytes result" where
  "ratchet_identity_key_pair_serialize key_pair =
     (case key_pair of
        None \<Rightarrow> Inl SG_ERR_INVAL
      | Some p \<Rightarrow>
          let key_structure = textsecure__identity_key_pair_structure__init
                \<lparr>IdentityKeyPairStructure_publickey :=
                   Some (ec_public_key_serialize_protobuf (identity_public_key p)),
                 IdentityKeyPairStructure_privatekey :=
                   Some (ec_private_key_serialize_protobuf (identity_private_key p))\<rparr>
          in checked_pack (textsecure__identity_key_pair_structure__get_packed_size key_structure)
               (textsecure__identity_key_pair_structure__pack key_structure))"

definition ratchet_identity_key_pair_deserialize :: "bytes \<Rightarrow> ratchet_identity_key_pair result" where
  "ratchet_identity_key_pair_deserialize data =
     rbind (pb_result SG_ERR_INVALID_PROTO_BUF (textsecure__identity_key_pair_structure__unpack data))
       (\<lambda>key_structure.
     case (IdentityKeyPairStructure_publickey key_structure,
           IdentityKeyPairStructure_privatekey key_structure) of
       (Some pub, Some priv) \<Rightarrow>
         rbind (curve_decode_point pub) (\<lambda>pub_key.
         rbind (curve_decode_private_point priv) (\<lambda>priv_key.
         Inr (ratchet_identity_key_pair_create pub_key priv_key)))
     | _ \<Rightarrow> Inl SG_ERR_INVALID_KEY)"

section \<open>Invariants\<close>

definition hkdf_ok :: "hkdf_context \<Rightarrow> bool" where
  "hkdf_ok kdf \<longleftrightarrow> iteration_start_offset kdf \<le> 1"

definition chain_key_ok :: "ratchet_chain_key \<Rightarrow> bool" where
  "chain_key_ok ck \<longleftrightarrow> hkdf_ok (ck_kdf ck) \<and> length (ck_key ck) = 32"

definition root_key_ok :: "ratchet_root_key \<Rightarrow> bool" where
  "root_key_ok rk \<longleftrightarrow> hkdf_ok (rk_kdf rk) \<and> length (rk_key rk) = 32"

definition message_keys_ok :: "ratchet_message_keys \<Rightarrow> bool" where
  "message_keys_ok mk \<longleftrightarrow>
     length (mk_cipher_key mk) = RATCHET_CIPHER_KEY_LENGTH \<and>
     length (mk_mac_key mk) = RATCHET_MAC_KEY_LENGTH \<and>
     length (mk_iv mk) = RATCHET_IV_LENGTH"

definition identity_key_pair_ok :: "ratchet_identity_key_pair \<Rightarrow> bool" where
  "identity_key_pair_ok p \<longleftrightarrow>
     ec_public_key_ok (identity_public_key p) \<and> ec_private_key_ok (identity_private_key p)"

lemmas ratchet_ok_defs =
  hkdf_ok_def chain_key_ok_def root_key_ok_def message_keys_ok_def identity_key_pair_ok_def

interpretation root_key: comparison ratchet_root_key_compare "\<lambda>_. True"
proof
  fix a b :: ratchet_root_key
  show "ratchet_root_key_compare (Some a) (Some b) = 0 \<longleftrightarrow> a = b"
    using hkdf.compare_eq_0 [of "Some (rk_kdf a)" "Some (rk_kdf b)"]
    by (cases a; cases b) (auto simp: Let_def signal_constant_memcmp_eq_0 simp del: hkdf_compare.simps)
qed auto

section \<open>The ratchet as a function\<close>

text \<open>The next chain key and the message keys, as functions of a working HMAC.\<close>

definition chain_next :: "(bytes \<Rightarrow> bytes \<Rightarrow> bytes) \<Rightarrow> ratchet_chain_key \<Rightarrow> ratchet_chain_key" where
  "chain_next mac ck = ck\<lparr>ck_key := mac (ck_key ck) [0x02], ck_index := ck_index ck + 1\<rparr>"

definition chain_message_keys ::
  "(bytes \<Rightarrow> bytes \<Rightarrow> bytes) \<Rightarrow> ratchet_chain_key \<Rightarrow> ratchet_message_keys" where
  "chain_message_keys mac ck =
     (let okm = kdf_fun mac (ck_kdf ck) (mac (ck_key ck) [0x01]) (replicate 32 0)
                  (ascii ''WhisperMessageKeys'') 80
      in \<lparr>mk_cipher_key = take 32 okm, mk_mac_key = take 32 (drop 32 okm),
          mk_iv = take 16 (drop 64 okm), mk_counter = ck_index ck\<rparr>)"

lemma create_next_eq:
  assumes "hmac_spec context mac"
  shows "ratchet_chain_key_create_next context ck = Inr (chain_next mac ck)"
  by (simp add: ratchet_chain_key_create_next_def ratchet_chain_key_get_base_material_def
      hmac_specD [OF assms] ratchet_chain_key_create_def chain_next_def)

lemma get_message_keys_eq:
  assumes "hmac_spec context mac" "hkdf_ok (ck_kdf ck)"
  shows "ratchet_chain_key_get_message_keys context ck = Inr (chain_message_keys mac ck)"
  using assms(2)
  by (simp add: ratchet_chain_key_get_message_keys_def ratchet_chain_key_get_base_material_def
      hmac_specD [OF assms(1)] ratchet_constants hkdf_ok_def hkdf_derive_secrets_eq [OF assms(1)]
      length_kdf_fun [OF assms(1)] chain_message_keys_def Let_def)

lemma chain_next_ok:
  "hmac_spec context mac \<Longrightarrow> hkdf_ok (ck_kdf ck) \<Longrightarrow> chain_key_ok (chain_next mac ck)"
  by (simp add: chain_next_def chain_key_ok_def hmac_specD)

lemma chain_message_keys_ok:
  "hmac_spec context mac \<Longrightarrow> message_keys_ok (chain_message_keys mac ck)"
  by (simp add: chain_message_keys_def message_keys_ok_def ratchet_constants Let_def length_kdf_fun)

lemma chain_next_iter:
  "ck_index ((chain_next mac ^^ n) ck) = ck_index ck + word_of_nat n"
  "ck_kdf ((chain_next mac ^^ n) ck) = ck_kdf ck"
  by (induction n) (simp_all add: chain_next_def)

text \<open>
  A root-key step depends on the two ratchet keys only through their agreement, so that
  the two parties compute the same new root and chain keys.
\<close>

definition root_next ::
  "(bytes \<Rightarrow> bytes \<Rightarrow> bytes) \<Rightarrow> ratchet_root_key \<Rightarrow> bytes \<Rightarrow> ratchet_root_key \<times> ratchet_chain_key" where
  "root_next mac rk shared =
     (let okm = kdf_fun mac (rk_kdf rk) shared (rk_key rk) (ascii ''WhisperRatchet'') 64
      in (\<lparr>rk_kdf = rk_kdf rk, rk_key = take 32 okm\<rparr>,
          \<lparr>ck_kdf = rk_kdf rk, ck_key = take 32 (drop 32 okm), ck_index = 0\<rparr>))"

lemma create_chain_eq:
  assumes "hmac_spec context mac" "dh_spec context dh" "hkdf_ok (rk_kdf rk)"
  shows "ratchet_root_key_create_chain context rk (Some p) (Some s) =
    Inr (root_next mac rk (dh (ec_private_data s) (ec_public_data p)))"
  using assms(3)
  by (simp add: ratchet_root_key_create_chain_def curve_calculate_agreement_dh [OF assms(2)]
      ratchet_constants hkdf_ok_def hkdf_derive_secrets_eq [OF assms(1)]
      length_kdf_fun [OF assms(1)] ratchet_root_key_create_def ratchet_chain_key_create_def
      root_next_def Let_def)

lemma root_next_ok:
  assumes "hmac_spec context mac" "hkdf_ok (rk_kdf rk)"
  shows "root_key_ok (fst (root_next mac rk shared))" "chain_key_ok (snd (root_next mac rk shared))"
  using assms by (simp_all add: root_next_def root_key_ok_def chain_key_ok_def Let_def length_kdf_fun)

lemma create_chain_agree:
  assumes "dh_spec context dh" "matching_key_pair context a" "matching_key_pair context b"
  shows "ratchet_root_key_create_chain context rk (Some (public_key a)) (Some (private_key b)) =
    ratchet_root_key_create_chain context rk (Some (public_key b)) (Some (private_key a))"
  by (simp add: ratchet_root_key_create_chain_def agreement_symmetric [OF assms])

section \<open>Stored identity keys\<close>

lemma identity_key_pair_roundtrip:
  assumes "identity_key_pair_ok p"
  shows "\<exists>bs. ratchet_identity_key_pair_serialize (Some p) = Inr bs \<and>
    ratchet_identity_key_pair_deserialize bs = Inr p"
proof -
  let ?m = "textsecure__identity_key_pair_structure__init
      \<lparr>IdentityKeyPairStructure_publickey := Some (ec_public_key_serialize_protobuf (identity_public_key p)),
       IdentityKeyPairStructure_privatekey := Some (ec_private_key_serialize_protobuf (identity_private_key p))\<rparr>"
  have "textsecure__identity_key_pair_structure__get_packed_size ?m < 2 ^ 27"
    using IdentityKeyPairStructure_size [of ?m] assms
    by (simp add: textsecure__identity_key_pair_structure__get_packed_size_def identity_key_pair_ok_def
        ec_public_key_ok_def ec_private_key_ok_def curve_constants
        ec_public_key_serialize_protobuf_def ec_private_key_serialize_protobuf_def)
  then show ?thesis
    using assms
    by (auto simp: ratchet_identity_key_pair_serialize_def ratchet_identity_key_pair_deserialize_def
        textsecure__identity_key_pair_structure__roundtrip ratchet_identity_key_pair_create_def
        ratchet_ok_defs Let_def checked_pack_def textsecure__identity_key_pair_structure__init_def)
qed

end
