(* ===== verification/Message_Keys.thy ===== *)
theory Message_Keys
  imports Prelude
begin

text \<open>
  The keys of the messages of one chain, as sessions and groups keep them: a chain value
  from which the keys of the next messages are derived, and the stored keys of the
  messages that were skipped. \<open>fetch_key\<close> is the reference for the two routines of the
  library that find the keys of a message (\<open>session_cipher_get_or_create_message_keys\<close>
  and \<open>group_cipher_get_sender_key\<close>).

  The locale \<open>bounded_queue\<close> is the contract of the list of stored keys and of the
  library's other bounded lists; the locale \<open>message_chain\<close> that of a chain. Its lemmas:
  no key is handed out twice, and the keys of a window of up to 2000 messages are found
  in every order.
\<close>

section \<open>Bounded queues\<close>

text \<open>A queue that keeps the last \<open>cap\<close> elements pushed.\<close>

locale bounded_queue =
  fixes cap :: nat
    and push :: "'a list \<Rightarrow> 'a \<Rightarrow> 'a list"
  assumes cap_pos: "0 < cap"
    and push_window: "push q x = drop (length q + 1 - cap) (q @ [x])"
begin

lemma push_length: "length (push q x) = min cap (Suc (length q))"
  using cap_pos by (auto simp: push_window)

lemma push_bounded: "length (push q x) \<le> cap"
  by (simp add: push_length)

lemma push_last: "last (push q x) = x" and push_nonempty: "push q x \<noteq> []"
  using cap_pos by (auto simp: push_window)

lemma push_set: "set (push q x) \<subseteq> insert x (set q)"
  using set_drop_subset [of "length q + 1 - cap" "q @ [x]"] by (auto simp: push_window)

lemma push_room: "length q < cap \<Longrightarrow> push q x = q @ [x]"
  by (simp add: push_window)

lemma push_full: "length q = cap \<Longrightarrow> push q x = tl q @ [x]"
  using cap_pos by (cases q) (simp_all add: push_window)

lemma pushes_window: "foldl push q xs = drop (length q + length xs - cap) (q @ xs)" if "length q \<le> cap"
  using that
proof (induction xs arbitrary: q)
  case (Cons x xs)
  show ?case
  proof (cases "length q < cap")
    case True
    then show ?thesis
      using Cons.IH [of "push q x"] by (simp add: push_room)
  next
    case False
    then have full: "length q = cap" "q \<noteq> []"
      using Cons.prems cap_pos by auto
    have "foldl push q (x # xs) = foldl push (tl q @ [x]) xs"
      using full(1) by (simp add: push_full)
    also have "\<dots> = drop (length (tl q @ [x]) + length xs - cap) ((tl q @ [x]) @ xs)"
      using full cap_pos by (intro Cons.IH) simp
    also have "\<dots> = drop (length xs) (tl q @ x # xs)"
      using full cap_pos by simp
    also have "\<dots> = drop (Suc (length xs)) (q @ x # xs)"
      using full(2) by (cases q) auto
    finally show ?thesis
      using full(1) by simp
  qed
qed simp

lemma pushes_suffix: "\<exists>k. foldl push q xs = drop k (q @ xs)"
proof (induction xs arbitrary: q)
  case Nil
  show ?case
    by (intro exI [of _ 0]) simp
next
  case (Cons x xs)
  obtain k where "foldl push (push q x) xs = drop k (push q x @ xs)"
    using Cons.IH by blast
  moreover have "push q x @ xs = drop (length q + 1 - cap) (q @ x # xs)"
    using cap_pos by (simp add: push_window)
  ultimately show ?case
    by (intro exI [of _ "k + (length q + 1 - cap)"]) (simp only: foldl.simps drop_drop)
qed

end

section \<open>Finding the keys of a message\<close>

definition fetch_key ::
  "('c \<Rightarrow> u32) \<Rightarrow> ('c \<Rightarrow> 'c) \<Rightarrow> ('c \<Rightarrow> 'k) \<Rightarrow> ('k \<Rightarrow> u32) \<Rightarrow> ('k list \<Rightarrow> 'k \<Rightarrow> 'k list) \<Rightarrow>
     u32 \<Rightarrow> 'c \<Rightarrow> 'k list \<Rightarrow> ('k \<times> 'c \<times> 'k list) result" where
  "fetch_key index advance keys counter push n c ks =
     (if index c > n then
        (case remove_first (\<lambda>k. counter k = n) ks of
           None \<Rightarrow> Inl SG_ERR_DUPLICATE_MESSAGE
         | Some (k, rest) \<Rightarrow> Inr (k, c, rest))
      else if n - index c > 2000 then Inl SG_ERR_INVALID_MESSAGE
      else
        let g = unat (n - index c) in
        Inr (keys ((advance ^^ g) c), (advance ^^ Suc g) c,
             foldl push ks (map (\<lambda>i. keys ((advance ^^ i) c)) [0..<g])))"

text \<open>
  The stored keys have different counters, all below the index of the chain: each stands
  for a message that was skipped.
\<close>

definition counters_ok :: "('c \<Rightarrow> u32) \<Rightarrow> ('k \<Rightarrow> u32) \<Rightarrow> 'c \<Rightarrow> 'k list \<Rightarrow> bool" where
  "counters_ok index counter c ks \<longleftrightarrow>
     distinct (map counter ks) \<and> list_all (\<lambda>k. counter k < index c) ks"

text \<open>
  Of the messages from \<open>c0\<close> on, those with numbers in \<open>D\<close> were used; the chain is past all of
  them, at \<open>h\<close>, and exactly the keys of the messages it skipped are stored.
\<close>

definition key_window ::
  "('c \<Rightarrow> 'c) \<Rightarrow> ('c \<Rightarrow> 'k) \<Rightarrow> ('k \<Rightarrow> u32) \<Rightarrow> 'c \<Rightarrow> nat set \<Rightarrow> nat \<Rightarrow> 'c \<Rightarrow> 'k list \<Rightarrow> bool" where
  "key_window advance keys counter c0 D h c ks \<longleftrightarrow>
     c = (advance ^^ h) c0 \<and> D \<subseteq> {..<h} \<and> distinct (map counter ks) \<and>
     set ks = (\<lambda>i. keys ((advance ^^ i) c0)) ` ({..<h} - D)"

locale message_chain = bounded_queue cap push
  for cap :: nat and push :: "'a list \<Rightarrow> 'a \<Rightarrow> 'a list" +
  fixes index :: "'c \<Rightarrow> u32"
    and advance :: "'c \<Rightarrow> 'c"
    and keys :: "'c \<Rightarrow> 'a"
    and counter :: "'a \<Rightarrow> u32"
  assumes cap_keys: "cap = 2000"
    and index_advance: "index (advance c) = index c + 1"
    and counter_keys: "counter (keys c) = index c"
begin

lemma index_iter: "index ((advance ^^ n) c) = index c + word_of_nat n"
  by (induction n) (simp_all add: index_advance)

lemma counter_iter: "counter (keys ((advance ^^ n) c)) = index c + word_of_nat n"
  by (simp add: counter_keys index_iter)

lemma fetch_ahead:
  assumes "unat (index c) + g < 2 ^ 32" "g \<le> 2000"
  shows "fetch_key index advance keys counter push (index c + word_of_nat g) c ks =
    Inr (keys ((advance ^^ g) c), (advance ^^ Suc g) c,
         foldl push ks (map (\<lambda>i. keys ((advance ^^ i) c)) [0..<g]))"
proof -
  have "\<not> index c > index c + word_of_nat g"
    using index_add_less [OF assms(1)] by (simp add: word_less_nat_alt)
  moreover have "unat (word_of_nat g :: u32) = g"
    using assms(2) by (simp add: unat_of_nat take_bit_nat_eq_self)
  moreover from this have "\<not> word_of_nat g > (2000 :: u32)"
    using assms(2) by (simp add: word_less_nat_alt)
  ultimately show ?thesis
    by (simp add: fetch_key_def)
qed

text \<open>Every successful search is for a stored key or is at most 2000 messages ahead.\<close>

lemma fetch_cases:
  assumes "fetch_key index advance keys counter push n c ks = Inr (k, c', ks')"
  obtains (stored) "n < index c" "remove_first (\<lambda>k. counter k = n) ks = Some (k, ks')" "c' = c"
  | (ahead) g where "n = index c + word_of_nat g" "unat (index c) + g < 2 ^ 32" "g \<le> 2000"
      "k = keys ((advance ^^ g) c)" "c' = (advance ^^ Suc g) c"
      "ks' = foldl push ks (map (\<lambda>i. keys ((advance ^^ i) c)) [0..<g])"
proof (cases "n < index c")
  case True
  then show ?thesis
    using assms stored by (auto simp: fetch_key_def split: option.splits)
next
  case False
  define g where "g = unat (n - index c)"
  have g: "n = index c + word_of_nat g"
    by (simp add: g_def)
  have "unat (index c) + g = unat n"
    using False by (simp add: g_def unat_sub word_le_nat_alt not_less)
  then have room: "unat (index c) + g < 2 ^ 32"
    by (simp add: u32_bound)
  have "\<not> n - index c > 2000"
    using assms False by (auto simp: fetch_key_def split: if_splits)
  then have gap: "g \<le> 2000"
    by (simp add: g_def word_less_nat_alt)
  show ?thesis
    using assms fetch_ahead [OF room gap] by (intro ahead [OF g room gap]) (simp_all add: g)
qed

subsection \<open>No key twice\<close>

lemma skipped_counters:
  assumes "counters_ok index counter c ks" "unat (index c) + g < 2 ^ 32"
  shows "distinct (map counter (ks @ map (\<lambda>i. keys ((advance ^^ i) c)) [0..<g])) \<and>
    list_all (\<lambda>k. counter k < index c + word_of_nat g) (ks @ map (\<lambda>i. keys ((advance ^^ i) c)) [0..<g])"
proof -
  have new: "unat (index c + word_of_nat i) = unat (index c) + i" if "i \<le> g" for i
    using that assms(2) by (intro index_add_less) simp
  have old: "unat (counter k) < unat (index c)" if "k \<in> set ks" for k
    using that assms(1) by (auto simp: counters_ok_def list_all_iff word_less_nat_alt)
  have "inj_on (\<lambda>i. index c + word_of_nat i) (set [0..<g])"
    using index_add_inj [OF assms(2)] by (auto simp: inj_on_def)
  moreover have "counter k \<noteq> index c + word_of_nat i" if "k \<in> set ks" "i < g" for k i
    using old [OF that(1)] new [of i] that(2) by auto
  ultimately have "distinct (map counter (ks @ map (\<lambda>i. keys ((advance ^^ i) c)) [0..<g]))"
    using assms(1) by (auto simp: counters_ok_def counter_iter o_def distinct_map)
  moreover have "list_all (\<lambda>k. counter k < index c + word_of_nat g) (ks @ map (\<lambda>i. keys ((advance ^^ i) c)) [0..<g])"
    using old new by (force simp: list_all_iff word_less_nat_alt counter_iter)
  ultimately show ?thesis
    by blast
qed

lemma fetch_counters:
  assumes "counters_ok index counter c ks" "n \<noteq> -1"
    and "fetch_key index advance keys counter push n c ks = Inr (k, c', ks')"
  shows "counters_ok index counter c' ks'" "n < index c'" "n \<notin> counter ` set ks'"
proof -
  have "counters_ok index counter c' ks' \<and> n < index c' \<and> n \<notin> counter ` set ks'"
    using assms(3)
  proof (cases rule: fetch_cases)
    case stored
    then show ?thesis
      using assms(1) remove_first_key [OF stored(2)] by (auto simp: counters_ok_def list_all_iff)
  next
    case (ahead g)
    obtain j where j: "ks' = drop j (ks @ map (\<lambda>i. keys ((advance ^^ i) c)) [0..<g])"
      using pushes_suffix ahead(6) by blast
    note skipped = skipped_counters [OF assms(1) ahead(2)]
    have "distinct (map counter ks')"
      using distinct_drop [OF conjunct1 [OF skipped], of j] by (simp only: j drop_map)
    moreover have below: "list_all (\<lambda>k. counter k < n) ks'"
      using skipped unfolding j list_all_iff ahead(1) by (blast dest: in_set_dropD)
    moreover have next_index: "n < index c'"
      using counter_less_Suc [OF assms(2)] ahead(1,5) by (simp add: index_advance index_iter add.assoc)
    ultimately show ?thesis
      by (force simp: counters_ok_def list_all_iff)
  qed
  then show "counters_ok index counter c' ks'" "n < index c'" "n \<notin> counter ` set ks'"
    by blast+
qed

lemma fetch_used:
  assumes "n < index c" "n \<notin> counter ` set ks"
  shows "fetch_key index advance keys counter push n c ks = Inl SG_ERR_DUPLICATE_MESSAGE"
proof -
  have "remove_first (\<lambda>k. counter k = n) ks = None"
    using assms(2) by (auto simp: remove_first_None)
  then show ?thesis
    using assms(1) by (simp add: fetch_key_def)
qed

subsection \<open>Every order\<close>

lemma window_length:
  assumes "key_window advance keys counter c0 D h c ks"
  shows "length ks \<le> h"
proof -
  have "card (set ks) \<le> card ({..<h} - D)"
    using assms by (simp add: key_window_def card_image_le)
  also have "\<dots> \<le> h"
    using card_mono [of "{..<h}" "{..<h} - D"] by simp
  finally show ?thesis
    using assms distinct_card [of ks] by (auto simp: key_window_def distinct_map)
qed

lemma window_fetch_stored:
  assumes room: "unat (index c0) + n < 2 ^ 32"
    and w: "key_window advance keys counter c0 D h c ks" "h \<le> n" and i: "i < h" "i \<notin> D"
  shows "\<exists>rest. fetch_key index advance keys counter push (index c0 + word_of_nat i) c ks =
      Inr (keys ((advance ^^ i) c0), c, rest) \<and> key_window advance keys counter c0 (insert i D) h c rest"
proof -
  let ?k = "\<lambda>i. keys ((advance ^^ i) c0)"
  have w': "c = (advance ^^ h) c0" "distinct (map counter ks)" "set ks = ?k ` ({..<h} - D)" "D \<subseteq> {..<h}"
    using w(1) by (simp_all add: key_window_def)
  obtain rest where rest: "remove_first (\<lambda>k. counter k = index c0 + word_of_nat i) ks = Some (?k i, rest)"
    using remove_first_member [OF w'(2), of "?k i"] w'(3) i by (auto simp: counter_iter)
  have "?k j \<noteq> ?k i" if "j < h" "j \<noteq> i" for j
    using index_add_inj [OF room, of j i] counter_iter [of j c0] counter_iter [of i c0] that i(1) w(2) by auto
  then have "set rest = ?k ` ({..<h} - insert i D)"
    using remove_first_key(2) [OF rest w'(2)] w'(3) by fastforce
  moreover have "index c0 + word_of_nat i < index c"
    using index_add_less [of "index c0" i] index_add_less [of "index c0" h] room w(2) i(1)
    by (simp add: w'(1) index_iter word_less_nat_alt)
  ultimately show ?thesis
    using rest remove_first_key(1) [OF rest w'(2)] w'(1,4) i(1)
    by (intro exI [of _ rest]) (simp add: fetch_key_def key_window_def)
qed

lemma window_fetch_ahead:
  assumes room: "unat (index c0) + n < 2 ^ 32" "n \<le> 2000"
    and w: "key_window advance keys counter c0 D h c ks" and i: "h \<le> i" "i < n"
  shows "\<exists>ks'. fetch_key index advance keys counter push (index c0 + word_of_nat i) c ks =
      Inr (keys ((advance ^^ i) c0), (advance ^^ Suc i) c0, ks') \<and>
    key_window advance keys counter c0 (insert i D) (Suc i) ((advance ^^ Suc i) c0) ks'"
proof -
  let ?k = "\<lambda>i. keys ((advance ^^ i) c0)"
  have c: "c = (advance ^^ h) c0" "distinct (map counter ks)" "set ks = ?k ` ({..<h} - D)" "D \<subseteq> {..<h}"
    using w by (simp_all add: key_window_def)
  have index: "index c + word_of_nat (i - h) = index c0 + word_of_nat i"
    using i(1) by (simp add: c(1) index_iter add.assoc flip: of_nat_add)
  have iter: "(advance ^^ j) c = (advance ^^ (h + j)) c0" for j
    by (simp add: c(1) funpow_then)
  have "map (\<lambda>j. keys ((advance ^^ j) c)) [0..<i - h] = map ?k [h..<i]"
    using i(1) by (intro nth_equalityI) (simp_all add: iter)
  moreover have "unat (index c) + (i - h) < 2 ^ 32"
    using index_add_less [of "index c0" h] room(1) i by (simp add: c(1) index_iter)
  ultimately have fetch: "fetch_key index advance keys counter push (index c0 + word_of_nat i) c ks =
      Inr (?k i, (advance ^^ Suc i) c0, foldl push ks (map ?k [h..<i]))"
    using fetch_ahead [of c "i - h" ks] i room(2) iter [of "i - h"] iter [of "Suc (i - h)"]
    unfolding index by (simp del: funpow.simps)
  have pushed: "foldl push ks (map ?k [h..<i]) = ks @ map ?k [h..<i]"
    using pushes_window [of ks "map ?k [h..<i]"] window_length [OF w] i room(2) by (simp add: cap_keys)
  have inj: "(word_of_nat j :: u32) = word_of_nat l \<longleftrightarrow> j = l" if "j < n" "l < n" for j l
    using that room(2) by (intro u32_of_nat_inj) simp_all
  have "distinct (map counter (map ?k [h..<i]))"
    using i(2) inj by (simp add: distinct_map inj_on_def counter_iter o_def)
  moreover have "counter k \<notin> counter ` ?k ` {h..<i}" if "k \<in> set ks" for k
    using that i c(3) inj by (auto simp: counter_iter)
  ultimately have "distinct (map counter (ks @ map ?k [h..<i]))"
    using c(2) by auto
  moreover have "{..<Suc i} - insert i D = ({..<h} - D) \<union> {h..<i}"
    using c(4) i(1) by auto
  ultimately show ?thesis
    using c(3,4) i(1) fetch unfolding pushed key_window_def
    by (intro exI [of _ "ks @ map ?k [h..<i]"]) (auto simp: image_Un)
qed

lemma window_fetch:
  assumes "unat (index c0) + n < 2 ^ 32" "n \<le> 2000"
    and "key_window advance keys counter c0 D h c ks" "h \<le> n" "i < n" "i \<notin> D"
  shows "\<exists>c' ks'. fetch_key index advance keys counter push (index c0 + word_of_nat i) c ks =
      Inr (keys ((advance ^^ i) c0), c', ks') \<and>
    key_window advance keys counter c0 (insert i D) (max h (Suc i)) c' ks'"
proof (cases "i < h")
  case True
  then show ?thesis
    using window_fetch_stored [OF assms(1,3,4) True assms(6)] by (auto simp: max_absorb1)
next
  case False
  then show ?thesis
    using window_fetch_ahead [OF assms(1,2,3) _ assms(5)] by (auto simp: max_absorb2)
qed

end

end
