(* ===== verification/Session_State.thy ===== *)
theory Session_State
  imports Ratchet Message_Keys
begin

text \<open>
  \<open>session_state.c\<close>: the state of one session (identities, root key, sending chain,
  receiving chains with their skipped message keys, pending handshake data), its
  accessors and updates, and its stored form. Linked lists are lists, oldest node first;
  a flag and the structure it guards are kept side by side as in the C structure.

  The lemmas show that every update keeps the invariant \<open>session_state_ok\<close> (at most 5
  receiving chains with at most 2000 message keys each, key sizes, key derivation
  contexts that fit the session version), that the two bounded lists are first-in
  first-out windows (locale \<open>bounded_queue\<close>), and that storing a state and loading it
  again gives the same state, so that \<open>session_state_copy\<close> is the identity.
\<close>

section \<open>The state\<close>

definition MAX_MESSAGE_KEYS :: nat where "MAX_MESSAGE_KEYS = 2000"

definition MAX_RECEIVER_CHAINS :: nat where "MAX_RECEIVER_CHAINS = 5"

record session_state_sender_chain =
  sender_ratchet_key_pair :: "ec_key_pair option"
  sender_chain_key :: "ratchet_chain_key option"

record session_state_receiver_chain =
  sender_ratchet_key :: "ec_public_key option"
  receiver_chain_key :: "ratchet_chain_key option"
  message_keys :: "ratchet_message_keys list"

record session_pending_key_exchange =
  pke_sequence :: u32
  pke_local_base_key :: "ec_key_pair option"
  pke_local_ratchet_key :: "ec_key_pair option"
  pke_local_identity_key :: "ratchet_identity_key_pair option"

record session_pending_pre_key =
  ppk_has_pre_key_id :: bool
  ppk_pre_key_id :: u32
  ppk_signed_pre_key_id :: u32
  ppk_base_key :: "ec_public_key option"

record session_state =
  ss_session_version :: u32
  ss_local_identity_public :: "ec_public_key option"
  ss_remote_identity_public :: "ec_public_key option"
  ss_root_key :: "ratchet_root_key option"
  ss_previous_counter :: u32
  ss_has_sender_chain :: bool
  ss_sender_chain :: session_state_sender_chain
  ss_receiver_chains :: "session_state_receiver_chain list"
  ss_has_pending_key_exchange :: bool
  ss_pending_key_exchange :: session_pending_key_exchange
  ss_has_pending_pre_key :: bool
  ss_pending_pre_key :: session_pending_pre_key
  ss_remote_registration_id :: u32
  ss_local_registration_id :: u32
  ss_needs_refresh :: bool
  ss_alice_base_key :: "ec_public_key option"

definition empty_sender_chain :: session_state_sender_chain where
  "empty_sender_chain = \<lparr>sender_ratchet_key_pair = None, sender_chain_key = None\<rparr>"

definition empty_pending_key_exchange :: session_pending_key_exchange where
  "empty_pending_key_exchange =
     \<lparr>pke_sequence = 0, pke_local_base_key = None, pke_local_ratchet_key = None,
      pke_local_identity_key = None\<rparr>"

definition empty_pending_pre_key :: session_pending_pre_key where
  "empty_pending_pre_key =
     \<lparr>ppk_has_pre_key_id = False, ppk_pre_key_id = 0, ppk_signed_pre_key_id = 0,
      ppk_base_key = None\<rparr>"

definition session_state_create :: session_state where
  "session_state_create =
     \<lparr>ss_session_version = 2, ss_local_identity_public = None, ss_remote_identity_public = None,
      ss_root_key = None, ss_previous_counter = 0, ss_has_sender_chain = False,
      ss_sender_chain = empty_sender_chain, ss_receiver_chains = [],
      ss_has_pending_key_exchange = False, ss_pending_key_exchange = empty_pending_key_exchange,
      ss_has_pending_pre_key = False, ss_pending_pre_key = empty_pending_pre_key,
      ss_remote_registration_id = 0, ss_local_registration_id = 0, ss_needs_refresh = False,
      ss_alice_base_key = None\<rparr>"

lemmas session_empty_defs =
  empty_sender_chain_def empty_pending_key_exchange_def empty_pending_pre_key_def
  session_state_create_def

section \<open>Accessors and updates\<close>

definition session_state_set_session_version :: "session_state \<Rightarrow> u32 \<Rightarrow> session_state" where
  "session_state_set_session_version state version = state\<lparr>ss_session_version := version\<rparr>"

definition session_state_get_session_version :: "session_state \<Rightarrow> u32" where
  "session_state_get_session_version state = ss_session_version state"

definition session_state_set_local_identity_key :: "session_state \<Rightarrow> ec_public_key \<Rightarrow> session_state" where
  "session_state_set_local_identity_key state identity_key =
     state\<lparr>ss_local_identity_public := Some identity_key\<rparr>"

definition session_state_get_local_identity_key :: "session_state \<Rightarrow> ec_public_key option" where
  "session_state_get_local_identity_key state = ss_local_identity_public state"

definition session_state_set_remote_identity_key :: "session_state \<Rightarrow> ec_public_key \<Rightarrow> session_state" where
  "session_state_set_remote_identity_key state identity_key =
     state\<lparr>ss_remote_identity_public := Some identity_key\<rparr>"

definition session_state_get_remote_identity_key :: "session_state \<Rightarrow> ec_public_key option" where
  "session_state_get_remote_identity_key state = ss_remote_identity_public state"

definition session_state_set_root_key :: "session_state \<Rightarrow> ratchet_root_key \<Rightarrow> session_state" where
  "session_state_set_root_key state root_key = state\<lparr>ss_root_key := Some root_key\<rparr>"

definition session_state_get_root_key :: "session_state \<Rightarrow> ratchet_root_key option" where
  "session_state_get_root_key state = ss_root_key state"

definition session_state_set_previous_counter :: "session_state \<Rightarrow> u32 \<Rightarrow> session_state" where
  "session_state_set_previous_counter state counter = state\<lparr>ss_previous_counter := counter\<rparr>"

definition session_state_get_previous_counter :: "session_state \<Rightarrow> u32" where
  "session_state_get_previous_counter state = ss_previous_counter state"

definition session_state_set_sender_chain ::
  "session_state \<Rightarrow> ec_key_pair \<Rightarrow> ratchet_chain_key \<Rightarrow> session_state" where
  "session_state_set_sender_chain state key_pair chain_key =
     state\<lparr>ss_has_sender_chain := True,
           ss_sender_chain := \<lparr>sender_ratchet_key_pair = Some key_pair,
                               sender_chain_key = Some chain_key\<rparr>\<rparr>"

definition session_state_get_sender_ratchet_key :: "session_state \<Rightarrow> ec_public_key option" where
  "session_state_get_sender_ratchet_key state =
     map_option public_key (sender_ratchet_key_pair (ss_sender_chain state))"

definition session_state_get_sender_ratchet_key_pair :: "session_state \<Rightarrow> ec_key_pair option" where
  "session_state_get_sender_ratchet_key_pair state = sender_ratchet_key_pair (ss_sender_chain state)"

definition session_state_get_sender_chain_key :: "session_state \<Rightarrow> ratchet_chain_key option" where
  "session_state_get_sender_chain_key state = sender_chain_key (ss_sender_chain state)"

definition session_state_set_sender_chain_key ::
  "session_state \<Rightarrow> ratchet_chain_key \<Rightarrow> session_state result" where
  "session_state_set_sender_chain_key state chain_key =
     (if ss_has_sender_chain state
      then Inr (state\<lparr>ss_sender_chain := ss_sender_chain state\<lparr>sender_chain_key := Some chain_key\<rparr>\<rparr>)
      else Inl SG_ERR_UNKNOWN)"

definition session_state_has_sender_chain :: "session_state \<Rightarrow> bool" where
  "session_state_has_sender_chain state = ss_has_sender_chain state"

text \<open>A receiving chain is found by its ratchet key; updates act on the first match.\<close>

definition chain_matches :: "ec_public_key \<Rightarrow> session_state_receiver_chain \<Rightarrow> bool" where
  "chain_matches sender_ephemeral chain \<longleftrightarrow>
     ec_public_key_compare (sender_ratchet_key chain) (Some sender_ephemeral) = 0"

definition session_state_find_receiver_chain ::
  "session_state \<Rightarrow> ec_public_key \<Rightarrow> session_state_receiver_chain option" where
  "session_state_find_receiver_chain state sender_ephemeral =
     find (chain_matches sender_ephemeral) (ss_receiver_chains state)"

definition update_receiver_chain ::
  "session_state \<Rightarrow> ec_public_key \<Rightarrow> (session_state_receiver_chain \<Rightarrow> session_state_receiver_chain) \<Rightarrow>
     session_state" where
  "update_receiver_chain state sender_ephemeral f =
     state\<lparr>ss_receiver_chains :=
             update_first (chain_matches sender_ephemeral) f (ss_receiver_chains state)\<rparr>"

definition session_state_has_message_keys :: "session_state \<Rightarrow> ec_public_key \<Rightarrow> u32 \<Rightarrow> bool" where
  "session_state_has_message_keys state sender_ephemeral counter =
     (case session_state_find_receiver_chain state sender_ephemeral of
        None \<Rightarrow> False
      | Some chain \<Rightarrow> list_ex (\<lambda>mk. mk_counter mk = counter) (message_keys chain))"

definition session_state_remove_message_keys ::
  "session_state \<Rightarrow> ec_public_key \<Rightarrow> u32 \<Rightarrow> ratchet_message_keys option \<times> session_state" where
  "session_state_remove_message_keys state sender_ephemeral counter =
     (case session_state_find_receiver_chain state sender_ephemeral of
        None \<Rightarrow> (None, state)
      | Some chain \<Rightarrow>
          (case remove_first (\<lambda>mk. mk_counter mk = counter) (message_keys chain) of
             None \<Rightarrow> (None, state)
           | Some (mk, mks) \<Rightarrow>
               (Some mk, update_receiver_chain state sender_ephemeral (\<lambda>c. c\<lparr>message_keys := mks\<rparr>))))"

definition message_keys_append ::
  "ratchet_message_keys list \<Rightarrow> ratchet_message_keys \<Rightarrow> ratchet_message_keys list" where
  "message_keys_append mks mk = trim_front MAX_MESSAGE_KEYS (mks @ [mk])"

definition session_state_set_message_keys ::
  "session_state \<Rightarrow> ec_public_key \<Rightarrow> ratchet_message_keys \<Rightarrow> session_state" where
  "session_state_set_message_keys state sender_ephemeral mk =
     (case session_state_find_receiver_chain state sender_ephemeral of
        None \<Rightarrow> state
      | Some chain \<Rightarrow>
          update_receiver_chain state sender_ephemeral
            (\<lambda>c. c\<lparr>message_keys := message_keys_append (message_keys c) mk\<rparr>))"

definition receiver_chains_append ::
  "session_state_receiver_chain list \<Rightarrow> session_state_receiver_chain \<Rightarrow>
     session_state_receiver_chain list" where
  "receiver_chains_append cs chain = trim_front MAX_RECEIVER_CHAINS (cs @ [chain])"

definition session_state_add_receiver_chain ::
  "session_state \<Rightarrow> ec_public_key \<Rightarrow> ratchet_chain_key \<Rightarrow> session_state" where
  "session_state_add_receiver_chain state ratchet_key chain_key =
     state\<lparr>ss_receiver_chains := receiver_chains_append (ss_receiver_chains state)
             \<lparr>sender_ratchet_key = Some ratchet_key, receiver_chain_key = Some chain_key,
              message_keys = []\<rparr>\<rparr>"

definition session_state_set_receiver_chain_key ::
  "session_state \<Rightarrow> ec_public_key \<Rightarrow> ratchet_chain_key \<Rightarrow> session_state result" where
  "session_state_set_receiver_chain_key state sender_ephemeral chain_key =
     (case session_state_find_receiver_chain state sender_ephemeral of
        None \<Rightarrow> Inl SG_ERR_UNKNOWN
      | Some node \<Rightarrow>
          Inr (update_receiver_chain state sender_ephemeral
                 (\<lambda>c. c\<lparr>receiver_chain_key := Some chain_key\<rparr>)))"

definition session_state_get_receiver_chain_key ::
  "session_state \<Rightarrow> ec_public_key \<Rightarrow> ratchet_chain_key option" where
  "session_state_get_receiver_chain_key state sender_ephemeral =
     (case session_state_find_receiver_chain state sender_ephemeral of
        None \<Rightarrow> None
      | Some node \<Rightarrow> receiver_chain_key node)"

definition session_state_set_pending_key_exchange ::
  "session_state \<Rightarrow> u32 \<Rightarrow> ec_key_pair \<Rightarrow> ec_key_pair \<Rightarrow> ratchet_identity_key_pair \<Rightarrow> session_state" where
  "session_state_set_pending_key_exchange state sequence our_base_key our_ratchet_key our_identity_key =
     state\<lparr>ss_has_pending_key_exchange := True,
           ss_pending_key_exchange :=
             \<lparr>pke_sequence = sequence, pke_local_base_key = Some our_base_key,
              pke_local_ratchet_key = Some our_ratchet_key,
              pke_local_identity_key = Some our_identity_key\<rparr>\<rparr>"

definition session_state_get_pending_key_exchange_sequence :: "session_state \<Rightarrow> u32" where
  "session_state_get_pending_key_exchange_sequence state =
     (if ss_has_pending_key_exchange state then pke_sequence (ss_pending_key_exchange state) else 0)"

definition session_state_get_pending_key_exchange_base_key :: "session_state \<Rightarrow> ec_key_pair option" where
  "session_state_get_pending_key_exchange_base_key state =
     (if ss_has_pending_key_exchange state then pke_local_base_key (ss_pending_key_exchange state)
      else None)"

definition session_state_get_pending_key_exchange_ratchet_key :: "session_state \<Rightarrow> ec_key_pair option" where
  "session_state_get_pending_key_exchange_ratchet_key state =
     (if ss_has_pending_key_exchange state then pke_local_ratchet_key (ss_pending_key_exchange state)
      else None)"

definition session_state_get_pending_key_exchange_identity_key ::
  "session_state \<Rightarrow> ratchet_identity_key_pair option" where
  "session_state_get_pending_key_exchange_identity_key state =
     (if ss_has_pending_key_exchange state then pke_local_identity_key (ss_pending_key_exchange state)
      else None)"

definition session_state_has_pending_key_exchange :: "session_state \<Rightarrow> bool" where
  "session_state_has_pending_key_exchange state = ss_has_pending_key_exchange state"

definition session_state_set_unacknowledged_pre_key_message ::
  "session_state \<Rightarrow> u32 option \<Rightarrow> u32 \<Rightarrow> ec_public_key \<Rightarrow> session_state" where
  "session_state_set_unacknowledged_pre_key_message state pre_key_id signed_pre_key_id base_key =
     state\<lparr>ss_has_pending_pre_key := True,
           ss_pending_pre_key :=
             \<lparr>ppk_has_pre_key_id = (pre_key_id \<noteq> None),
              ppk_pre_key_id = (case pre_key_id of None \<Rightarrow> 0 | Some i \<Rightarrow> i),
              ppk_signed_pre_key_id = signed_pre_key_id, ppk_base_key = Some base_key\<rparr>\<rparr>"

definition session_state_unacknowledged_pre_key_message_has_pre_key_id :: "session_state \<Rightarrow> bool" where
  "session_state_unacknowledged_pre_key_message_has_pre_key_id state =
     ppk_has_pre_key_id (ss_pending_pre_key state)"

definition session_state_unacknowledged_pre_key_message_get_pre_key_id :: "session_state \<Rightarrow> u32 result" where
  "session_state_unacknowledged_pre_key_message_get_pre_key_id state =
     (if ppk_has_pre_key_id (ss_pending_pre_key state)
      then Inr (ppk_pre_key_id (ss_pending_pre_key state)) else Inl SG_ABORT)"

definition session_state_unacknowledged_pre_key_message_get_signed_pre_key_id :: "session_state \<Rightarrow> u32" where
  "session_state_unacknowledged_pre_key_message_get_signed_pre_key_id state =
     ppk_signed_pre_key_id (ss_pending_pre_key state)"

definition session_state_unacknowledged_pre_key_message_get_base_key ::
  "session_state \<Rightarrow> ec_public_key option" where
  "session_state_unacknowledged_pre_key_message_get_base_key state =
     ppk_base_key (ss_pending_pre_key state)"

definition session_state_has_unacknowledged_pre_key_message :: "session_state \<Rightarrow> bool" where
  "session_state_has_unacknowledged_pre_key_message state = ss_has_pending_pre_key state"

definition session_state_clear_unacknowledged_pre_key_message :: "session_state \<Rightarrow> session_state" where
  "session_state_clear_unacknowledged_pre_key_message state =
     state\<lparr>ss_pending_pre_key := empty_pending_pre_key, ss_has_pending_pre_key := False\<rparr>"

definition session_state_set_remote_registration_id :: "session_state \<Rightarrow> u32 \<Rightarrow> session_state" where
  "session_state_set_remote_registration_id state i = state\<lparr>ss_remote_registration_id := i\<rparr>"

definition session_state_get_remote_registration_id :: "session_state \<Rightarrow> u32" where
  "session_state_get_remote_registration_id state = ss_remote_registration_id state"

definition session_state_set_local_registration_id :: "session_state \<Rightarrow> u32 \<Rightarrow> session_state" where
  "session_state_set_local_registration_id state i = state\<lparr>ss_local_registration_id := i\<rparr>"

definition session_state_get_local_registration_id :: "session_state \<Rightarrow> u32" where
  "session_state_get_local_registration_id state = ss_local_registration_id state"

definition session_state_set_needs_refresh :: "session_state \<Rightarrow> bool \<Rightarrow> session_state" where
  "session_state_set_needs_refresh state val = state\<lparr>ss_needs_refresh := val\<rparr>"

definition session_state_get_needs_refresh :: "session_state \<Rightarrow> bool" where
  "session_state_get_needs_refresh state = ss_needs_refresh state"

definition session_state_set_alice_base_key :: "session_state \<Rightarrow> ec_public_key \<Rightarrow> session_state" where
  "session_state_set_alice_base_key state key = state\<lparr>ss_alice_base_key := Some key\<rparr>"

definition session_state_get_alice_base_key :: "session_state \<Rightarrow> ec_public_key option" where
  "session_state_get_alice_base_key state = ss_alice_base_key state"

lemmas session_getter_defs =
  session_state_get_session_version_def session_state_get_local_identity_key_def
  session_state_get_remote_identity_key_def session_state_get_root_key_def
  session_state_get_previous_counter_def session_state_get_sender_ratchet_key_def
  session_state_get_sender_ratchet_key_pair_def session_state_get_sender_chain_key_def
  session_state_has_sender_chain_def session_state_has_pending_key_exchange_def
  session_state_unacknowledged_pre_key_message_has_pre_key_id_def
  session_state_unacknowledged_pre_key_message_get_signed_pre_key_id_def
  session_state_unacknowledged_pre_key_message_get_base_key_def
  session_state_has_unacknowledged_pre_key_message_def
  session_state_get_remote_registration_id_def session_state_get_local_registration_id_def
  session_state_get_needs_refresh_def session_state_get_alice_base_key_def

lemmas session_setter_defs =
  session_state_set_session_version_def session_state_set_local_identity_key_def
  session_state_set_remote_identity_key_def session_state_set_root_key_def
  session_state_set_previous_counter_def session_state_set_sender_chain_def
  session_state_set_pending_key_exchange_def
  session_state_set_unacknowledged_pre_key_message_def
  session_state_clear_unacknowledged_pre_key_message_def
  session_state_set_remote_registration_id_def session_state_set_local_registration_id_def
  session_state_set_needs_refresh_def session_state_set_alice_base_key_def

section \<open>The stored form\<close>

text \<open>The bytes of an unpacked field as a pointer: null when there are none.\<close>

definition bytes_ptr :: "bytes \<Rightarrow> bytes option" where
  "bytes_ptr bs = (if bs = [] then None else Some bs)"

definition session_state_serialize_prepare_message_keys ::
  "ratchet_message_keys \<Rightarrow> Textsecure__SessionStructure__Chain__MessageKey" where
  "session_state_serialize_prepare_message_keys mk =
     \<lparr>MessageKey_index = Some (mk_counter mk), MessageKey_cipherkey = Some (mk_cipher_key mk),
      MessageKey_mackey = Some (mk_mac_key mk), MessageKey_iv = Some (mk_iv mk)\<rparr>"

definition session_state_serialize_prepare_chain_chain_key ::
  "ratchet_chain_key \<Rightarrow> Textsecure__SessionStructure__Chain \<Rightarrow> Textsecure__SessionStructure__Chain" where
  "session_state_serialize_prepare_chain_chain_key chain_key chain_structure =
     chain_structure\<lparr>Chain_chainkey :=
       Some \<lparr>ChainKey_index = Some (ratchet_chain_key_get_index chain_key),
             ChainKey_key = Some (ratchet_chain_key_get_key_protobuf chain_key)\<rparr>\<rparr>"

definition session_state_serialize_prepare_sender_chain ::
  "session_state_sender_chain \<Rightarrow> Textsecure__SessionStructure__Chain" where
  "session_state_serialize_prepare_sender_chain chain =
     (let cs = textsecure__session_structure__chain__init;
          cs = (case sender_ratchet_key_pair chain of
                  None \<Rightarrow> cs
                | Some kp \<Rightarrow> cs\<lparr>Chain_senderratchetkey := Some (ec_public_key_serialize_protobuf (public_key kp)),
                                Chain_senderratchetkeyprivate :=
                                  Some (ec_private_key_serialize_protobuf (private_key kp))\<rparr>)
      in case sender_chain_key chain of
           None \<Rightarrow> cs
         | Some ck \<Rightarrow> session_state_serialize_prepare_chain_chain_key ck cs)"

definition session_state_serialize_prepare_receiver_chain ::
  "session_state_receiver_chain \<Rightarrow> Textsecure__SessionStructure__Chain" where
  "session_state_serialize_prepare_receiver_chain chain =
     (let cs = textsecure__session_structure__chain__init;
          cs = (case sender_ratchet_key chain of
                  None \<Rightarrow> cs
                | Some k \<Rightarrow> cs\<lparr>Chain_senderratchetkey := Some (ec_public_key_serialize_protobuf k)\<rparr>);
          cs = (case receiver_chain_key chain of
                  None \<Rightarrow> cs
                | Some ck \<Rightarrow> session_state_serialize_prepare_chain_chain_key ck cs)
      in cs\<lparr>Chain_messagekeys := map session_state_serialize_prepare_message_keys (message_keys chain)\<rparr>)"

definition session_state_serialize_prepare_pending_key_exchange ::
  "session_pending_key_exchange \<Rightarrow> Textsecure__SessionStructure__PendingKeyExchange" where
  "session_state_serialize_prepare_pending_key_exchange exchange =
     \<lparr>PendingKeyExchange_sequence = Some (pke_sequence exchange),
      PendingKeyExchange_localbasekey =
        map_option (\<lambda>kp. ec_public_key_serialize_protobuf (public_key kp)) (pke_local_base_key exchange),
      PendingKeyExchange_localbasekeyprivate =
        map_option (\<lambda>kp. ec_private_key_serialize_protobuf (private_key kp)) (pke_local_base_key exchange),
      PendingKeyExchange_localratchetkey =
        map_option (\<lambda>kp. ec_public_key_serialize_protobuf (public_key kp)) (pke_local_ratchet_key exchange),
      PendingKeyExchange_localratchetkeyprivate =
        map_option (\<lambda>kp. ec_private_key_serialize_protobuf (private_key kp)) (pke_local_ratchet_key exchange),
      PendingKeyExchange_localidentitykey =
        map_option (\<lambda>kp. ec_public_key_serialize_protobuf (identity_public_key kp))
          (pke_local_identity_key exchange),
      PendingKeyExchange_localidentitykeyprivate =
        map_option (\<lambda>kp. ec_private_key_serialize_protobuf (identity_private_key kp))
          (pke_local_identity_key exchange)\<rparr>"

definition session_state_serialize_prepare_pending_pre_key ::
  "session_pending_pre_key \<Rightarrow> Textsecure__SessionStructure__PendingPreKey" where
  "session_state_serialize_prepare_pending_pre_key pre_key =
     \<lparr>PendingPreKey_prekeyid = (if ppk_has_pre_key_id pre_key then Some (ppk_pre_key_id pre_key) else None),
      PendingPreKey_basekey = map_option ec_public_key_serialize_protobuf (ppk_base_key pre_key),
      PendingPreKey_signedprekeyid = Some (ppk_signed_pre_key_id pre_key)\<rparr>"

definition session_state_serialize_prepare :: "session_state \<Rightarrow> Textsecure__SessionStructure" where
  "session_state_serialize_prepare state =
     \<lparr>SessionStructure_sessionversion = Some (ss_session_version state),
      SessionStructure_localidentitypublic =
        map_option ec_public_key_serialize_protobuf (ss_local_identity_public state),
      SessionStructure_remoteidentitypublic =
        map_option ec_public_key_serialize_protobuf (ss_remote_identity_public state),
      SessionStructure_rootkey = map_option ratchet_root_key_get_key_protobuf (ss_root_key state),
      SessionStructure_previouscounter = Some (ss_previous_counter state),
      SessionStructure_senderchain =
        (if ss_has_sender_chain state
         then Some (session_state_serialize_prepare_sender_chain (ss_sender_chain state)) else None),
      SessionStructure_receiverchains =
        map session_state_serialize_prepare_receiver_chain (ss_receiver_chains state),
      SessionStructure_pendingkeyexchange =
        (if ss_has_pending_key_exchange state
         then Some (session_state_serialize_prepare_pending_key_exchange (ss_pending_key_exchange state))
         else None),
      SessionStructure_pendingprekey =
        (if ss_has_pending_pre_key state
         then Some (session_state_serialize_prepare_pending_pre_key (ss_pending_pre_key state)) else None),
      SessionStructure_remoteregistrationid = Some (ss_remote_registration_id state),
      SessionStructure_localregistrationid = Some (ss_local_registration_id state),
      SessionStructure_needsrefresh = Some (ss_needs_refresh state),
      SessionStructure_alicebasekey =
        map_option ec_public_key_serialize_protobuf (ss_alice_base_key state)\<rparr>"

definition session_state_serialize :: "session_state \<Rightarrow> bytes result" where
  "session_state_serialize state =
     (let state_structure = session_state_serialize_prepare state in
      checked_pack (textsecure__session_structure__get_packed_size state_structure)
        (textsecure__session_structure__pack state_structure))"

text \<open>Decoding of an optional field: absent fields decode to null.\<close>

definition decode_opt :: "('a \<Rightarrow> 'b result) \<Rightarrow> 'a option \<Rightarrow> 'b option result" where
  "decode_opt f x = (case x of None \<Rightarrow> Inr None | Some y \<Rightarrow> rbind (f y) (\<lambda>z. Inr (Some z)))"

definition decode_key_pair :: "bytes option \<Rightarrow> bytes option \<Rightarrow> ec_key_pair option result" where
  "decode_key_pair pub priv =
     (case (pub, priv) of
        (Some p, Some s) \<Rightarrow>
          rbind (curve_decode_point p) (\<lambda>pk.
          rbind (curve_decode_private_point s) (\<lambda>sk.
          Inr (Some (ec_key_pair_create pk sk))))
      | _ \<Rightarrow> Inr None)"

definition decode_chain_key ::
  "u32 \<Rightarrow> Textsecure__SessionStructure__Chain__ChainKey option \<Rightarrow> ratchet_chain_key option result" where
  "decode_chain_key session_version chainkey =
     (case chainkey of
        None \<Rightarrow> Inr None
      | Some c \<Rightarrow>
          (case (ChainKey_key c, ChainKey_index c) of
             (Some key, Some index) \<Rightarrow>
               rbind (hkdf_create (sint session_version)) (\<lambda>kdf.
               rbind (ratchet_chain_key_create (Some kdf) (bytes_ptr key) index) (\<lambda>ck.
               Inr (Some ck)))
           | _ \<Rightarrow> Inr None))"

definition session_state_deserialize_protobuf_pending_key_exchange ::
  "Textsecure__SessionStructure__PendingKeyExchange \<Rightarrow> session_pending_key_exchange result" where
  "session_state_deserialize_protobuf_pending_key_exchange es =
     rbind (decode_key_pair (PendingKeyExchange_localbasekey es)
              (PendingKeyExchange_localbasekeyprivate es)) (\<lambda>local_base_key.
     rbind (decode_key_pair (PendingKeyExchange_localratchetkey es)
              (PendingKeyExchange_localratchetkeyprivate es)) (\<lambda>local_ratchet_key.
     rbind (decode_key_pair (PendingKeyExchange_localidentitykey es)
              (PendingKeyExchange_localidentitykeyprivate es)) (\<lambda>local_identity_key.
     Inr \<lparr>pke_sequence = (case PendingKeyExchange_sequence es of None \<Rightarrow> 0 | Some n \<Rightarrow> n),
          pke_local_base_key = local_base_key, pke_local_ratchet_key = local_ratchet_key,
          pke_local_identity_key =
            map_option (\<lambda>kp. ratchet_identity_key_pair_create (public_key kp) (private_key kp))
              local_identity_key\<rparr>)))"

definition session_state_deserialize_protobuf_pending_pre_key ::
  "Textsecure__SessionStructure__PendingPreKey \<Rightarrow> session_pending_pre_key result" where
  "session_state_deserialize_protobuf_pending_pre_key ps =
     rbind (decode_opt curve_decode_point (PendingPreKey_basekey ps)) (\<lambda>base_key.
     Inr \<lparr>ppk_has_pre_key_id = (PendingPreKey_prekeyid ps \<noteq> None),
          ppk_pre_key_id = (case PendingPreKey_prekeyid ps of None \<Rightarrow> 0 | Some i \<Rightarrow> i),
          ppk_signed_pre_key_id = (case PendingPreKey_signedprekeyid ps of None \<Rightarrow> 0 | Some i \<Rightarrow> i),
          ppk_base_key = base_key\<rparr>)"

definition session_state_deserialize_protobuf_sender_chain ::
  "u32 \<Rightarrow> Textsecure__SessionStructure__Chain \<Rightarrow> session_state_sender_chain result" where
  "session_state_deserialize_protobuf_sender_chain session_version cs =
     rbind (decode_key_pair (Chain_senderratchetkey cs) (Chain_senderratchetkeyprivate cs)) (\<lambda>key_pair.
     rbind (decode_chain_key session_version (Chain_chainkey cs)) (\<lambda>chain_key.
     Inr \<lparr>sender_ratchet_key_pair = key_pair, sender_chain_key = chain_key\<rparr>))"

text \<open>A key field of another length than the array it is copied to leaves the array zero.\<close>

definition fixed_bytes :: "nat \<Rightarrow> bytes option \<Rightarrow> bytes" where
  "fixed_bytes n x =
     (case x of None \<Rightarrow> replicate n 0 | Some bs \<Rightarrow> if length bs = n then bs else replicate n 0)"

definition deserialize_message_keys ::
  "Textsecure__SessionStructure__Chain__MessageKey \<Rightarrow> ratchet_message_keys" where
  "deserialize_message_keys ks =
     \<lparr>mk_cipher_key = fixed_bytes RATCHET_CIPHER_KEY_LENGTH (MessageKey_cipherkey ks),
      mk_mac_key = fixed_bytes RATCHET_MAC_KEY_LENGTH (MessageKey_mackey ks),
      mk_iv = fixed_bytes RATCHET_IV_LENGTH (MessageKey_iv ks),
      mk_counter = (case MessageKey_index ks of None \<Rightarrow> 0 | Some i \<Rightarrow> i)\<rparr>"

definition session_state_deserialize_protobuf_receiver_chain ::
  "u32 \<Rightarrow> Textsecure__SessionStructure__Chain \<Rightarrow> session_state_receiver_chain result" where
  "session_state_deserialize_protobuf_receiver_chain session_version cs =
     rbind (decode_opt curve_decode_point (Chain_senderratchetkey cs)) (\<lambda>ratchet_key.
     rbind (decode_chain_key session_version (Chain_chainkey cs)) (\<lambda>chain_key.
     Inr \<lparr>sender_ratchet_key = ratchet_key, receiver_chain_key = chain_key,
          message_keys = map deserialize_message_keys (Chain_messagekeys cs)\<rparr>))"

text \<open>
  The return value of the sender-chain function is not looked at: when it fails, the
  chain stays empty, but the flag is set.
\<close>

definition session_state_deserialize_protobuf :: "Textsecure__SessionStructure \<Rightarrow> session_state result" where
  "session_state_deserialize_protobuf st =
     (let version = (case SessionStructure_sessionversion st of
                       None \<Rightarrow> ss_session_version session_state_create | Some v \<Rightarrow> v) in
      rbind (decode_opt curve_decode_point (SessionStructure_localidentitypublic st)) (\<lambda>local_identity.
      rbind (decode_opt curve_decode_point (SessionStructure_remoteidentitypublic st)) (\<lambda>remote_identity.
      rbind (decode_opt (\<lambda>key. rbind (hkdf_create (sint version)) (\<lambda>kdf.
               ratchet_root_key_create (Some kdf) (bytes_ptr key)))
               (SessionStructure_rootkey st)) (\<lambda>root_key.
      let sender_chain = (case SessionStructure_senderchain st of
             None \<Rightarrow> empty_sender_chain
           | Some cs \<Rightarrow>
               (case session_state_deserialize_protobuf_sender_chain version cs of
                  Inl e \<Rightarrow> empty_sender_chain
                | Inr chain \<Rightarrow> chain)) in
      rbind (mapM_result (session_state_deserialize_protobuf_receiver_chain version)
               (SessionStructure_receiverchains st)) (\<lambda>receiver_chains.
      rbind (decode_opt session_state_deserialize_protobuf_pending_key_exchange
               (SessionStructure_pendingkeyexchange st)) (\<lambda>key_exchange.
      rbind (decode_opt session_state_deserialize_protobuf_pending_pre_key
               (SessionStructure_pendingprekey st)) (\<lambda>pre_key.
      rbind (decode_opt curve_decode_point (SessionStructure_alicebasekey st)) (\<lambda>alice_base_key.
      Inr \<lparr>ss_session_version = version,
           ss_local_identity_public = local_identity,
           ss_remote_identity_public = remote_identity,
           ss_root_key = root_key,
           ss_previous_counter = (case SessionStructure_previouscounter st of None \<Rightarrow> 0 | Some n \<Rightarrow> n),
           ss_has_sender_chain = (SessionStructure_senderchain st \<noteq> None),
           ss_sender_chain = sender_chain,
           ss_receiver_chains = receiver_chains,
           ss_has_pending_key_exchange = (key_exchange \<noteq> None),
           ss_pending_key_exchange =
             (case key_exchange of None \<Rightarrow> empty_pending_key_exchange | Some x \<Rightarrow> x),
           ss_has_pending_pre_key = (pre_key \<noteq> None),
           ss_pending_pre_key = (case pre_key of None \<Rightarrow> empty_pending_pre_key | Some x \<Rightarrow> x),
           ss_remote_registration_id =
             (case SessionStructure_remoteregistrationid st of None \<Rightarrow> 0 | Some n \<Rightarrow> n),
           ss_local_registration_id =
             (case SessionStructure_localregistrationid st of None \<Rightarrow> 0 | Some n \<Rightarrow> n),
           ss_needs_refresh = (case SessionStructure_needsrefresh st of None \<Rightarrow> False | Some b \<Rightarrow> b),
           ss_alice_base_key = alice_base_key\<rparr>))))))))"

definition session_state_deserialize :: "bytes \<Rightarrow> session_state result" where
  "session_state_deserialize data =
     rbind (pb_result SG_ERR_INVALID_PROTO_BUF (textsecure__session_structure__unpack data))
       session_state_deserialize_protobuf"

definition session_state_copy :: "session_state \<Rightarrow> session_state result" where
  "session_state_copy other_state =
     rbind (session_state_serialize other_state) session_state_deserialize"

section \<open>The invariant\<close>

definition kdf_for :: "u32 \<Rightarrow> hkdf_context \<Rightarrow> bool" where
  "kdf_for version kdf \<longleftrightarrow> hkdf_create (sint version) = Inr kdf"

definition chain_key_fits :: "u32 \<Rightarrow> ratchet_chain_key \<Rightarrow> bool" where
  "chain_key_fits version ck \<longleftrightarrow> kdf_for version (ck_kdf ck) \<and> length (ck_key ck) = 32"

definition root_key_fits :: "u32 \<Rightarrow> ratchet_root_key \<Rightarrow> bool" where
  "root_key_fits version rk \<longleftrightarrow> kdf_for version (rk_kdf rk) \<and> length (rk_key rk) = 32"

definition sender_chain_ok :: "u32 \<Rightarrow> session_state_sender_chain \<Rightarrow> bool" where
  "sender_chain_ok version c \<longleftrightarrow>
     pred_option ec_key_pair_ok (sender_ratchet_key_pair c) \<and>
     pred_option (chain_key_fits version) (sender_chain_key c)"

definition receiver_chain_ok :: "u32 \<Rightarrow> session_state_receiver_chain \<Rightarrow> bool" where
  "receiver_chain_ok version c \<longleftrightarrow>
     pred_option ec_public_key_ok (sender_ratchet_key c) \<and>
     pred_option (chain_key_fits version) (receiver_chain_key c) \<and>
     list_all message_keys_ok (message_keys c) \<and> length (message_keys c) \<le> MAX_MESSAGE_KEYS"

definition pending_key_exchange_ok :: "session_pending_key_exchange \<Rightarrow> bool" where
  "pending_key_exchange_ok e \<longleftrightarrow>
     pred_option ec_key_pair_ok (pke_local_base_key e) \<and>
     pred_option ec_key_pair_ok (pke_local_ratchet_key e) \<and>
     pred_option identity_key_pair_ok (pke_local_identity_key e)"

definition pending_pre_key_ok :: "session_pending_pre_key \<Rightarrow> bool" where
  "pending_pre_key_ok p \<longleftrightarrow>
     pred_option ec_public_key_ok (ppk_base_key p) \<and>
     (\<not> ppk_has_pre_key_id p \<longrightarrow> ppk_pre_key_id p = 0)"

definition session_state_ok :: "session_state \<Rightarrow> bool" where
  "session_state_ok s \<longleftrightarrow>
     pred_option ec_public_key_ok (ss_local_identity_public s) \<and>
     pred_option ec_public_key_ok (ss_remote_identity_public s) \<and>
     pred_option ec_public_key_ok (ss_alice_base_key s) \<and>
     pred_option (root_key_fits (ss_session_version s)) (ss_root_key s) \<and>
     sender_chain_ok (ss_session_version s) (ss_sender_chain s) \<and>
     (\<not> ss_has_sender_chain s \<longrightarrow> ss_sender_chain s = empty_sender_chain) \<and>
     list_all (receiver_chain_ok (ss_session_version s)) (ss_receiver_chains s) \<and>
     length (ss_receiver_chains s) \<le> MAX_RECEIVER_CHAINS \<and>
     pending_key_exchange_ok (ss_pending_key_exchange s) \<and>
     (\<not> ss_has_pending_key_exchange s \<longrightarrow> ss_pending_key_exchange s = empty_pending_key_exchange) \<and>
     pending_pre_key_ok (ss_pending_pre_key s) \<and>
     (\<not> ss_has_pending_pre_key s \<longrightarrow> ss_pending_pre_key s = empty_pending_pre_key)"

lemmas session_ok_defs =
  sender_chain_ok_def receiver_chain_ok_def pending_key_exchange_ok_def pending_pre_key_ok_def

interpretation mkq: bounded_queue MAX_MESSAGE_KEYS message_keys_append
  by unfold_locales
    (simp_all add: message_keys_append_def trim_front_drop MAX_MESSAGE_KEYS_def)

interpretation rcq: bounded_queue MAX_RECEIVER_CHAINS receiver_chains_append
  by unfold_locales
    (simp_all add: receiver_chains_append_def trim_front_drop MAX_RECEIVER_CHAINS_def)

interpretation session_chain: message_chain MAX_MESSAGE_KEYS message_keys_append ck_index "chain_next mac"
  "chain_message_keys mac" mk_counter for mac
  by unfold_locales
    (simp_all add: MAX_MESSAGE_KEYS_def chain_next_def chain_message_keys_def Let_def)

section \<open>Updates keep the invariant\<close>

lemma update_receiver_chain_ok:
  assumes "session_state_ok s"
    "\<And>c. c \<in> set (ss_receiver_chains s) \<Longrightarrow> receiver_chain_ok (ss_session_version s) c \<Longrightarrow>
      receiver_chain_ok (ss_session_version s) (f c)"
  shows "session_state_ok (update_receiver_chain s k f)"
  using assms by (simp add: session_state_ok_def update_receiver_chain_def update_first_list_all)

lemma session_state_create_ok: "session_state_ok session_state_create"
  by (simp add: session_state_ok_def session_empty_defs session_ok_defs)

lemma set_message_keys_ok:
  assumes "session_state_ok s" "message_keys_ok mk"
  shows "session_state_ok (session_state_set_message_keys s k mk)"
proof -
  have "receiver_chain_ok v (c\<lparr>message_keys := message_keys_append (message_keys c) mk\<rparr>)"
    if "receiver_chain_ok v c" for v c
    using that assms(2) mkq.push_set [of "message_keys c" mk] mkq.push_bounded [of "message_keys c" mk]
    by (auto simp: receiver_chain_ok_def list_all_iff)
  then show ?thesis
    using assms(1)
    by (auto simp: session_state_set_message_keys_def split: option.split
        intro!: update_receiver_chain_ok)
qed

lemma remove_message_keys_ok:
  assumes "session_state_ok s" "session_state_remove_message_keys s k n = (r, s')"
  shows "session_state_ok s' \<and> pred_option message_keys_ok r"
proof (cases "session_state_find_receiver_chain s k")
  case None
  then show ?thesis
    using assms by (simp add: session_state_remove_message_keys_def)
next
  case (Some chain)
  then have chain: "receiver_chain_ok (ss_session_version s) chain"
    using assms(1)
    by (auto simp: session_state_find_receiver_chain_def session_state_ok_def list_all_iff dest!: find_set)
  show ?thesis
  proof (cases "remove_first (\<lambda>mk. mk_counter mk = n) (message_keys chain)")
    case None
    then show ?thesis
      using assms Some by (simp add: session_state_remove_message_keys_def)
  next
    case (Some x)
    obtain mk mks where x: "x = (mk, mks)"
      by fastforce
    have mks: "list_all message_keys_ok mks" "length mks \<le> MAX_MESSAGE_KEYS" "message_keys_ok mk"
      using remove_first_Some [OF Some [unfolded x]] chain
      by (auto simp: receiver_chain_ok_def list_all_iff)
    then have "session_state_ok (update_receiver_chain s k (\<lambda>c. c\<lparr>message_keys := mks\<rparr>))"
      using assms(1) by (intro update_receiver_chain_ok) (simp_all add: receiver_chain_ok_def)
    then show ?thesis
      using assms(2) Some x mks(3) \<open>session_state_find_receiver_chain s k = Some chain\<close>
      by (auto simp: session_state_remove_message_keys_def)
  qed
qed

lemma add_receiver_chain_ok:
  assumes "session_state_ok s" "ec_public_key_ok k" "chain_key_fits (ss_session_version s) ck"
  shows "session_state_ok (session_state_add_receiver_chain s k ck)"
  using assms rcq.push_set [of "ss_receiver_chains s"] rcq.push_bounded [of "ss_receiver_chains s"]
  by (fastforce simp: session_state_ok_def session_state_add_receiver_chain_def list_all_iff
      receiver_chain_ok_def)

lemma set_receiver_chain_key_ok:
  assumes "session_state_ok s" "chain_key_fits (ss_session_version s) ck"
    "session_state_set_receiver_chain_key s k ck = Inr s'"
  shows "session_state_ok s'"
  using assms
  by (auto simp: session_state_set_receiver_chain_key_def receiver_chain_ok_def
      split: option.splits intro!: update_receiver_chain_ok)

lemma set_sender_chain_key_ok:
  assumes "session_state_ok s" "chain_key_fits (ss_session_version s) ck"
    "session_state_set_sender_chain_key s ck = Inr s'"
  shows "session_state_ok s'"
  using assms
  by (auto simp: session_state_set_sender_chain_key_def session_state_ok_def sender_chain_ok_def
      split: if_splits)

lemma set_sender_chain_ok:
  assumes "session_state_ok s" "ec_key_pair_ok kp" "chain_key_fits (ss_session_version s) ck"
  shows "session_state_ok (session_state_set_sender_chain s kp ck)"
  using assms by (simp add: session_state_set_sender_chain_def session_state_ok_def sender_chain_ok_def)

lemma session_setters_ok:
  assumes "session_state_ok s"
  shows "ec_public_key_ok k \<Longrightarrow> session_state_ok (session_state_set_local_identity_key s k)"
    and "ec_public_key_ok k \<Longrightarrow> session_state_ok (session_state_set_remote_identity_key s k)"
    and "ec_public_key_ok k \<Longrightarrow> session_state_ok (session_state_set_alice_base_key s k)"
    and "root_key_fits (ss_session_version s) rk \<Longrightarrow> session_state_ok (session_state_set_root_key s rk)"
    and "session_state_ok (session_state_set_previous_counter s n)"
    and "ec_public_key_ok k \<Longrightarrow>
      session_state_ok (session_state_set_unacknowledged_pre_key_message s pid sid k)"
    and "session_state_ok (session_state_clear_unacknowledged_pre_key_message s)"
    and "session_state_ok (session_state_set_remote_registration_id s i)"
    and "session_state_ok (session_state_set_local_registration_id s i)"
    and "session_state_ok (session_state_set_needs_refresh s b)"
    and "ec_key_pair_ok bk \<Longrightarrow> ec_key_pair_ok tk \<Longrightarrow> identity_key_pair_ok ik \<Longrightarrow>
      session_state_ok (session_state_set_pending_key_exchange s n bk tk ik)"
  using assms
  by (simp_all add: session_setter_defs session_state_ok_def pending_pre_key_ok_def
      pending_key_exchange_ok_def empty_pending_pre_key_def split: option.split)

section \<open>Storing and loading a state\<close>

lemma decode_opt_map:
  "(\<And>y. x = Some y \<Longrightarrow> f (g y) = Inr y) \<Longrightarrow> decode_opt f (map_option g x) = Inr x"
  by (cases x) (simp_all add: decode_opt_def)

lemma decode_opt_None [simp]: "decode_opt f None = Inr None"
  by (simp add: decode_opt_def)

lemma decode_opt_Some [simp]: "decode_opt f (Some y) = rbind (f y) (\<lambda>z. Inr (Some z))"
  by (simp add: decode_opt_def)

lemma decode_public_key_opt:
  "pred_option ec_public_key_ok k \<Longrightarrow>
    decode_opt curve_decode_point (map_option ec_public_key_serialize_protobuf k) = Inr k"
  by (rule decode_opt_map) auto

lemma decode_chain_key_fits:
  assumes "chain_key_fits v ck"
  shows "decode_chain_key v
      (Some \<lparr>ChainKey_index = Some (ck_index ck), ChainKey_key = Some (ck_key ck)\<rparr>) = Inr (Some ck)"
  using assms
  by (auto simp: decode_chain_key_def chain_key_fits_def kdf_for_def bytes_ptr_def
      ratchet_chain_key_create_def)

lemma sender_chain_roundtrip:
  assumes "sender_chain_ok v c"
  shows "session_state_deserialize_protobuf_sender_chain v
    (session_state_serialize_prepare_sender_chain c) = Inr c"
  using assms
  by (cases "sender_ratchet_key_pair c"; cases "sender_chain_key c")
    (auto simp: session_state_deserialize_protobuf_sender_chain_def
      session_state_serialize_prepare_sender_chain_def Let_def sender_chain_ok_def
      session_state_serialize_prepare_chain_chain_key_def ratchet_chain_key_get_index_def
      ratchet_chain_key_get_key_protobuf_def textsecure__session_structure__chain__init_def
      decode_chain_key_fits decode_chain_key_def [of _ None] decode_key_pair_def ec_key_pair_create_def
      ec_key_pair_ok_def)

lemma message_keys_roundtrip:
  "message_keys_ok mk \<Longrightarrow> deserialize_message_keys (session_state_serialize_prepare_message_keys mk) = mk"
  by (simp add: deserialize_message_keys_def session_state_serialize_prepare_message_keys_def
      fixed_bytes_def message_keys_ok_def)

lemma receiver_chain_roundtrip:
  assumes "receiver_chain_ok v c"
  shows "session_state_deserialize_protobuf_receiver_chain v
    (session_state_serialize_prepare_receiver_chain c) = Inr c"
proof -
  have "map (deserialize_message_keys \<circ> session_state_serialize_prepare_message_keys) (message_keys c) =
      message_keys c"
    using assms by (intro map_idI) (auto simp: receiver_chain_ok_def list_all_iff message_keys_roundtrip)
  then show ?thesis
    using assms
    by (cases "sender_ratchet_key c"; cases "receiver_chain_key c")
      (auto simp: session_state_deserialize_protobuf_receiver_chain_def
        session_state_serialize_prepare_receiver_chain_def Let_def receiver_chain_ok_def
        session_state_serialize_prepare_chain_chain_key_def ratchet_chain_key_get_index_def
        ratchet_chain_key_get_key_protobuf_def textsecure__session_structure__chain__init_def
        decode_chain_key_fits decode_chain_key_def [of _ None])
qed

lemma pending_key_exchange_roundtrip:
  assumes "pending_key_exchange_ok e"
  shows "session_state_deserialize_protobuf_pending_key_exchange
    (session_state_serialize_prepare_pending_key_exchange e) = Inr e"
  using assms
  by (cases "pke_local_base_key e"; cases "pke_local_ratchet_key e"; cases "pke_local_identity_key e")
    (simp_all add: session_state_deserialize_protobuf_pending_key_exchange_def
      session_state_serialize_prepare_pending_key_exchange_def pending_key_exchange_ok_def
      decode_key_pair_def ec_key_pair_create_def ec_key_pair_ok_def identity_key_pair_ok_def
      ratchet_identity_key_pair_create_def)

lemma pending_pre_key_roundtrip:
  assumes "pending_pre_key_ok p"
  shows "session_state_deserialize_protobuf_pending_pre_key
    (session_state_serialize_prepare_pending_pre_key p) = Inr p"
  using assms
  by (cases p)
    (auto simp: session_state_deserialize_protobuf_pending_pre_key_def
      session_state_serialize_prepare_pending_pre_key_def pending_pre_key_ok_def decode_public_key_opt)

lemma session_state_protobuf_roundtrip:
  assumes "session_state_ok s"
  shows "session_state_deserialize_protobuf (session_state_serialize_prepare s) = Inr s"
proof -
  have root: "decode_opt (\<lambda>key. rbind (hkdf_create (sint (ss_session_version s)))
        (\<lambda>kdf. ratchet_root_key_create (Some kdf) (bytes_ptr key)))
      (map_option ratchet_root_key_get_key_protobuf (ss_root_key s)) = Inr (ss_root_key s)"
    using assms
    by (intro decode_opt_map)
      (auto simp: session_state_ok_def root_key_fits_def kdf_for_def bytes_ptr_def
        ratchet_root_key_create_def ratchet_root_key_get_key_protobuf_def)
  have receivers: "mapM_result (session_state_deserialize_protobuf_receiver_chain (ss_session_version s))
      (map session_state_serialize_prepare_receiver_chain (ss_receiver_chains s)) =
      Inr (ss_receiver_chains s)"
    using assms
      mapM_result_map [of "ss_receiver_chains s"
        "session_state_deserialize_protobuf_receiver_chain (ss_session_version s)"
        session_state_serialize_prepare_receiver_chain "\<lambda>x. x"]
    by (simp add: session_state_ok_def list_all_iff receiver_chain_roundtrip)
  show ?thesis
    using assms root receivers
    by (cases s)
      (auto simp: session_state_deserialize_protobuf_def session_state_serialize_prepare_def
        Let_def session_state_ok_def decode_public_key_opt sender_chain_roundtrip
        pending_key_exchange_roundtrip pending_pre_key_roundtrip)
qed

text \<open>A state that satisfies the invariant is stored in less than \<open>2 ^ 21\<close> bytes.\<close>

lemma message_key_size:
  assumes "message_keys_ok mk"
  shows "protobuf_c_message_get_packed_size
    (MessageKey_to_msg (session_state_serialize_prepare_message_keys mk)) \<le> 120"
  using MessageKey_size [of "session_state_serialize_prepare_message_keys mk"] assms
  by (simp add: session_state_serialize_prepare_message_keys_def message_keys_ok_def ratchet_constants)

lemma chain_key_structure_size:
  assumes "chain_key_fits v ck"
  shows "protobuf_c_message_get_packed_size (ChainKey_to_msg
    \<lparr>ChainKey_index = Some (ck_index ck), ChainKey_key = Some (ck_key ck)\<rparr>) \<le> 52"
  using ChainKey_size [of "\<lparr>ChainKey_index = Some (ck_index ck), ChainKey_key = Some (ck_key ck)\<rparr>"] assms
  by (simp add: chain_key_fits_def)

lemmas serialized_key_lengths =
  ec_public_key_serialize_protobuf_def ec_private_key_serialize_protobuf_def
  ec_public_key_ok_def ec_private_key_ok_def ec_key_pair_ok_def identity_key_pair_ok_def
  curve_constants

lemma sender_chain_size:
  assumes "sender_chain_ok v c"
  shows "protobuf_c_message_get_packed_size
    (Chain_to_msg (session_state_serialize_prepare_sender_chain c)) \<le> 200"
  using Chain_size [of "session_state_serialize_prepare_sender_chain c"] assms
    chain_key_structure_size [of v "the (sender_chain_key c)"]
  by (cases "sender_ratchet_key_pair c"; cases "sender_chain_key c")
    (simp_all add: session_state_serialize_prepare_sender_chain_def Let_def sender_chain_ok_def
      session_state_serialize_prepare_chain_chain_key_def ratchet_chain_key_get_index_def
      ratchet_chain_key_get_key_protobuf_def textsecure__session_structure__chain__init_def
      serialized_key_lengths)

lemma receiver_chain_size:
  assumes "receiver_chain_ok v c"
  shows "protobuf_c_message_get_packed_size
    (Chain_to_msg (session_state_serialize_prepare_receiver_chain c)) \<le> 260200"
proof -
  have "sum_list (map (\<lambda>y. 10 + protobuf_c_message_get_packed_size (MessageKey_to_msg y))
      (map session_state_serialize_prepare_message_keys (message_keys c))) \<le> 2000 * 130"
    using assms
    by (intro sum_list_map_le)
      (auto simp: receiver_chain_ok_def list_all_iff MAX_MESSAGE_KEYS_def dest: message_key_size)
  then show ?thesis
    using Chain_size [of "session_state_serialize_prepare_receiver_chain c"] assms
      chain_key_structure_size [of v "the (receiver_chain_key c)"]
    by (cases "sender_ratchet_key c"; cases "receiver_chain_key c")
      (simp_all add: session_state_serialize_prepare_receiver_chain_def Let_def receiver_chain_ok_def
        session_state_serialize_prepare_chain_chain_key_def ratchet_chain_key_get_index_def
        ratchet_chain_key_get_key_protobuf_def textsecure__session_structure__chain__init_def
        serialized_key_lengths)
qed

lemma pending_key_exchange_size:
  assumes "pending_key_exchange_ok e"
  shows "protobuf_c_message_get_packed_size
    (PendingKeyExchange_to_msg (session_state_serialize_prepare_pending_key_exchange e)) \<le> 300"
  using PendingKeyExchange_size [of "session_state_serialize_prepare_pending_key_exchange e"] assms
  by (cases "pke_local_base_key e"; cases "pke_local_ratchet_key e"; cases "pke_local_identity_key e")
    (simp_all add: session_state_serialize_prepare_pending_key_exchange_def pending_key_exchange_ok_def
      serialized_key_lengths)

lemma pending_pre_key_size:
  assumes "pending_pre_key_ok p"
  shows "protobuf_c_message_get_packed_size
    (PendingPreKey_to_msg (session_state_serialize_prepare_pending_pre_key p)) \<le> 100"
  using PendingPreKey_size [of "session_state_serialize_prepare_pending_pre_key p"] assms
  by (cases "ppk_base_key p")
    (simp_all add: session_state_serialize_prepare_pending_pre_key_def pending_pre_key_ok_def
      serialized_key_lengths)

lemma session_structure_size:
  assumes "session_state_ok s"
  shows "textsecure__session_structure__get_packed_size (session_state_serialize_prepare s) < 2 ^ 21"
proof -
  let ?m = "session_state_serialize_prepare s"
  have "sum_list (map (\<lambda>y. 10 + protobuf_c_message_get_packed_size (Chain_to_msg y))
      (map session_state_serialize_prepare_receiver_chain (ss_receiver_chains s))) \<le> 5 * 260210"
  proof (rule sum_list_map_le)
    fix y
    assume "y \<in> set (map session_state_serialize_prepare_receiver_chain (ss_receiver_chains s))"
    then obtain c where "c \<in> set (ss_receiver_chains s)" "y = session_state_serialize_prepare_receiver_chain c"
      by auto
    then show "10 + protobuf_c_message_get_packed_size (Chain_to_msg y) \<le> 260210"
      using assms receiver_chain_size [of "ss_session_version s" c]
      by (simp add: session_state_ok_def list_all_iff)
  qed (use assms in \<open>simp add: session_state_ok_def MAX_RECEIVER_CHAINS_def\<close>)
  then have receivers: "sum_list (map (\<lambda>y. 10 + protobuf_c_message_get_packed_size (Chain_to_msg y))
      (SessionStructure_receiverchains ?m)) \<le> 5 * 260210"
    by (simp add: session_state_serialize_prepare_def)
  have "bytes_len (map_option ec_public_key_serialize_protobuf k) \<le> 33"
    if "pred_option ec_public_key_ok k" for k
    using that by (cases k) (simp_all add: serialized_key_lengths)
  then have keys: "bytes_len (SessionStructure_localidentitypublic ?m) \<le> 33"
    "bytes_len (SessionStructure_remoteidentitypublic ?m) \<le> 33"
    "bytes_len (SessionStructure_alicebasekey ?m) \<le> 33"
    using assms by (simp_all add: session_state_serialize_prepare_def session_state_ok_def)
  have root: "bytes_len (SessionStructure_rootkey ?m) \<le> 32"
    using assms
    by (cases "ss_root_key s")
      (simp_all add: session_state_serialize_prepare_def ratchet_root_key_get_key_protobuf_def
        session_state_ok_def root_key_fits_def)
  have sender: "(case SessionStructure_senderchain ?m of None \<Rightarrow> 0
      | Some y \<Rightarrow> 10 + protobuf_c_message_get_packed_size (Chain_to_msg y)) \<le> 210"
    using assms sender_chain_size [of "ss_session_version s" "ss_sender_chain s"]
    by (simp add: session_state_serialize_prepare_def session_state_ok_def)
  have exchange: "(case SessionStructure_pendingkeyexchange ?m of None \<Rightarrow> 0
      | Some y \<Rightarrow> 10 + protobuf_c_message_get_packed_size (PendingKeyExchange_to_msg y)) \<le> 310"
    using assms pending_key_exchange_size [of "ss_pending_key_exchange s"]
    by (simp add: session_state_serialize_prepare_def session_state_ok_def)
  have pre_key: "(case SessionStructure_pendingprekey ?m of None \<Rightarrow> 0
      | Some y \<Rightarrow> 10 + protobuf_c_message_get_packed_size (PendingPreKey_to_msg y)) \<le> 110"
    using assms pending_pre_key_size [of "ss_pending_pre_key s"]
    by (simp add: session_state_serialize_prepare_def session_state_ok_def)
  have "textsecure__session_structure__get_packed_size ?m < 2097152"
    unfolding textsecure__session_structure__get_packed_size_def
    using SessionStructure_size [of ?m] receivers keys root sender exchange pre_key by linarith
  then show ?thesis
    by simp
qed

lemma session_state_serialize_eq:
  "session_state_serialize s = Inr (textsecure__session_structure__pack (session_state_serialize_prepare s))"
  by (simp add: session_state_serialize_def checked_pack_def)

lemma session_state_copy_id:
  assumes "session_state_ok s"
  shows "session_state_copy s = Inr s"
  using session_structure_size [OF assms] session_state_protobuf_roundtrip [OF assms]
  by (simp add: session_state_copy_def session_state_serialize_eq session_state_deserialize_def
      textsecure__session_structure__roundtrip)

end
