(* ===== verification/Session_Record.thy ===== *)
theory Session_Record
  imports Session_State
begin

text \<open>
  \<open>session_record.c\<close>: the current session state of a peer with up to 40 archived states,
  newest first, and its stored form. The lemmas: operations keep the invariant, archived
  states form a bounded history, and \<open>session_record_copy\<close> gives the same record
  (without the freshness mark, which is not stored).
\<close>

definition ARCHIVED_STATES_MAX_LENGTH :: nat where "ARCHIVED_STATES_MAX_LENGTH = 40"

record session_record =
  sr_state :: session_state
  sr_previous_states :: "session_state list"
  sr_is_fresh :: bool
  sr_user_record :: "bytes option"

definition session_record_create :: "session_state option \<Rightarrow> session_record" where
  "session_record_create state =
     (case state of
        None \<Rightarrow> \<lparr>sr_state = session_state_create, sr_previous_states = [], sr_is_fresh = True,
                 sr_user_record = None\<rparr>
      | Some s \<Rightarrow> \<lparr>sr_state = s, sr_previous_states = [], sr_is_fresh = False,
                   sr_user_record = None\<rparr>)"

definition session_record_serialize :: "session_record option \<Rightarrow> bytes result" where
  "session_record_serialize record_ptr =
     (case record_ptr of
        None \<Rightarrow> Inl SG_ERR_INVAL
      | Some r \<Rightarrow>
          let record_structure = textsecure__record_structure__init
                \<lparr>RecordStructure_currentsession := Some (session_state_serialize_prepare (sr_state r)),
                 RecordStructure_previoussessions :=
                   map session_state_serialize_prepare (sr_previous_states r)\<rparr>
          in checked_pack (textsecure__record_structure__get_packed_size record_structure)
               (textsecure__record_structure__pack record_structure))"

definition session_record_deserialize :: "bytes \<Rightarrow> session_record result" where
  "session_record_deserialize data =
     rbind (pb_result SG_ERR_INVALID_PROTO_BUF (textsecure__record_structure__unpack data))
       (\<lambda>record_structure.
     rbind (decode_opt session_state_deserialize_protobuf
              (RecordStructure_currentsession record_structure)) (\<lambda>current_state.
     let result_record = (session_record_create current_state)\<lparr>sr_is_fresh := False\<rparr> in
     rbind (mapM_result session_state_deserialize_protobuf
              (RecordStructure_previoussessions record_structure)) (\<lambda>previous_states.
     Inr (result_record\<lparr>sr_previous_states := previous_states\<rparr>))))"

definition session_record_copy :: "session_record \<Rightarrow> session_record result" where
  "session_record_copy other_record =
     rbind (session_record_serialize (Some other_record)) (\<lambda>buffer.
     rbind (session_record_deserialize buffer) (\<lambda>result_record.
     Inr (case sr_user_record other_record of
            None \<Rightarrow> result_record
          | Some u \<Rightarrow> result_record\<lparr>sr_user_record := Some u\<rparr>)))"

definition state_is :: "u32 \<Rightarrow> ec_public_key option \<Rightarrow> session_state \<Rightarrow> bool" where
  "state_is version alice_base_key s \<longleftrightarrow>
     session_state_get_session_version s = version \<and>
     ec_public_key_compare (session_state_get_alice_base_key s) alice_base_key = 0"

definition session_record_has_session_state ::
  "session_record \<Rightarrow> u32 \<Rightarrow> ec_public_key option \<Rightarrow> bool" where
  "session_record_has_session_state r version alice_base_key =
     (state_is version alice_base_key (sr_state r) \<or>
      list_ex (state_is version alice_base_key) (sr_previous_states r))"

definition session_record_get_state :: "session_record \<Rightarrow> session_state" where
  "session_record_get_state r = sr_state r"

definition session_record_set_state :: "session_record \<Rightarrow> session_state \<Rightarrow> session_record" where
  "session_record_set_state r state = r\<lparr>sr_state := state\<rparr>"

text \<open>A node of the list of previous states is its index.\<close>

definition session_record_get_previous_states_remove :: "session_record \<Rightarrow> nat \<Rightarrow> session_record" where
  "session_record_get_previous_states_remove r i =
     r\<lparr>sr_previous_states := take i (sr_previous_states r) @ drop (Suc i) (sr_previous_states r)\<rparr>"

definition session_record_is_fresh :: "session_record \<Rightarrow> bool" where
  "session_record_is_fresh r = sr_is_fresh r"

definition session_record_promote_state :: "session_record \<Rightarrow> session_state \<Rightarrow> session_record" where
  "session_record_promote_state r promoted_state =
     r\<lparr>sr_previous_states := take ARCHIVED_STATES_MAX_LENGTH (sr_state r # sr_previous_states r),
       sr_state := promoted_state\<rparr>"

definition session_record_archive_current_state :: "session_record \<Rightarrow> session_record" where
  "session_record_archive_current_state r = session_record_promote_state r session_state_create"

definition session_record_get_user_record :: "session_record \<Rightarrow> bytes option" where
  "session_record_get_user_record r = sr_user_record r"

definition session_record_set_user_record :: "session_record \<Rightarrow> bytes option \<Rightarrow> session_record" where
  "session_record_set_user_record r u = r\<lparr>sr_user_record := u\<rparr>"

section \<open>The invariant\<close>

definition session_record_ok :: "session_record \<Rightarrow> bool" where
  "session_record_ok r \<longleftrightarrow>
     session_state_ok (sr_state r) \<and> list_all session_state_ok (sr_previous_states r) \<and>
     length (sr_previous_states r) \<le> ARCHIVED_STATES_MAX_LENGTH"

lemma session_record_create_ok: "pred_option session_state_ok s \<Longrightarrow> session_record_ok (session_record_create s)"
  by (cases s) (simp_all add: session_record_create_def session_record_ok_def session_state_create_ok)

lemma promote_state_ok:
  assumes "session_record_ok r" "session_state_ok s"
  shows "session_record_ok (session_record_promote_state r s)"
  using assms list_all_take [of session_state_ok "sr_state r # sr_previous_states r" ARCHIVED_STATES_MAX_LENGTH]
  by (simp add: session_record_ok_def session_record_promote_state_def)

lemma archive_current_state_ok:
  "session_record_ok r \<Longrightarrow> session_record_ok (session_record_archive_current_state r)"
  by (simp add: session_record_archive_current_state_def promote_state_ok session_state_create_ok)

lemma set_state_ok:
  "session_record_ok r \<Longrightarrow> session_state_ok s \<Longrightarrow> session_record_ok (session_record_set_state r s)"
  by (simp add: session_record_ok_def session_record_set_state_def)

lemma previous_states_remove_ok:
  "session_record_ok r \<Longrightarrow> session_record_ok (session_record_get_previous_states_remove r i)"
  by (auto simp: session_record_ok_def session_record_get_previous_states_remove_def list_all_iff
      dest: in_set_takeD in_set_dropD)

text \<open>The archive as a bounded queue, oldest state first.\<close>

definition archive_push :: "session_state list \<Rightarrow> session_state \<Rightarrow> session_state list" where
  "archive_push archived s = rev (take ARCHIVED_STATES_MAX_LENGTH (s # rev archived))"

interpretation archive: bounded_queue ARCHIVED_STATES_MAX_LENGTH archive_push
  by unfold_locales (simp_all add: ARCHIVED_STATES_MAX_LENGTH_def archive_push_def rev_take)

lemma promote_state_archive:
  "rev (sr_previous_states (session_record_promote_state r s)) =
    archive_push (rev (sr_previous_states r)) (sr_state r)"
  by (simp add: session_record_promote_state_def archive_push_def)

lemma has_session_state_iff:
  assumes "session_record_ok r" "ec_public_key_ok k"
  shows "session_record_has_session_state r v (Some k) \<longleftrightarrow>
    (\<exists>s \<in> set (sr_state r # sr_previous_states r).
       ss_session_version s = v \<and> ss_alice_base_key s = Some k)"
proof -
  have "state_is v (Some k) s \<longleftrightarrow> ss_session_version s = v \<and> ss_alice_base_key s = Some k"
    if "session_state_ok s" for s
    using that assms(2)
    by (simp add: state_is_def session_getter_defs ec_pub.compare_eq_0 session_state_ok_def)
  then show ?thesis
    using assms(1)
    by (auto simp: session_record_has_session_state_def session_record_ok_def list_ex_iff list_all_iff)
qed

section \<open>Storing and loading a record\<close>

lemma record_structure_size:
  assumes "session_record_ok r"
  shows "textsecure__record_structure__get_packed_size (textsecure__record_structure__init
      \<lparr>RecordStructure_currentsession := Some (session_state_serialize_prepare (sr_state r)),
       RecordStructure_previoussessions := map session_state_serialize_prepare (sr_previous_states r)\<rparr>)
    < 2 ^ 27"
proof -
  let ?m = "textsecure__record_structure__init
      \<lparr>RecordStructure_currentsession := Some (session_state_serialize_prepare (sr_state r)),
       RecordStructure_previoussessions := map session_state_serialize_prepare (sr_previous_states r)\<rparr>"
  have state: "protobuf_c_message_get_packed_size (SessionStructure_to_msg (session_state_serialize_prepare s))
      \<le> 2097151" if "session_state_ok s" for s
    using session_structure_size [OF that]
    by (simp add: textsecure__session_structure__get_packed_size_def)
  have "sum_list (map (\<lambda>y. 10 + protobuf_c_message_get_packed_size (SessionStructure_to_msg y))
      (map session_state_serialize_prepare (sr_previous_states r))) \<le> 40 * 2097161"
    using assms state
    by (intro sum_list_map_le)
      (auto simp: session_record_ok_def list_all_iff ARCHIVED_STATES_MAX_LENGTH_def)
  moreover have "protobuf_c_message_get_packed_size
      (SessionStructure_to_msg (session_state_serialize_prepare (sr_state r))) \<le> 2097151"
    using assms state by (simp add: session_record_ok_def)
  ultimately show ?thesis
    using RecordStructure_size [of ?m]
    by (simp add: textsecure__record_structure__get_packed_size_def)
qed

lemma session_record_roundtrip:
  assumes "session_record_ok r"
  shows "rbind (session_record_serialize (Some r)) session_record_deserialize =
    Inr (r\<lparr>sr_is_fresh := False, sr_user_record := None\<rparr>)"
proof -
  have "mapM_result session_state_deserialize_protobuf
      (map session_state_serialize_prepare (sr_previous_states r)) = Inr (sr_previous_states r)"
    using assms
      mapM_result_map [of "sr_previous_states r" session_state_deserialize_protobuf
        session_state_serialize_prepare "\<lambda>x. x"]
    by (simp add: session_record_ok_def list_all_iff session_state_protobuf_roundtrip)
  moreover have "session_state_deserialize_protobuf (session_state_serialize_prepare (sr_state r)) =
      Inr (sr_state r)"
    using assms by (simp add: session_record_ok_def session_state_protobuf_roundtrip)
  ultimately show ?thesis
    using record_structure_size [OF assms]
    by (simp add: session_record_serialize_def session_record_deserialize_def Let_def checked_pack_def
        textsecure__record_structure__roundtrip textsecure__record_structure__init_def
        session_record_create_def)
qed

lemma session_record_copy_eq:
  assumes "session_record_ok r"
  shows "session_record_copy r = Inr (r\<lparr>sr_is_fresh := False\<rparr>)"
proof -
  have "session_record_copy r =
      rbind (rbind (session_record_serialize (Some r)) session_record_deserialize)
        (\<lambda>r'. Inr (case sr_user_record r of None \<Rightarrow> r' | Some u \<Rightarrow> r'\<lparr>sr_user_record := Some u\<rparr>))"
    by (simp add: session_record_copy_def rbind_assoc)
  then show ?thesis
    by (simp add: session_record_roundtrip [OF assms] split: option.split)
qed

end
