(* ===== verification/Session_Pre_Key.thy ===== *)
theory Session_Pre_Key
  imports Curve LocalStorageProtocol
begin

text \<open>
  \<open>session_pre_key.c\<close>: one-time pre-keys, signed pre-keys with their stored forms, and
  the bundle of public keys from which a session is started. The lemmas are the round
  trips of the two stored forms.
\<close>

definition PRE_KEY_MEDIUM_MAX_VALUE :: u32 where "PRE_KEY_MEDIUM_MAX_VALUE = 0xFFFFFF"

record session_pre_key =
  pk_id :: u32
  pk_key_pair :: ec_key_pair

record session_signed_pre_key =
  spk_id :: u32
  spk_key_pair :: ec_key_pair
  spk_timestamp :: u64
  spk_signature :: bytes

record session_pre_key_bundle =
  bundle_registration_id :: u32
  bundle_device_id :: int
  bundle_pre_key_id :: u32
  bundle_pre_key_public :: "ec_public_key option"
  bundle_signed_pre_key_id :: u32
  bundle_signed_pre_key_public :: "ec_public_key option"
  bundle_signed_pre_key_signature :: "bytes option"
  bundle_identity_key :: "ec_public_key option"

section \<open>One-time pre-keys\<close>

definition session_pre_key_create :: "u32 \<Rightarrow> ec_key_pair \<Rightarrow> session_pre_key" where
  "session_pre_key_create i key_pair = \<lparr>pk_id = i, pk_key_pair = key_pair\<rparr>"

definition session_pre_key_serialize :: "session_pre_key option \<Rightarrow> bytes result" where
  "session_pre_key_serialize pre_key =
     (case pre_key of
        None \<Rightarrow> Inl SG_ERR_INVAL
      | Some k \<Rightarrow>
          rbind (ec_public_key_serialize (Some (public_key (pk_key_pair k)))) (\<lambda>public_buf.
          let private_buf = ec_private_key_serialize (private_key (pk_key_pair k));
              structure = textsecure__pre_key_record_structure__init
                \<lparr>PreKeyRecordStructure_id := Some (pk_id k),
                 PreKeyRecordStructure_publickey := Some public_buf,
                 PreKeyRecordStructure_privatekey := Some private_buf\<rparr>
          in checked_pack (textsecure__pre_key_record_structure__get_packed_size structure)
               (textsecure__pre_key_record_structure__pack structure)))"

definition session_pre_key_deserialize :: "bytes \<Rightarrow> session_pre_key result" where
  "session_pre_key_deserialize data =
     rbind (pb_result SG_ERR_INVALID_PROTO_BUF (textsecure__pre_key_record_structure__unpack data))
       (\<lambda>structure.
     case (PreKeyRecordStructure_id structure, PreKeyRecordStructure_publickey structure,
           PreKeyRecordStructure_privatekey structure) of
       (Some i, Some publickey, Some privatekey) \<Rightarrow>
         rbind (curve_decode_point publickey) (\<lambda>pub.
         rbind (curve_decode_private_point privatekey) (\<lambda>priv.
         Inr (session_pre_key_create i (ec_key_pair_create pub priv))))
     | _ \<Rightarrow> Inl SG_ERR_INVALID_KEY)"

definition session_pre_key_get_id :: "session_pre_key \<Rightarrow> u32" where
  "session_pre_key_get_id pre_key = pk_id pre_key"

definition session_pre_key_get_key_pair :: "session_pre_key \<Rightarrow> ec_key_pair" where
  "session_pre_key_get_key_pair pre_key = pk_key_pair pre_key"

section \<open>Signed pre-keys\<close>

text \<open>An empty signature violates an assertion.\<close>

definition session_signed_pre_key_create ::
  "u32 \<Rightarrow> u64 \<Rightarrow> ec_key_pair \<Rightarrow> bytes \<Rightarrow> session_signed_pre_key result" where
  "session_signed_pre_key_create i timestamp key_pair signature =
     (if signature = [] then Inl SG_ABORT
      else Inr \<lparr>spk_id = i, spk_key_pair = key_pair, spk_timestamp = timestamp,
                spk_signature = signature\<rparr>)"

definition session_signed_pre_key_serialize :: "session_signed_pre_key \<Rightarrow> bytes result" where
  "session_signed_pre_key_serialize pre_key =
     rbind (ec_public_key_serialize (Some (public_key (spk_key_pair pre_key)))) (\<lambda>public_buf.
     let private_buf = ec_private_key_serialize (private_key (spk_key_pair pre_key));
         structure = textsecure__signed_pre_key_record_structure__init
           \<lparr>SignedPreKeyRecordStructure_id := Some (spk_id pre_key),
            SignedPreKeyRecordStructure_timestamp := Some (spk_timestamp pre_key),
            SignedPreKeyRecordStructure_publickey := Some public_buf,
            SignedPreKeyRecordStructure_privatekey := Some private_buf,
            SignedPreKeyRecordStructure_signature := Some (spk_signature pre_key)\<rparr>
     in checked_pack (textsecure__signed_pre_key_record_structure__get_packed_size structure)
          (textsecure__signed_pre_key_record_structure__pack structure))"

definition session_signed_pre_key_deserialize :: "bytes \<Rightarrow> session_signed_pre_key result" where
  "session_signed_pre_key_deserialize data =
     rbind (pb_result SG_ERR_INVALID_PROTO_BUF (textsecure__signed_pre_key_record_structure__unpack data))
       (\<lambda>structure.
     case (SignedPreKeyRecordStructure_id structure, SignedPreKeyRecordStructure_timestamp structure,
           SignedPreKeyRecordStructure_publickey structure, SignedPreKeyRecordStructure_privatekey structure,
           SignedPreKeyRecordStructure_signature structure) of
       (Some i, Some timestamp, Some publickey, Some privatekey, Some signature) \<Rightarrow>
         rbind (curve_decode_point publickey) (\<lambda>pub.
         rbind (curve_decode_private_point privatekey) (\<lambda>priv.
         session_signed_pre_key_create i timestamp (ec_key_pair_create pub priv) signature))
     | _ \<Rightarrow> Inl SG_ERR_INVALID_KEY)"

definition session_signed_pre_key_get_id :: "session_signed_pre_key \<Rightarrow> u32" where
  "session_signed_pre_key_get_id pre_key = spk_id pre_key"

definition session_signed_pre_key_get_timestamp :: "session_signed_pre_key \<Rightarrow> u64" where
  "session_signed_pre_key_get_timestamp pre_key = spk_timestamp pre_key"

definition session_signed_pre_key_get_key_pair :: "session_signed_pre_key \<Rightarrow> ec_key_pair" where
  "session_signed_pre_key_get_key_pair pre_key = spk_key_pair pre_key"

definition session_signed_pre_key_get_signature :: "session_signed_pre_key \<Rightarrow> bytes" where
  "session_signed_pre_key_get_signature pre_key = spk_signature pre_key"

section \<open>Bundles\<close>

definition session_pre_key_bundle_create ::
  "u32 \<Rightarrow> int \<Rightarrow> u32 \<Rightarrow> ec_public_key option \<Rightarrow> u32 \<Rightarrow> ec_public_key option \<Rightarrow> bytes \<Rightarrow>
     ec_public_key option \<Rightarrow> session_pre_key_bundle" where
  "session_pre_key_bundle_create registration_id device_id pre_key_id pre_key_public signed_pre_key_id
       signed_pre_key_public signed_pre_key_signature_data identity_key =
     \<lparr>bundle_registration_id = registration_id, bundle_device_id = device_id,
      bundle_pre_key_id = pre_key_id, bundle_pre_key_public = pre_key_public,
      bundle_signed_pre_key_id = signed_pre_key_id,
      bundle_signed_pre_key_public = signed_pre_key_public,
      bundle_signed_pre_key_signature =
        (if length signed_pre_key_signature_data > 0 then Some signed_pre_key_signature_data else None),
      bundle_identity_key = identity_key\<rparr>"

definition session_pre_key_bundle_get_registration_id :: "session_pre_key_bundle \<Rightarrow> u32" where
  "session_pre_key_bundle_get_registration_id bundle = bundle_registration_id bundle"

definition session_pre_key_bundle_get_device_id :: "session_pre_key_bundle \<Rightarrow> int" where
  "session_pre_key_bundle_get_device_id bundle = bundle_device_id bundle"

definition session_pre_key_bundle_get_pre_key_id :: "session_pre_key_bundle \<Rightarrow> u32" where
  "session_pre_key_bundle_get_pre_key_id bundle = bundle_pre_key_id bundle"

definition session_pre_key_bundle_get_pre_key :: "session_pre_key_bundle \<Rightarrow> ec_public_key option" where
  "session_pre_key_bundle_get_pre_key bundle = bundle_pre_key_public bundle"

definition session_pre_key_bundle_get_signed_pre_key_id :: "session_pre_key_bundle \<Rightarrow> u32" where
  "session_pre_key_bundle_get_signed_pre_key_id bundle = bundle_signed_pre_key_id bundle"

definition session_pre_key_bundle_get_signed_pre_key :: "session_pre_key_bundle \<Rightarrow> ec_public_key option" where
  "session_pre_key_bundle_get_signed_pre_key bundle = bundle_signed_pre_key_public bundle"

definition session_pre_key_bundle_get_signed_pre_key_signature :: "session_pre_key_bundle \<Rightarrow> bytes option" where
  "session_pre_key_bundle_get_signed_pre_key_signature bundle = bundle_signed_pre_key_signature bundle"

definition session_pre_key_bundle_get_identity_key :: "session_pre_key_bundle \<Rightarrow> ec_public_key option" where
  "session_pre_key_bundle_get_identity_key bundle = bundle_identity_key bundle"

section \<open>Round trips\<close>

definition session_pre_key_ok :: "session_pre_key \<Rightarrow> bool" where
  "session_pre_key_ok k \<longleftrightarrow> ec_key_pair_ok (pk_key_pair k)"

definition session_signed_pre_key_ok :: "session_signed_pre_key \<Rightarrow> bool" where
  "session_signed_pre_key_ok k \<longleftrightarrow>
     ec_key_pair_ok (spk_key_pair k) \<and> spk_signature k \<noteq> [] \<and> length (spk_signature k) < 2 ^ 26"

lemmas pre_key_ok_defs =
  session_pre_key_ok_def session_signed_pre_key_ok_def ec_key_pair_ok_def ec_public_key_ok_def
  ec_private_key_ok_def

lemma session_pre_key_roundtrip:
  assumes "session_pre_key_ok k"
  shows "\<exists>data. session_pre_key_serialize (Some k) = Inr data \<and> session_pre_key_deserialize data = Inr k"
proof -
  let ?m = "textsecure__pre_key_record_structure__init
    \<lparr>PreKeyRecordStructure_id := Some (pk_id k),
     PreKeyRecordStructure_publickey := Some (DJB_TYPE # ec_public_data (public_key (pk_key_pair k))),
     PreKeyRecordStructure_privatekey := Some (ec_private_data (private_key (pk_key_pair k)))\<rparr>"
  have "textsecure__pre_key_record_structure__get_packed_size ?m < 2 ^ 27"
    using PreKeyRecordStructure_size [of ?m] assms
    by (simp add: textsecure__pre_key_record_structure__get_packed_size_def pre_key_ok_defs curve_constants)
  then have "textsecure__pre_key_record_structure__unpack (textsecure__pre_key_record_structure__pack ?m) = Inr ?m"
    by (rule textsecure__pre_key_record_structure__roundtrip)
  moreover have "session_pre_key_serialize (Some k) = Inr (textsecure__pre_key_record_structure__pack ?m)"
    by (simp add: session_pre_key_serialize_def ec_public_key_serialize_def ec_private_key_serialize_def
        checked_pack_def Let_def)
  ultimately show ?thesis
    using assms
    by (cases k) (auto simp: session_pre_key_deserialize_def curve_decode_point_def
        curve_decode_private_point_def pre_key_ok_defs curve_constants session_pre_key_create_def
        ec_key_pair_create_def)
qed

lemma session_signed_pre_key_roundtrip:
  assumes "session_signed_pre_key_ok k"
  shows "\<exists>data. session_signed_pre_key_serialize k = Inr data \<and> session_signed_pre_key_deserialize data = Inr k"
proof -
  let ?m = "textsecure__signed_pre_key_record_structure__init
    \<lparr>SignedPreKeyRecordStructure_id := Some (spk_id k),
     SignedPreKeyRecordStructure_timestamp := Some (spk_timestamp k),
     SignedPreKeyRecordStructure_publickey := Some (DJB_TYPE # ec_public_data (public_key (spk_key_pair k))),
     SignedPreKeyRecordStructure_privatekey := Some (ec_private_data (private_key (spk_key_pair k))),
     SignedPreKeyRecordStructure_signature := Some (spk_signature k)\<rparr>"
  have "textsecure__signed_pre_key_record_structure__get_packed_size ?m < 2 ^ 27"
    using SignedPreKeyRecordStructure_size [of ?m] assms
    by (simp add: textsecure__signed_pre_key_record_structure__get_packed_size_def pre_key_ok_defs
        curve_constants)
  then have "textsecure__signed_pre_key_record_structure__unpack
      (textsecure__signed_pre_key_record_structure__pack ?m) = Inr ?m"
    by (rule textsecure__signed_pre_key_record_structure__roundtrip)
  moreover have "session_signed_pre_key_serialize k =
      Inr (textsecure__signed_pre_key_record_structure__pack ?m)"
    by (simp add: session_signed_pre_key_serialize_def ec_public_key_serialize_def
        ec_private_key_serialize_def checked_pack_def Let_def)
  ultimately show ?thesis
    using assms
    by (cases k) (auto simp: session_signed_pre_key_deserialize_def curve_decode_point_def
        curve_decode_private_point_def pre_key_ok_defs curve_constants session_signed_pre_key_create_def
        ec_key_pair_create_def)
qed

end
