(* ===== verification/Sender_Key.thy ===== *)
theory Sender_Key
  imports Ratchet Message_Keys
begin

text \<open>
  \<open>sender_key.c\<close>: the chain keys of a group sender and the message keys derived from
  them. The lemmas give both derivations as functions of the HMAC function and show that
  they form a chain of message keys (locale \<open>message_chain\<close>).
\<close>

record sender_message_key =
  smk_iteration :: u32
  smk_iv :: bytes
  smk_cipher_key :: bytes
  smk_seed :: bytes

record sender_chain_key =
  sck_iteration :: u32
  sck_chain_key :: bytes

definition sender_message_key_create ::
  "('h, 'd, 'w) signal_context \<Rightarrow> u32 \<Rightarrow> bytes option \<Rightarrow> sender_message_key result" where
  "sender_message_key_create context iteration seed =
     (case seed of
        None \<Rightarrow> Inl SG_ERR_INVAL
      | Some seed \<Rightarrow>
          rbind (hkdf_create 3) (\<lambda>kdf.
          rbind (hkdf_derive_secrets context kdf seed (replicate HASH_OUTPUT_SIZE 0)
                   (Some (ascii ''WhisperGroup'')) 48) (\<lambda>derivative.
          if length derivative \<noteq> 48 then Inl SG_ERR_UNKNOWN
          else Inr \<lparr>smk_iteration = iteration, smk_iv = take 16 derivative,
                    smk_cipher_key = take 32 (drop 16 derivative), smk_seed = seed\<rparr>)))"

definition sender_message_key_get_iteration :: "sender_message_key \<Rightarrow> u32" where
  "sender_message_key_get_iteration key = smk_iteration key"

definition sender_message_key_get_iv :: "sender_message_key \<Rightarrow> bytes" where
  "sender_message_key_get_iv key = smk_iv key"

definition sender_message_key_get_cipher_key :: "sender_message_key \<Rightarrow> bytes" where
  "sender_message_key_get_cipher_key key = smk_cipher_key key"

definition sender_message_key_get_seed :: "sender_message_key \<Rightarrow> bytes" where
  "sender_message_key_get_seed key = smk_seed key"

definition sender_chain_key_create :: "u32 \<Rightarrow> bytes option \<Rightarrow> sender_chain_key result" where
  "sender_chain_key_create iteration chain_key =
     (case chain_key of
        None \<Rightarrow> Inl SG_ERR_INVAL
      | Some k \<Rightarrow> Inr \<lparr>sck_iteration = iteration, sck_chain_key = k\<rparr>)"

definition sender_chain_key_get_iteration :: "sender_chain_key \<Rightarrow> u32" where
  "sender_chain_key_get_iteration key = sck_iteration key"

definition sender_chain_key_get_derivative ::
  "('h, 'd, 'w) signal_context \<Rightarrow> byte \<Rightarrow> bytes \<Rightarrow> bytes result" where
  "sender_chain_key_get_derivative context seed key = signal_hmac_sha256 context key [[seed]]"

definition sender_chain_key_create_message_key ::
  "('h, 'd, 'w) signal_context \<Rightarrow> sender_chain_key \<Rightarrow> sender_message_key result" where
  "sender_chain_key_create_message_key context key =
     rbind (sender_chain_key_get_derivative context 0x01 (sck_chain_key key)) (\<lambda>derivative.
     sender_message_key_create context (sck_iteration key) (Some derivative))"

definition sender_chain_key_create_next ::
  "('h, 'd, 'w) signal_context \<Rightarrow> sender_chain_key \<Rightarrow> sender_chain_key result" where
  "sender_chain_key_create_next context key =
     rbind (sender_chain_key_get_derivative context 0x02 (sck_chain_key key)) (\<lambda>derivative.
     sender_chain_key_create (sck_iteration key + 1) (Some derivative))"

definition sender_chain_key_get_seed :: "sender_chain_key \<Rightarrow> bytes" where
  "sender_chain_key_get_seed key = sck_chain_key key"

section \<open>The derivations as functions\<close>

definition sender_keys_of ::
  "(bytes \<Rightarrow> bytes \<Rightarrow> bytes) \<Rightarrow> u32 \<Rightarrow> bytes \<Rightarrow> sender_message_key" where
  "sender_keys_of mac iteration seed =
     (let okm = kdf_fun mac \<lparr>iteration_start_offset = 1\<rparr> seed (replicate 32 0) (ascii ''WhisperGroup'') 48
      in \<lparr>smk_iteration = iteration, smk_iv = take 16 okm, smk_cipher_key = take 32 (drop 16 okm),
          smk_seed = seed\<rparr>)"

definition sender_message_keys :: "(bytes \<Rightarrow> bytes \<Rightarrow> bytes) \<Rightarrow> sender_chain_key \<Rightarrow> sender_message_key" where
  "sender_message_keys mac ck = sender_keys_of mac (sck_iteration ck) (mac (sck_chain_key ck) [0x01])"

definition sender_chain_next :: "(bytes \<Rightarrow> bytes \<Rightarrow> bytes) \<Rightarrow> sender_chain_key \<Rightarrow> sender_chain_key" where
  "sender_chain_next mac ck =
     \<lparr>sck_iteration = sck_iteration ck + 1, sck_chain_key = mac (sck_chain_key ck) [0x02]\<rparr>"

lemma sender_message_key_create_eq:
  assumes "hmac_spec context mac"
  shows "sender_message_key_create context iteration (Some seed) = Inr (sender_keys_of mac iteration seed)"
  by (simp add: sender_message_key_create_def hkdf_create_def HASH_OUTPUT_SIZE_def
      hkdf_derive_secrets_eq [OF assms] length_kdf_fun [OF assms] sender_keys_of_def Let_def)

lemma create_message_key_eq:
  assumes "hmac_spec context mac"
  shows "sender_chain_key_create_message_key context ck = Inr (sender_message_keys mac ck)"
  by (simp add: sender_chain_key_create_message_key_def sender_chain_key_get_derivative_def hmac_specD [OF assms]
      sender_message_key_create_eq [OF assms] sender_message_keys_def)

lemma sender_create_next_eq:
  assumes "hmac_spec context mac"
  shows "sender_chain_key_create_next context ck = Inr (sender_chain_next mac ck)"
  by (simp add: sender_chain_key_create_next_def sender_chain_key_get_derivative_def hmac_specD [OF assms]
      sender_chain_key_create_def sender_chain_next_def)

end
