(* ===== verification/Sender_Key_State.thy ===== *)
theory Sender_Key_State
  imports Sender_Key LocalStorageProtocol
begin

text \<open>
  \<open>sender_key_state.c\<close>: one sender key of a group, its chain key, the stored keys of
  skipped messages, the signature key, and the stored form. A message key is stored as its
  seed and derived again when it is loaded.

  The lemmas: every update keeps the invariant \<open>sender_key_state_ok\<close>, the chain and the stored
  keys form a message chain, and loading a stored state gives it back.
\<close>

definition MAX_SENDER_MESSAGE_KEYS :: nat where "MAX_SENDER_MESSAGE_KEYS = 2000"

record sender_key_state =
  sks_key_id :: u32
  sks_chain_key :: sender_chain_key
  sks_signature_public_key :: ec_public_key
  sks_signature_private_key :: "ec_private_key option"
  sks_message_keys :: "sender_message_key list"

definition sender_key_state_create ::
  "u32 \<Rightarrow> sender_chain_key option \<Rightarrow> ec_public_key option \<Rightarrow> ec_private_key option \<Rightarrow>
     sender_key_state result" where
  "sender_key_state_create key_id chain_key signature_public_key signature_private_key =
     (case (chain_key, signature_public_key) of
        (Some ck, Some pub) \<Rightarrow>
          Inr \<lparr>sks_key_id = key_id, sks_chain_key = ck, sks_signature_public_key = pub,
               sks_signature_private_key = signature_private_key, sks_message_keys = []\<rparr>
      | _ \<Rightarrow> Inl SG_ERR_INVAL)"

definition sender_key_state_get_key_id :: "sender_key_state \<Rightarrow> u32" where
  "sender_key_state_get_key_id state = sks_key_id state"

definition sender_key_state_get_chain_key :: "sender_key_state \<Rightarrow> sender_chain_key" where
  "sender_key_state_get_chain_key state = sks_chain_key state"

definition sender_key_state_set_chain_key :: "sender_key_state \<Rightarrow> sender_chain_key \<Rightarrow> sender_key_state" where
  "sender_key_state_set_chain_key state chain_key = state\<lparr>sks_chain_key := chain_key\<rparr>"

definition sender_key_state_get_signing_key_public :: "sender_key_state \<Rightarrow> ec_public_key" where
  "sender_key_state_get_signing_key_public state = sks_signature_public_key state"

definition sender_key_state_get_signing_key_private :: "sender_key_state \<Rightarrow> ec_private_key option" where
  "sender_key_state_get_signing_key_private state = sks_signature_private_key state"

definition sender_key_state_has_sender_message_key :: "sender_key_state \<Rightarrow> u32 \<Rightarrow> bool" where
  "sender_key_state_has_sender_message_key state iteration =
     list_ex (\<lambda>k. sender_message_key_get_iteration k = iteration) (sks_message_keys state)"

definition sender_message_keys_append ::
  "sender_message_key list \<Rightarrow> sender_message_key \<Rightarrow> sender_message_key list" where
  "sender_message_keys_append ks k = trim_front MAX_SENDER_MESSAGE_KEYS (ks @ [k])"

definition sender_key_state_add_sender_message_key ::
  "sender_key_state \<Rightarrow> sender_message_key \<Rightarrow> sender_key_state" where
  "sender_key_state_add_sender_message_key state message_key =
     state\<lparr>sks_message_keys := sender_message_keys_append (sks_message_keys state) message_key\<rparr>"

definition sender_key_state_remove_sender_message_key ::
  "sender_key_state \<Rightarrow> u32 \<Rightarrow> sender_message_key option \<times> sender_key_state" where
  "sender_key_state_remove_sender_message_key state iteration =
     (case remove_first (\<lambda>k. sender_message_key_get_iteration k = iteration) (sks_message_keys state) of
        None \<Rightarrow> (None, state)
      | Some (k, rest) \<Rightarrow> (Some k, state\<lparr>sks_message_keys := rest\<rparr>))"

section \<open>Storage\<close>

definition sender_key_state_serialize_prepare ::
  "sender_key_state \<Rightarrow> Textsecure__SenderKeyStateStructure" where
  "sender_key_state_serialize_prepare state =
     textsecure__sender_key_state_structure__init
       \<lparr>SenderKeyStateStructure_senderkeyid := Some (sks_key_id state),
        SenderKeyStateStructure_senderchainkey := Some
          (textsecure__sender_key_state_structure__sender_chain_key__init
             \<lparr>SenderChainKey_iteration := Some (sender_chain_key_get_iteration (sks_chain_key state)),
              SenderChainKey_seed := Some (sender_chain_key_get_seed (sks_chain_key state))\<rparr>),
        SenderKeyStateStructure_sendersigningkey := Some
          (textsecure__sender_key_state_structure__sender_signing_key__init
             \<lparr>SenderSigningKey_public :=
                Some (ec_public_key_serialize_protobuf (sks_signature_public_key state)),
              SenderSigningKey_private :=
                map_option ec_private_key_serialize_protobuf (sks_signature_private_key state)\<rparr>),
        SenderKeyStateStructure_sendermessagekeys :=
          map (\<lambda>k. textsecure__sender_key_state_structure__sender_message_key__init
                 \<lparr>SenderMessageKey_iteration := Some (sender_message_key_get_iteration k),
                  SenderMessageKey_seed := Some (sender_message_key_get_seed k)\<rparr>)
            (sks_message_keys state)\<rparr>"

definition sender_key_state_serialize :: "sender_key_state \<Rightarrow> bytes result" where
  "sender_key_state_serialize state =
     (let state_structure = sender_key_state_serialize_prepare state in
      checked_pack (textsecure__sender_key_state_structure__get_packed_size state_structure)
        (textsecure__sender_key_state_structure__pack state_structure))"

text \<open>The loop over the stored message keys; entries without a number or a seed are skipped.\<close>

fun sender_message_keys_deserialize ::
  "('h, 'd, 'w) signal_context \<Rightarrow> sender_key_state \<Rightarrow>
     Textsecure__SenderKeyStateStructure__SenderMessageKey list \<Rightarrow> sender_key_state result" where
  "sender_message_keys_deserialize context state [] = Inr state"
| "sender_message_keys_deserialize context state (k # ks) =
     (case (SenderMessageKey_iteration k, SenderMessageKey_seed k) of
        (Some iteration, Some seed) \<Rightarrow>
          rbind (sender_message_key_create context iteration (Some seed)) (\<lambda>message_key.
          sender_message_keys_deserialize context
            (sender_key_state_add_sender_message_key state message_key) ks)
      | _ \<Rightarrow> sender_message_keys_deserialize context state ks)"

definition sender_key_state_deserialize_protobuf ::
  "('h, 'd, 'w) signal_context \<Rightarrow> Textsecure__SenderKeyStateStructure \<Rightarrow> sender_key_state result" where
  "sender_key_state_deserialize_protobuf context state_structure =
     rbind (case SenderKeyStateStructure_senderchainkey state_structure of
              None \<Rightarrow> Inr None
            | Some c \<Rightarrow>
                (case (SenderChainKey_iteration c, SenderChainKey_seed c) of
                   (Some iteration, Some seed) \<Rightarrow>
                     rbind (sender_chain_key_create iteration (Some seed)) (\<lambda>ck. Inr (Some ck))
                 | _ \<Rightarrow> Inr None)) (\<lambda>chain_key.
     rbind (case SenderKeyStateStructure_sendersigningkey state_structure of
              None \<Rightarrow> Inr (None, None)
            | Some k \<Rightarrow>
                rbind (case SenderSigningKey_public k of
                         None \<Rightarrow> Inr None
                       | Some p \<Rightarrow> rbind (curve_decode_point p) (\<lambda>pub. Inr (Some pub))) (\<lambda>pub.
                rbind (case SenderSigningKey_private k of
                         None \<Rightarrow> Inr None
                       | Some p \<Rightarrow> rbind (curve_decode_private_point p) (\<lambda>priv. Inr (Some priv))) (\<lambda>priv.
                Inr (pub, priv)))) (\<lambda>(signature_public_key, signature_private_key).
     case (SenderKeyStateStructure_senderkeyid state_structure, chain_key, signature_public_key) of
       (Some key_id, Some ck, Some pub) \<Rightarrow>
         rbind (sender_key_state_create key_id (Some ck) (Some pub) signature_private_key) (\<lambda>state.
         sender_message_keys_deserialize context state
           (SenderKeyStateStructure_sendermessagekeys state_structure))
     | _ \<Rightarrow> Inl SG_ERR_INVALID_PROTO_BUF))"

definition sender_key_state_deserialize ::
  "('h, 'd, 'w) signal_context \<Rightarrow> bytes \<Rightarrow> sender_key_state result" where
  "sender_key_state_deserialize context data =
     rbind (pb_result SG_ERR_INVALID_PROTO_BUF (textsecure__sender_key_state_structure__unpack data))
       (sender_key_state_deserialize_protobuf context)"

definition sender_key_state_copy ::
  "('h, 'd, 'w) signal_context \<Rightarrow> sender_key_state \<Rightarrow> sender_key_state result" where
  "sender_key_state_copy context other_state =
     rbind (sender_key_state_serialize other_state) (sender_key_state_deserialize context)"

section \<open>The invariant\<close>

text \<open>
  A chain key that came in a distribution message has the length its sender gave it; stored
  message keys are derived from seeds of 32 bytes.
\<close>

definition sender_key_state_ok :: "(bytes \<Rightarrow> bytes \<Rightarrow> bytes) \<Rightarrow> sender_key_state \<Rightarrow> bool" where
  "sender_key_state_ok mac s \<longleftrightarrow>
     length (sck_chain_key (sks_chain_key s)) < 2 ^ 24 \<and>
     ec_public_key_ok (sks_signature_public_key s) \<and>
     pred_option ec_private_key_ok (sks_signature_private_key s) \<and>
     list_all (\<lambda>k. k = sender_keys_of mac (smk_iteration k) (smk_seed k) \<and> length (smk_seed k) = 32)
       (sks_message_keys s) \<and>
     length (sks_message_keys s) \<le> MAX_SENDER_MESSAGE_KEYS"

lemma sender_get_iteration_eq: "sender_message_key_get_iteration = smk_iteration"
  by (simp add: fun_eq_iff sender_message_key_get_iteration_def)

lemma smk_iteration_keys [simp]: "smk_iteration (sender_message_keys mac ck) = sck_iteration ck"
  by (simp add: sender_message_keys_def sender_keys_of_def Let_def)

interpretation smkq: bounded_queue MAX_SENDER_MESSAGE_KEYS sender_message_keys_append
  by unfold_locales
    (simp_all add: sender_message_keys_append_def trim_front_drop MAX_SENDER_MESSAGE_KEYS_def)

interpretation group_chain: message_chain MAX_SENDER_MESSAGE_KEYS sender_message_keys_append sck_iteration
  "sender_chain_next mac" "sender_message_keys mac" smk_iteration for mac
  by unfold_locales (simp_all add: MAX_SENDER_MESSAGE_KEYS_def sender_chain_next_def)

lemma sender_message_keys_ok:
  assumes "hmac_spec context mac"
  shows "sender_message_keys mac ck =
      sender_keys_of mac (smk_iteration (sender_message_keys mac ck)) (smk_seed (sender_message_keys mac ck))"
    and "length (smk_seed (sender_message_keys mac ck)) = 32"
  by (simp_all add: sender_message_keys_def sender_keys_of_def Let_def hmac_specD [OF assms])

lemma add_sender_message_key_ok:
  assumes "hmac_spec context mac" "sender_key_state_ok mac s"
  shows "sender_key_state_ok mac (sender_key_state_add_sender_message_key s (sender_message_keys mac ck))"
  using assms(2) sender_message_keys_ok [OF assms(1), of ck]
    smkq.push_set [of "sks_message_keys s" "sender_message_keys mac ck"]
    smkq.push_bounded [of "sks_message_keys s" "sender_message_keys mac ck"]
  by (auto simp: sender_key_state_ok_def sender_key_state_add_sender_message_key_def list_all_iff)

lemma remove_sender_message_key_ok:
  assumes "sender_key_state_ok mac s" "sender_key_state_remove_sender_message_key s i = (k, s')"
  shows "sender_key_state_ok mac s'"
  using assms
  by (fastforce simp: sender_key_state_ok_def sender_key_state_remove_sender_message_key_def list_all_iff
      dest: remove_first_Some split: option.splits)

lemma set_chain_key_ok:
  assumes "hmac_spec context mac" "sender_key_state_ok mac s"
  shows "sender_key_state_ok mac (sender_key_state_set_chain_key s (sender_chain_next mac ck))"
  using assms(2)
  by (simp add: sender_key_state_ok_def sender_key_state_set_chain_key_def sender_chain_next_def hmac_specD [OF assms(1)])

lemma sender_key_state_create_ok:
  assumes "sender_key_state_create i (Some ck) (Some pub) priv = Inr s"
    and "length (sck_chain_key ck) < 2 ^ 24" "ec_public_key_ok pub" "pred_option ec_private_key_ok priv"
  shows "sender_key_state_ok mac s"
  using assms by (auto simp: sender_key_state_create_def sender_key_state_ok_def)

section \<open>Loading what was stored\<close>

lemma sender_message_keys_loaded:
  assumes "hmac_spec context mac" "list_all (\<lambda>k. k = sender_keys_of mac (smk_iteration k) (smk_seed k)) ks"
    and "length (sks_message_keys s) + length ks \<le> MAX_SENDER_MESSAGE_KEYS"
  shows "sender_message_keys_deserialize context s
      (map (\<lambda>k. \<lparr>SenderMessageKey_iteration = Some (smk_iteration k), SenderMessageKey_seed = Some (smk_seed k)\<rparr>) ks) =
    Inr (s\<lparr>sks_message_keys := sks_message_keys s @ ks\<rparr>)"
  using assms(2,3)
proof (induction ks arbitrary: s)
  case (Cons k ks)
  have "sender_message_key_create context (smk_iteration k) (Some (smk_seed k)) = Inr k"
    using Cons.prems(1) by (simp add: sender_message_key_create_eq [OF assms(1)])
  moreover have "sender_message_keys_append (sks_message_keys s) k = sks_message_keys s @ [k]"
    using Cons.prems(2) by (simp add: smkq.push_room)
  ultimately show ?case
    using Cons by (simp add: sender_key_state_add_sender_message_key_def)
qed simp

lemma sender_chain_key_collapse:
  "\<lparr>sck_iteration = sck_iteration ck, sck_chain_key = sck_chain_key ck\<rparr> = ck"
  by simp

lemma sender_key_state_protobuf_roundtrip:
  assumes "hmac_spec context mac" "sender_key_state_ok mac s"
  shows "sender_key_state_deserialize_protobuf context (sender_key_state_serialize_prepare s) = Inr s"
proof -
  have keys: "list_all (\<lambda>k. k = sender_keys_of mac (smk_iteration k) (smk_seed k)) (sks_message_keys s)"
    "length (sks_message_keys s) \<le> MAX_SENDER_MESSAGE_KEYS"
    using assms(2) by (simp_all add: sender_key_state_ok_def list_all_iff)
  show ?thesis
    using assms(2) keys sender_message_keys_loaded [OF assms(1) keys(1), of "s\<lparr>sks_message_keys := []\<rparr>"]
    by (cases "sks_signature_private_key s"; cases s)
      (simp_all add: sender_key_state_deserialize_protobuf_def sender_key_state_serialize_prepare_def
        textsecure__sender_key_state_structure__init_def
        textsecure__sender_key_state_structure__sender_chain_key__init_def
        textsecure__sender_key_state_structure__sender_signing_key__init_def
        textsecure__sender_key_state_structure__sender_message_key__init_def
        sender_chain_key_create_def sender_key_state_create_def sender_key_state_ok_def
        sender_chain_key_get_iteration_def sender_chain_key_get_seed_def sender_message_key_get_iteration_def
        sender_message_key_get_seed_def sender_chain_key_collapse)
qed

lemma sender_message_key_size:
  assumes "length (smk_seed k) = 32"
  shows "protobuf_c_message_get_packed_size (SenderMessageKey_to_msg
    \<lparr>SenderMessageKey_iteration = Some i, SenderMessageKey_seed = Some (smk_seed k)\<rparr>) \<le> 52"
  using SenderMessageKey_size [of "\<lparr>SenderMessageKey_iteration = Some i, SenderMessageKey_seed = Some (smk_seed k)\<rparr>"] assms
  by simp

lemma sender_signing_key_size:
  assumes "ec_public_key_ok pub" "pred_option ec_private_key_ok priv"
  shows "protobuf_c_message_get_packed_size (SenderSigningKey_to_msg
    \<lparr>SenderSigningKey_public = Some (ec_public_key_serialize_protobuf pub),
     SenderSigningKey_private = map_option ec_private_key_serialize_protobuf priv\<rparr>) \<le> 100"
  using SenderSigningKey_size [of "\<lparr>SenderSigningKey_public = Some (ec_public_key_serialize_protobuf pub),
     SenderSigningKey_private = map_option ec_private_key_serialize_protobuf priv\<rparr>"] assms
  by (cases priv)
    (simp_all add: ec_public_key_serialize_protobuf_def ec_private_key_serialize_protobuf_def
      ec_public_key_ok_def ec_private_key_ok_def curve_constants)

lemma sender_key_state_structure_size:
  assumes "sender_key_state_ok mac s"
  shows "protobuf_c_message_get_packed_size
    (SenderKeyStateStructure_to_msg (sender_key_state_serialize_prepare s)) < 2 ^ 24 + 2 ^ 18"
proof -
  let ?m = "sender_key_state_serialize_prepare s" and ?ck = "sks_chain_key s"
  have "sum_list (map (\<lambda>y. 10 + protobuf_c_message_get_packed_size (SenderMessageKey_to_msg y))
      (SenderKeyStateStructure_sendermessagekeys ?m)) \<le> 2000 * 62"
  proof (rule sum_list_map_le)
    show "length (SenderKeyStateStructure_sendermessagekeys ?m) \<le> 2000"
      using assms by (simp add: sender_key_state_serialize_prepare_def sender_key_state_ok_def MAX_SENDER_MESSAGE_KEYS_def)
    show "10 + protobuf_c_message_get_packed_size (SenderMessageKey_to_msg y) \<le> 62"
      if "y \<in> set (SenderKeyStateStructure_sendermessagekeys ?m)" for y
      using that assms sender_message_key_size
      by (auto simp: sender_key_state_serialize_prepare_def sender_key_state_ok_def list_all_iff
          textsecure__sender_key_state_structure__sender_message_key__init_def sender_message_key_get_seed_def)
  qed
  moreover have "protobuf_c_message_get_packed_size (SenderChainKey_to_msg
      \<lparr>SenderChainKey_iteration = Some (sck_iteration ?ck), SenderChainKey_seed = Some (sck_chain_key ?ck)\<rparr>)
    \<le> 20 + length (sck_chain_key ?ck)"
    using SenderChainKey_size [of "\<lparr>SenderChainKey_iteration = Some (sck_iteration ?ck),
      SenderChainKey_seed = Some (sck_chain_key ?ck)\<rparr>"] by simp
  moreover have "protobuf_c_message_get_packed_size (SenderSigningKey_to_msg
    \<lparr>SenderSigningKey_public = Some (ec_public_key_serialize_protobuf (sks_signature_public_key s)),
     SenderSigningKey_private = map_option ec_private_key_serialize_protobuf (sks_signature_private_key s)\<rparr>) \<le> 100"
    using assms by (intro sender_signing_key_size) (simp_all add: sender_key_state_ok_def)
  moreover have "length (sck_chain_key ?ck) < 2 ^ 24"
    using assms by (simp add: sender_key_state_ok_def)
  ultimately show ?thesis
    using SenderKeyStateStructure_size [of ?m]
    by (simp add: sender_key_state_serialize_prepare_def textsecure__sender_key_state_structure__init_def
        textsecure__sender_key_state_structure__sender_chain_key__init_def
        textsecure__sender_key_state_structure__sender_signing_key__init_def
        sender_chain_key_get_iteration_def sender_chain_key_get_seed_def)
qed

lemma sender_key_state_copy_id:
  assumes "hmac_spec context mac" "sender_key_state_ok mac s"
  shows "sender_key_state_copy context s = Inr s"
  using sender_key_state_structure_size [OF assms(2)] sender_key_state_protobuf_roundtrip [OF assms]
  by (simp add: sender_key_state_copy_def sender_key_state_serialize_def sender_key_state_deserialize_def
      checked_pack_def textsecure__sender_key_state_structure__roundtrip Let_def
      textsecure__sender_key_state_structure__get_packed_size_def)

end
