(* ===== verification/Sender_Key_Record.thy ===== *)
theory Sender_Key_Record
  imports Sender_Key_State
begin

text \<open>
  \<open>sender_key_record.c\<close>: the sender keys of one sender in one group, newest first, of which
  at most \<open>MAX_STATES\<close> are kept, and the stored form of the record. A state that the caller
  changes in place is written back with \<open>sender_key_record_put_state\<close>.

  The lemmas: the operations keep the invariant, a key that was added is found by its id, and
  loading a stored record gives it back.
\<close>

definition MAX_STATES :: nat where "MAX_STATES = 5"

record sender_key_record =
  skr_sender_key_states :: "sender_key_state list"
  skr_user_record :: "bytes option"

definition sender_key_record_create :: sender_key_record where
  "sender_key_record_create = \<lparr>skr_sender_key_states = [], skr_user_record = None\<rparr>"

definition sender_key_record_serialize :: "sender_key_record \<Rightarrow> bytes result" where
  "sender_key_record_serialize r =
     (let record_structure = textsecure__sender_key_record_structure__init
            \<lparr>SenderKeyRecordStructure_senderkeystates :=
               map sender_key_state_serialize_prepare (skr_sender_key_states r)\<rparr>
      in checked_pack (textsecure__sender_key_record_structure__get_packed_size record_structure)
           (textsecure__sender_key_record_structure__pack record_structure))"

definition sender_key_record_deserialize ::
  "('h, 'd, 'w) signal_context \<Rightarrow> bytes \<Rightarrow> sender_key_record result" where
  "sender_key_record_deserialize context data =
     rbind (pb_result SG_ERR_INVALID_PROTO_BUF (textsecure__sender_key_record_structure__unpack data))
       (\<lambda>record_structure.
     rbind (mapM_result (sender_key_state_deserialize_protobuf context)
              (SenderKeyRecordStructure_senderkeystates record_structure)) (\<lambda>states.
     Inr (sender_key_record_create\<lparr>skr_sender_key_states := states\<rparr>)))"

definition sender_key_record_copy ::
  "('h, 'd, 'w) signal_context \<Rightarrow> sender_key_record \<Rightarrow> sender_key_record result" where
  "sender_key_record_copy context other_record =
     rbind (sender_key_record_serialize other_record) (\<lambda>buffer.
     rbind (sender_key_record_deserialize context buffer) (\<lambda>result_record.
     Inr (case skr_user_record other_record of
            None \<Rightarrow> result_record
          | Some u \<Rightarrow> result_record\<lparr>skr_user_record := Some u\<rparr>)))"

definition sender_key_record_is_empty :: "sender_key_record \<Rightarrow> bool" where
  "sender_key_record_is_empty r \<longleftrightarrow> skr_sender_key_states r = []"

definition sender_key_record_get_sender_key_state :: "sender_key_record \<Rightarrow> sender_key_state result" where
  "sender_key_record_get_sender_key_state r =
     (case skr_sender_key_states r of
        s # _ \<Rightarrow> Inr s
      | [] \<Rightarrow> Inl SG_ERR_INVALID_KEY_ID)"

definition sender_key_record_get_sender_key_state_by_id ::
  "sender_key_record \<Rightarrow> u32 \<Rightarrow> sender_key_state result" where
  "sender_key_record_get_sender_key_state_by_id r key_id =
     (case find (\<lambda>s. sender_key_state_get_key_id s = key_id) (skr_sender_key_states r) of
        Some s \<Rightarrow> Inr s
      | None \<Rightarrow> Inl SG_ERR_INVALID_KEY_ID)"

text \<open>Changes made through the pointer that a getter returned: that of the first state with the id.\<close>

definition sender_key_record_put_state :: "sender_key_record \<Rightarrow> sender_key_state \<Rightarrow> sender_key_record" where
  "sender_key_record_put_state r state =
     r\<lparr>skr_sender_key_states :=
         update_first (\<lambda>s. sks_key_id s = sks_key_id state) (\<lambda>_. state) (skr_sender_key_states r)\<rparr>"

definition sender_key_record_add_sender_key_state_impl ::
  "sender_key_record \<Rightarrow> u32 \<Rightarrow> u32 \<Rightarrow> bytes option \<Rightarrow> ec_public_key option \<Rightarrow> ec_private_key option \<Rightarrow>
     sender_key_record result" where
  "sender_key_record_add_sender_key_state_impl r key_id iteration chain_key signature_public_key
       signature_private_key =
     rbind (sender_chain_key_create iteration chain_key) (\<lambda>chain_key_element.
     rbind (sender_key_state_create key_id (Some chain_key_element) signature_public_key
              signature_private_key) (\<lambda>state.
     Inr (r\<lparr>skr_sender_key_states := take MAX_STATES (state # skr_sender_key_states r)\<rparr>)))"

definition sender_key_record_add_sender_key_state ::
  "sender_key_record \<Rightarrow> u32 \<Rightarrow> u32 \<Rightarrow> bytes option \<Rightarrow> ec_public_key option \<Rightarrow> sender_key_record result" where
  "sender_key_record_add_sender_key_state r key_id iteration chain_key signature_key =
     sender_key_record_add_sender_key_state_impl r key_id iteration chain_key signature_key None"

definition sender_key_record_set_sender_key_state ::
  "sender_key_record \<Rightarrow> u32 \<Rightarrow> u32 \<Rightarrow> bytes option \<Rightarrow> ec_key_pair \<Rightarrow> sender_key_record result" where
  "sender_key_record_set_sender_key_state r key_id iteration chain_key signature_key_pair =
     sender_key_record_add_sender_key_state_impl (r\<lparr>skr_sender_key_states := []\<rparr>) key_id iteration chain_key
       (Some (public_key signature_key_pair)) (Some (private_key signature_key_pair))"

definition sender_key_record_get_user_record :: "sender_key_record \<Rightarrow> bytes option" where
  "sender_key_record_get_user_record r = skr_user_record r"

definition sender_key_record_set_user_record :: "sender_key_record \<Rightarrow> bytes option \<Rightarrow> sender_key_record" where
  "sender_key_record_set_user_record r u = r\<lparr>skr_user_record := u\<rparr>"

section \<open>The invariant\<close>

definition sender_key_record_ok :: "(bytes \<Rightarrow> bytes \<Rightarrow> bytes) \<Rightarrow> sender_key_record \<Rightarrow> bool" where
  "sender_key_record_ok mac r \<longleftrightarrow>
     list_all (sender_key_state_ok mac) (skr_sender_key_states r) \<and>
     length (skr_sender_key_states r) \<le> MAX_STATES"

lemma sender_key_record_create_ok: "sender_key_record_ok mac sender_key_record_create"
  by (simp add: sender_key_record_ok_def sender_key_record_create_def)

lemma put_state_ok:
  "sender_key_record_ok mac r \<Longrightarrow> sender_key_state_ok mac s \<Longrightarrow>
    sender_key_record_ok mac (sender_key_record_put_state r s)"
  by (simp add: sender_key_record_ok_def sender_key_record_put_state_def update_first_list_all)

lemma add_sender_key_state_ok:
  assumes "sender_key_record_ok mac r" "length k < 2 ^ 24" "ec_public_key_ok pub" "pred_option ec_private_key_ok priv"
    and "sender_key_record_add_sender_key_state_impl r i n (Some k) (Some pub) priv = Inr r'"
  shows "sender_key_record_ok mac r'"
proof -
  obtain s where s: "sender_key_state_create i (Some \<lparr>sck_iteration = n, sck_chain_key = k\<rparr>) (Some pub) priv = Inr s"
    "r' = r\<lparr>skr_sender_key_states := take MAX_STATES (s # skr_sender_key_states r)\<rparr>"
    using assms(5)
    by (auto simp: sender_key_record_add_sender_key_state_impl_def sender_chain_key_create_def rbind_eq_Inr)
  have "sender_key_state_ok mac s"
    using sender_key_state_create_ok [OF s(1)] assms(2-4) by simp
  then show ?thesis
    using assms(1) list_all_take [of "sender_key_state_ok mac" "s # skr_sender_key_states r" MAX_STATES]
    by (simp add: s(2) sender_key_record_ok_def)
qed

lemma add_sender_key_state_found:
  assumes "sender_key_record_add_sender_key_state_impl r i n (Some k) (Some pub) priv = Inr r'"
  shows "sender_key_record_get_sender_key_state_by_id r' i =
    sender_key_state_create i (Some \<lparr>sck_iteration = n, sck_chain_key = k\<rparr>) (Some pub) priv"
  using assms
  by (auto simp: sender_key_record_add_sender_key_state_impl_def sender_chain_key_create_def
      sender_key_state_create_def sender_key_record_get_sender_key_state_by_id_def
      sender_key_state_get_key_id_def MAX_STATES_def)

lemma state_by_id_Inr:
  "sender_key_record_get_sender_key_state_by_id r i = Inr s \<longleftrightarrow>
    find (\<lambda>s. sks_key_id s = i) (skr_sender_key_states r) = Some s"
  by (simp add: sender_key_record_get_sender_key_state_by_id_def sender_key_state_get_key_id_def split: option.splits)

lemma put_state_found:
  assumes "sender_key_record_get_sender_key_state_by_id r i = Inr s" "sks_key_id s' = i"
  shows "sender_key_record_get_sender_key_state_by_id (sender_key_record_put_state r s') i = Inr s'"
  using assms by (simp add: state_by_id_Inr sender_key_record_put_state_def find_update_first_at)

lemma state_by_id_ok:
  assumes "sender_key_record_ok mac r" "sender_key_record_get_sender_key_state_by_id r i = Inr s"
  shows "sender_key_state_ok mac s" "sks_key_id s = i"
  using assms by (auto simp: sender_key_record_ok_def state_by_id_Inr list_all_iff dest: find_set)

section \<open>Loading what was stored\<close>

lemma sender_key_record_size:
  assumes "sender_key_record_ok mac r"
  shows "protobuf_c_message_get_packed_size (SenderKeyRecordStructure_to_msg
    \<lparr>SenderKeyRecordStructure_senderkeystates = map sender_key_state_serialize_prepare (skr_sender_key_states r)\<rparr>) < 2 ^ 27"
    (is "?size < _")
proof -
  have "?size \<le> sum_list (map (\<lambda>y. 10 + protobuf_c_message_get_packed_size (SenderKeyStateStructure_to_msg y))
      (map sender_key_state_serialize_prepare (skr_sender_key_states r)))"
    using SenderKeyRecordStructure_size [of "\<lparr>SenderKeyRecordStructure_senderkeystates =
      map sender_key_state_serialize_prepare (skr_sender_key_states r)\<rparr>"] by simp
  also have "\<dots> \<le> 5 * (10 + (2 ^ 24 + 2 ^ 18))"
  proof (rule sum_list_map_le)
    show "10 + protobuf_c_message_get_packed_size (SenderKeyStateStructure_to_msg y) \<le> 10 + (2 ^ 24 + 2 ^ 18)"
      if "y \<in> set (map sender_key_state_serialize_prepare (skr_sender_key_states r))" for y
      using that assms sender_key_state_structure_size [of mac]
      by (fastforce simp: sender_key_record_ok_def list_all_iff)
  qed (use assms in \<open>simp add: sender_key_record_ok_def MAX_STATES_def\<close>)
  finally show ?thesis
    by simp
qed

lemma sender_key_record_roundtrip:
  assumes "hmac_spec context mac" "sender_key_record_ok mac r"
  shows "rbind (sender_key_record_serialize r) (sender_key_record_deserialize context) =
    Inr (r\<lparr>skr_user_record := None\<rparr>)"
proof -
  have "mapM_result (sender_key_state_deserialize_protobuf context)
      (map sender_key_state_serialize_prepare (skr_sender_key_states r)) = Inr (map id (skr_sender_key_states r))"
    using assms(2) sender_key_state_protobuf_roundtrip [OF assms(1)]
    by (intro mapM_result_map) (simp add: sender_key_record_ok_def list_all_iff)
  then show ?thesis
    using sender_key_record_size [OF assms(2)]
    by (cases r) (simp add: sender_key_record_serialize_def sender_key_record_deserialize_def checked_pack_def
        textsecure__sender_key_record_structure__init_def sender_key_record_create_def
        textsecure__sender_key_record_structure__roundtrip
        textsecure__sender_key_record_structure__get_packed_size_def)
qed

lemma sender_key_record_copy_id:
  assumes "hmac_spec context mac" "sender_key_record_ok mac r"
  shows "sender_key_record_copy context r = Inr r"
  using sender_key_record_roundtrip [OF assms]
  by (cases r; cases "skr_user_record r") (auto simp: sender_key_record_copy_def rbind_eq_Inr)

end
