(* ===== verification/Store.thy ===== *)
theory Store
  imports Session_Record Session_Pre_Key Sender_Key_Record
begin

text \<open>
  The store context of \<open>signal_protocol.c\<close>: the application's callbacks for sessions,
  pre-keys, signed pre-keys, identities and sender keys, and the functions that serialize
  objects around them. The callbacks act on the world; a negative return value is an error, other
  values and the output buffers are results. Buffers are null when the callback left
  them unset.

  The lemmas: with a store that returns what was last stored under an address
  (\<open>session_store_spec\<close>, \<open>pre_key_store_spec\<close>, \<open>sender_key_store_spec\<close>), loading a stored
  session, pre-key, signed pre-key or sender key record gives the stored object.
\<close>

record signal_protocol_address =
  addr_name :: bytes
  addr_device_id :: int

record signal_protocol_sender_key_name =
  skn_group_id :: bytes
  skn_sender :: signal_protocol_address

record 'w signal_protocol_store_context =
  load_session_func :: "signal_protocol_address \<Rightarrow> ('w, int \<times> bytes option \<times> bytes option) act"
  get_sub_device_sessions_func :: "bytes \<Rightarrow> ('w, int list) act"
  store_session_func :: "signal_protocol_address \<Rightarrow> bytes \<Rightarrow> bytes option \<Rightarrow> ('w, int) act"
  contains_session_func :: "signal_protocol_address \<Rightarrow> ('w, int) act"
  delete_session_func :: "signal_protocol_address \<Rightarrow> ('w, int) act"
  delete_all_sessions_func :: "bytes \<Rightarrow> ('w, int) act"
  load_pre_key :: "u32 \<Rightarrow> ('w, bytes option) act"
  store_pre_key :: "u32 \<Rightarrow> bytes \<Rightarrow> ('w, int) act"
  contains_pre_key :: "u32 \<Rightarrow> ('w, int) act"
  remove_pre_key :: "u32 \<Rightarrow> ('w, int) act"
  load_signed_pre_key :: "u32 \<Rightarrow> ('w, bytes option) act"
  store_signed_pre_key :: "u32 \<Rightarrow> bytes \<Rightarrow> ('w, int) act"
  contains_signed_pre_key :: "u32 \<Rightarrow> ('w, int) act"
  remove_signed_pre_key :: "u32 \<Rightarrow> ('w, int) act"
  get_identity_key_pair :: "('w, bytes option \<times> bytes option) act"
  get_local_registration_id :: "('w, u32) act"
  save_identity :: "signal_protocol_address \<Rightarrow> bytes option \<Rightarrow> ('w, int) act"
  is_trusted_identity :: "signal_protocol_address \<Rightarrow> bytes \<Rightarrow> ('w, int) act"
  store_sender_key :: "signal_protocol_sender_key_name \<Rightarrow> bytes \<Rightarrow> bytes option \<Rightarrow> ('w, int) act"
  load_sender_key :: "signal_protocol_sender_key_name \<Rightarrow> ('w, int \<times> bytes option \<times> bytes option) act"

section \<open>Sessions\<close>

definition signal_protocol_session_load_session ::
  "'w signal_protocol_store_context \<Rightarrow> signal_protocol_address \<Rightarrow> ('w, session_record) act" where
  "signal_protocol_session_load_session store address =
     sbind (load_session_func store address) (\<lambda>(result, buffer, user_buffer).
     sbind (slift (
       if result = 0 then
         (case buffer of Some b \<Rightarrow> Inl SG_ERR_UNKNOWN | None \<Rightarrow> Inr (session_record_create None))
       else if result = 1 then
         (case buffer of None \<Rightarrow> Inl (SG_ERR_CODE (-1)) | Some b \<Rightarrow> session_record_deserialize b)
       else Inl SG_ERR_UNKNOWN)) (\<lambda>result_record.
     sreturn (case user_buffer of
                None \<Rightarrow> result_record
              | Some u \<Rightarrow> session_record_set_user_record result_record (Some u))))"

definition signal_protocol_session_get_sub_device_sessions ::
  "'w signal_protocol_store_context \<Rightarrow> bytes \<Rightarrow> ('w, int list) act" where
  "signal_protocol_session_get_sub_device_sessions store name = get_sub_device_sessions_func store name"

definition signal_protocol_session_store_session ::
  "'w signal_protocol_store_context \<Rightarrow> signal_protocol_address \<Rightarrow> session_record \<Rightarrow> ('w, int) act" where
  "signal_protocol_session_store_session store address r =
     sbind (slift (session_record_serialize (Some r))) (\<lambda>buffer.
     store_session_func store address buffer (session_record_get_user_record r))"

definition signal_protocol_session_contains_session ::
  "'w signal_protocol_store_context \<Rightarrow> signal_protocol_address \<Rightarrow> ('w, int) act" where
  "signal_protocol_session_contains_session store address = contains_session_func store address"

definition signal_protocol_session_delete_session ::
  "'w signal_protocol_store_context \<Rightarrow> signal_protocol_address \<Rightarrow> ('w, int) act" where
  "signal_protocol_session_delete_session store address = delete_session_func store address"

definition signal_protocol_session_delete_all_sessions ::
  "'w signal_protocol_store_context \<Rightarrow> bytes \<Rightarrow> ('w, int) act" where
  "signal_protocol_session_delete_all_sessions store name = delete_all_sessions_func store name"

section \<open>Pre-keys\<close>

definition signal_protocol_pre_key_load_key ::
  "'w signal_protocol_store_context \<Rightarrow> u32 \<Rightarrow> ('w, session_pre_key) act" where
  "signal_protocol_pre_key_load_key store pre_key_id =
     sbind (load_pre_key store pre_key_id) (\<lambda>buffer.
     slift (rbind (deref buffer) session_pre_key_deserialize))"

definition signal_protocol_pre_key_store_key ::
  "'w signal_protocol_store_context \<Rightarrow> session_pre_key \<Rightarrow> ('w, int) act" where
  "signal_protocol_pre_key_store_key store pre_key =
     sbind (slift (session_pre_key_serialize (Some pre_key))) (\<lambda>buffer.
     store_pre_key store (session_pre_key_get_id pre_key) buffer)"

definition signal_protocol_pre_key_contains_key ::
  "'w signal_protocol_store_context \<Rightarrow> u32 \<Rightarrow> ('w, int) act" where
  "signal_protocol_pre_key_contains_key store pre_key_id = contains_pre_key store pre_key_id"

definition signal_protocol_pre_key_remove_key ::
  "'w signal_protocol_store_context \<Rightarrow> u32 \<Rightarrow> ('w, int) act" where
  "signal_protocol_pre_key_remove_key store pre_key_id = remove_pre_key store pre_key_id"

definition signal_protocol_signed_pre_key_load_key ::
  "'w signal_protocol_store_context \<Rightarrow> u32 \<Rightarrow> ('w, session_signed_pre_key) act" where
  "signal_protocol_signed_pre_key_load_key store signed_pre_key_id =
     sbind (load_signed_pre_key store signed_pre_key_id) (\<lambda>buffer.
     slift (rbind (deref buffer) session_signed_pre_key_deserialize))"

definition signal_protocol_signed_pre_key_store_key ::
  "'w signal_protocol_store_context \<Rightarrow> session_signed_pre_key \<Rightarrow> ('w, int) act" where
  "signal_protocol_signed_pre_key_store_key store pre_key =
     sbind (slift (session_signed_pre_key_serialize pre_key)) (\<lambda>buffer.
     store_signed_pre_key store (session_signed_pre_key_get_id pre_key) buffer)"

definition signal_protocol_signed_pre_key_contains_key ::
  "'w signal_protocol_store_context \<Rightarrow> u32 \<Rightarrow> ('w, int) act" where
  "signal_protocol_signed_pre_key_contains_key store signed_pre_key_id =
     contains_signed_pre_key store signed_pre_key_id"

definition signal_protocol_signed_pre_key_remove_key ::
  "'w signal_protocol_store_context \<Rightarrow> u32 \<Rightarrow> ('w, int) act" where
  "signal_protocol_signed_pre_key_remove_key store signed_pre_key_id =
     remove_signed_pre_key store signed_pre_key_id"

section \<open>Identities\<close>

definition signal_protocol_identity_get_key_pair ::
  "'w signal_protocol_store_context \<Rightarrow> ('w, ratchet_identity_key_pair) act" where
  "signal_protocol_identity_get_key_pair store =
     sbind (get_identity_key_pair store) (\<lambda>(public_buf, private_buf).
     slift (
       rbind (deref public_buf) (\<lambda>public_data.
       rbind (curve_decode_point public_data) (\<lambda>public_key.
       rbind (deref private_buf) (\<lambda>private_data.
       rbind (curve_decode_private_point private_data) (\<lambda>private_key.
       Inr (ratchet_identity_key_pair_create public_key private_key)))))))"

definition signal_protocol_identity_get_local_registration_id ::
  "'w signal_protocol_store_context \<Rightarrow> ('w, u32) act" where
  "signal_protocol_identity_get_local_registration_id store = get_local_registration_id store"

definition signal_protocol_identity_save_identity ::
  "'w signal_protocol_store_context \<Rightarrow> signal_protocol_address \<Rightarrow> ec_public_key option \<Rightarrow> ('w, int) act" where
  "signal_protocol_identity_save_identity store address identity_key =
     (case identity_key of
        Some k \<Rightarrow>
          sbind (slift (ec_public_key_serialize (Some k))) (\<lambda>buffer.
          save_identity store address (Some buffer))
      | None \<Rightarrow> save_identity store address None)"

definition signal_protocol_identity_is_trusted_identity ::
  "'w signal_protocol_store_context \<Rightarrow> signal_protocol_address \<Rightarrow> ec_public_key option \<Rightarrow> ('w, int) act" where
  "signal_protocol_identity_is_trusted_identity store address identity_key =
     sbind (slift (ec_public_key_serialize identity_key)) (\<lambda>buffer.
     is_trusted_identity store address buffer)"

section \<open>Sender keys\<close>

definition signal_protocol_sender_key_store_key ::
  "'w signal_protocol_store_context \<Rightarrow> signal_protocol_sender_key_name \<Rightarrow> sender_key_record \<Rightarrow> ('w, int) act" where
  "signal_protocol_sender_key_store_key store sender_key_name r =
     sbind (slift (sender_key_record_serialize r)) (\<lambda>buffer.
     store_sender_key store sender_key_name buffer (sender_key_record_get_user_record r))"

definition signal_protocol_sender_key_load_key ::
  "('h, 'd, 'w) signal_context \<Rightarrow> 'w signal_protocol_store_context \<Rightarrow> signal_protocol_sender_key_name \<Rightarrow>
     ('w, sender_key_record) act" where
  "signal_protocol_sender_key_load_key context store sender_key_name =
     sbind (load_sender_key store sender_key_name) (\<lambda>(result, buffer, user_buffer).
     sbind (slift (
       if result = 0 then
         (case buffer of Some b \<Rightarrow> Inl SG_ERR_UNKNOWN | None \<Rightarrow> Inr sender_key_record_create)
       else if result = 1 then
         (case buffer of None \<Rightarrow> Inl (SG_ERR_CODE (-1)) | Some b \<Rightarrow> sender_key_record_deserialize context b)
       else Inl SG_ERR_UNKNOWN)) (\<lambda>result_record.
     sreturn (case user_buffer of
                None \<Rightarrow> result_record
              | Some u \<Rightarrow> sender_key_record_set_user_record result_record (Some u))))"

section \<open>Load after store\<close>

text \<open>
  A store that works returns the record and user record last stored. Loading a sender key
  does not change what is stored.
\<close>

definition session_store_spec :: "'w signal_protocol_store_context \<Rightarrow> bool" where
  "session_store_spec store \<longleftrightarrow>
     (\<forall>address rec user w. \<exists>n w'.
        store_session_func store address rec user w = (Inr n, w') \<and>
        (\<exists>w''. load_session_func store address w' = (Inr (1, Some rec, user), w'')))"

definition pre_key_store_spec :: "'w signal_protocol_store_context \<Rightarrow> bool" where
  "pre_key_store_spec store \<longleftrightarrow>
     (\<forall>i rec w. \<exists>n w'. store_pre_key store i rec w = (Inr n, w') \<and>
        (\<exists>w''. load_pre_key store i w' = (Inr (Some rec), w''))) \<and>
     (\<forall>i rec w. \<exists>n w'. store_signed_pre_key store i rec w = (Inr n, w') \<and>
        (\<exists>w''. load_signed_pre_key store i w' = (Inr (Some rec), w'')))"

definition sender_key_store_spec :: "'w signal_protocol_store_context \<Rightarrow> bool" where
  "sender_key_store_spec store \<longleftrightarrow>
     (\<forall>sender_key_name rec user w. \<exists>n w'.
        store_sender_key store sender_key_name rec user w = (Inr n, w') \<and>
        (\<exists>w''. load_sender_key store sender_key_name w' = (Inr (1, Some rec, user), w''))) \<and>
     (\<forall>sender_key_name x w w'.
        load_sender_key store sender_key_name w = (Inr x, w') \<longrightarrow>
        (\<exists>w''. load_sender_key store sender_key_name w' = (Inr x, w'')))"

lemma session_serialize_ok:
  assumes "session_record_ok r"
  obtains data where "session_record_serialize (Some r) = Inr data"
    "session_record_deserialize data = Inr (r\<lparr>sr_is_fresh := False, sr_user_record := None\<rparr>)"
  using session_record_roundtrip [OF assms] by (auto simp: rbind_eq_Inr)

lemma session_load_stored:
  assumes "session_store_spec store" "session_record_ok r"
  shows "\<exists>n w' w''. signal_protocol_session_store_session store address r w = (Inr n, w') \<and>
    signal_protocol_session_load_session store address w' = (Inr (r\<lparr>sr_is_fresh := False\<rparr>), w'')"
proof -
  obtain data where data: "session_record_serialize (Some r) = Inr data"
    "session_record_deserialize data = Inr (r\<lparr>sr_is_fresh := False, sr_user_record := None\<rparr>)"
    using session_serialize_ok [OF assms(2)] .
  obtain n w' w'' where w: "store_session_func store address data (sr_user_record r) w = (Inr n, w')"
    "load_session_func store address w' = (Inr (1, Some data, sr_user_record r), w'')"
    using assms(1) unfolding session_store_spec_def by blast
  then have "signal_protocol_session_store_session store address r w = (Inr n, w')"
    by (simp add: signal_protocol_session_store_session_def data session_record_get_user_record_def)
  moreover have "signal_protocol_session_load_session store address w' = (Inr (r\<lparr>sr_is_fresh := False\<rparr>), w'')"
    using w(2) data(2)
    by (cases r) (simp add: signal_protocol_session_load_session_def sbind_Inr session_record_set_user_record_def
        split: option.splits)
  ultimately show ?thesis
    by blast
qed

lemma pre_key_load_stored:
  assumes "pre_key_store_spec store" "session_pre_key_ok k"
  shows "\<exists>n w' w''. signal_protocol_pre_key_store_key store k w = (Inr n, w') \<and>
    signal_protocol_pre_key_load_key store (session_pre_key_get_id k) w' = (Inr k, w'')"
proof -
  obtain data where data: "session_pre_key_serialize (Some k) = Inr data" "session_pre_key_deserialize data = Inr k"
    using session_pre_key_roundtrip [OF assms(2)] by blast
  obtain n w' w'' where "store_pre_key store (pk_id k) data w = (Inr n, w')"
    "load_pre_key store (pk_id k) w' = (Inr (Some data), w'')"
    using assms(1) unfolding pre_key_store_spec_def by meson
  then have "signal_protocol_pre_key_store_key store k w = (Inr n, w')"
    "signal_protocol_pre_key_load_key store (session_pre_key_get_id k) w' = (Inr k, w'')"
    using data by (simp_all add: signal_protocol_pre_key_store_key_def signal_protocol_pre_key_load_key_def
        session_pre_key_get_id_def sbind_Inr slift_def)
  then show ?thesis
    by blast
qed

lemma signed_pre_key_load_stored:
  assumes "pre_key_store_spec store" "session_signed_pre_key_ok k"
  shows "\<exists>n w' w''. signal_protocol_signed_pre_key_store_key store k w = (Inr n, w') \<and>
    signal_protocol_signed_pre_key_load_key store (session_signed_pre_key_get_id k) w' = (Inr k, w'')"
proof -
  obtain data where data: "session_signed_pre_key_serialize k = Inr data"
    "session_signed_pre_key_deserialize data = Inr k"
    using session_signed_pre_key_roundtrip [OF assms(2)] by blast
  obtain n w' w'' where "store_signed_pre_key store (spk_id k) data w = (Inr n, w')"
    "load_signed_pre_key store (spk_id k) w' = (Inr (Some data), w'')"
    using assms(1) unfolding pre_key_store_spec_def by meson
  then have "signal_protocol_signed_pre_key_store_key store k w = (Inr n, w')"
    "signal_protocol_signed_pre_key_load_key store (session_signed_pre_key_get_id k) w' = (Inr k, w'')"
    using data by (simp_all add: signal_protocol_signed_pre_key_store_key_def
        signal_protocol_signed_pre_key_load_key_def session_signed_pre_key_get_id_def sbind_Inr slift_def)
  then show ?thesis
    by blast
qed

lemma sender_key_load_stored:
  assumes "hmac_spec context mac" "sender_key_store_spec store" "sender_key_record_ok mac r"
  shows "\<exists>n w' w''. signal_protocol_sender_key_store_key store sender_key_name r w = (Inr n, w') \<and>
    signal_protocol_sender_key_load_key context store sender_key_name w' = (Inr r, w'')"
proof -
  obtain data where data: "sender_key_record_serialize r = Inr data"
    "sender_key_record_deserialize context data = Inr (r\<lparr>skr_user_record := None\<rparr>)"
    using sender_key_record_roundtrip [OF assms(1,3)] by (auto simp: rbind_eq_Inr)
  obtain n w' w'' where w: "store_sender_key store sender_key_name data (skr_user_record r) w = (Inr n, w')"
    "load_sender_key store sender_key_name w' = (Inr (1, Some data, skr_user_record r), w'')"
    using assms(2) unfolding sender_key_store_spec_def by blast
  then have "signal_protocol_sender_key_store_key store sender_key_name r w = (Inr n, w')"
    by (simp add: signal_protocol_sender_key_store_key_def data sender_key_record_get_user_record_def)
  moreover have "signal_protocol_sender_key_load_key context store sender_key_name w' = (Inr r, w'')"
    using w(2) data(2)
    by (cases r) (simp add: signal_protocol_sender_key_load_key_def sbind_Inr sender_key_record_set_user_record_def
        split: option.splits)
  ultimately show ?thesis
    by blast
qed

lemma sender_key_load_again:
  assumes "sender_key_store_spec store"
    and "signal_protocol_sender_key_load_key context store sender_key_name w = (Inr r, w')"
  shows "\<exists>w''. signal_protocol_sender_key_load_key context store sender_key_name w' = (Inr r, w'')"
proof -
  obtain x w1 where x: "load_sender_key store sender_key_name w = (Inr x, w1)"
    using assms(2) by (auto simp: signal_protocol_sender_key_load_key_def sbind_eq_Inr)
  then have "w1 = w'"
    using assms(2) by (cases x) (auto simp: signal_protocol_sender_key_load_key_def sbind_Inr sbind_eq_Inr)
  then obtain w2 where "load_sender_key store sender_key_name w' = (Inr x, w2)"
    using assms(1) x unfolding sender_key_store_spec_def by blast
  then show ?thesis
    using assms(2) x
    by (cases x) (auto simp: signal_protocol_sender_key_load_key_def sbind_Inr sbind_eq_Inr split: if_splits)
qed

end
