(* ===== verification/Vpool.thy ===== *)
theory Vpool
  imports Prelude
begin

text \<open>
  \<open>vpool.c\<close>: a growing byte buffer. \<open>v_mem\<close> is the allocated block (\<open>v_basebuf\<close>, of
  \<open>v_size\<close> bytes), the data start at the offset \<open>v_start\<close> (\<open>v_buf - v_basebuf\<close>) and have
  \<open>v_off\<close> bytes. Sizes are \<open>size_t\<close>: naturals below \<open>2 ^ 64\<close>, with the wrap-around of the
  two additions in \<open>vpool_new_size\<close> written out. A write outside the block is \<open>SG_ABORT\<close>.

  The pool implements byte strings: with \<open>vpool_get_buf\<close> as abstraction function each
  operation refines the corresponding operation on lists, as long as the data stay
  a block size away from \<open>2 ^ 64\<close>.
\<close>

record vpool =
  v_mem :: bytes
  v_start :: nat
  v_off :: nat
  v_size :: nat
  v_blksize :: nat
  v_limit :: nat
  v_lasterr :: int

definition SIZE_MAX :: nat where "SIZE_MAX = 2 ^ 64 - 1"

definition EFBIG :: int where "EFBIG = 27"
definition ERANGE :: int where "ERANGE = 34"

definition size_add :: "nat \<Rightarrow> nat \<Rightarrow> nat" where
  "size_add a b = (a + b) mod 2 ^ 64"

text \<open>Copying \<open>data\<close> into a block.\<close>

definition mem_write :: "bytes \<Rightarrow> nat \<Rightarrow> bytes \<Rightarrow> bytes result" where
  "mem_write mem pos data =
     (if pos + length data \<le> length mem
      then Inr (take pos mem @ data @ drop (pos + length data) mem) else Inl SG_ABORT)"

definition vpool_shift :: "vpool \<Rightarrow> vpool result" where
  "vpool_shift pool =
     (if v_start pool \<noteq> 0 then
        rbind (mem_write (v_mem pool) 0 (take (v_off pool) (drop (v_start pool) (v_mem pool)))) (\<lambda>mem.
        Inr (pool\<lparr>v_mem := mem, v_start := 0\<rparr>))
      else Inr pool)"

definition vpool_new_size :: "vpool \<Rightarrow> nat \<Rightarrow> nat option" where
  "vpool_new_size pool datsize =
     (if datsize \<le> v_size pool - v_off pool then Some (v_size pool)
      else if v_limit pool - v_off pool < datsize then None
      else
        let need = size_add (v_off pool) datsize; rem = need mod v_blksize pool in
        Some (if rem \<noteq> 0 then
                (if v_limit pool - v_off pool \<ge> size_add datsize (v_blksize pool - rem)
                 then size_add need (v_blksize pool - rem) else v_limit pool)
              else need))"

text \<open>The bytes of a new block are unspecified; they are 0 here and read by no caller.\<close>

definition vpool_resize :: "vpool \<Rightarrow> nat \<Rightarrow> (int \<times> vpool) result" where
  "vpool_resize pool datsize =
     (case vpool_new_size pool datsize of
        None \<Rightarrow> Inr (EFBIG, pool)
      | Some new_size \<Rightarrow>
          if new_size > v_size pool then
            rbind (mem_write (replicate new_size 0) 0
                     (take (v_off pool) (drop (v_start pool) (v_mem pool)))) (\<lambda>ret.
            Inr (0, pool\<lparr>v_mem := ret, v_start := 0, v_size := new_size\<rparr>))
          else if (v_size pool - v_off pool) - v_start pool < datsize then
            rbind (vpool_shift pool) (\<lambda>pool. Inr (0, pool))
          else Inr (0, pool))"

definition vpool_init :: "nat \<Rightarrow> nat \<Rightarrow> vpool" where
  "vpool_init blksize limit =
     \<lparr>v_mem = [], v_start = 0, v_off = 0, v_size = 0,
      v_blksize = (if blksize = 0 then 4096 else blksize),
      v_limit = (if limit = 0 then SIZE_MAX else limit), v_lasterr = 0\<rparr>"

definition vpool_reset :: "vpool \<Rightarrow> vpool" where
  "vpool_reset pool = pool\<lparr>v_mem := [], v_start := 0, v_off := 0, v_size := 0, v_lasterr := 0\<rparr>"

definition vpool_wipe :: "vpool \<Rightarrow> vpool" where
  "vpool_wipe pool = pool\<lparr>v_off := 0, v_lasterr := 0\<rparr>"

text \<open>The flag tells whether the returned pointer is non-null.\<close>

definition vpool_insert :: "vpool \<Rightarrow> nat \<Rightarrow> bytes \<Rightarrow> (bool \<times> vpool) result" where
  "vpool_insert pool pos data =
     rbind (vpool_resize pool (length data)) (\<lambda>(error, pool).
     if error \<noteq> 0 then Inr (False, pool\<lparr>v_lasterr := error\<rparr>)
     else
       let pos = (if pos > v_off pool then v_off pool else pos);
           ret = v_start pool + pos in
       rbind (if v_off pool - pos > 0
              then mem_write (v_mem pool) (ret + length data)
                     (take (v_off pool - pos) (drop ret (v_mem pool)))
              else Inr (v_mem pool)) (\<lambda>mem.
       rbind (mem_write mem ret data) (\<lambda>mem.
       Inr (True, pool\<lparr>v_mem := mem, v_off := v_off pool + length data, v_lasterr := 0\<rparr>))))"

datatype vpool_trunc = VPOOL_EXCLUDE | VPOOL_INCLUDE

definition vpool_truncate :: "vpool \<Rightarrow> nat \<Rightarrow> nat \<Rightarrow> vpool_trunc \<Rightarrow> (int \<times> vpool) result" where
  "vpool_truncate pool pos len how =
     (if pos \<ge> v_off pool \<or> len > v_off pool \<or> v_off pool - len < pos
      then Inr (ERANGE, pool\<lparr>v_lasterr := ERANGE\<rparr>)
      else
        rbind
          (case how of
             VPOOL_EXCLUDE \<Rightarrow>
               rbind (if pos = 0 then Inr (pool\<lparr>v_start := v_start pool + len\<rparr>)
                      else rbind (mem_write (v_mem pool) (v_start pool + pos)
                                    (take (v_off pool - len - pos)
                                       (drop (v_start pool + pos + len) (v_mem pool)))) (\<lambda>mem.
                           Inr (pool\<lparr>v_mem := mem\<rparr>))) (\<lambda>pool.
               Inr (pool\<lparr>v_off := v_off pool - len\<rparr>))
           | VPOOL_INCLUDE \<Rightarrow> Inr (pool\<lparr>v_start := v_start pool + pos, v_off := len\<rparr>))
          (\<lambda>pool. Inr (0, pool\<lparr>v_lasterr := 0\<rparr>)))"

definition vpool_get_buf :: "vpool \<Rightarrow> bytes" where
  "vpool_get_buf pool = take (v_off pool) (drop (v_start pool) (v_mem pool))"

definition vpool_get_length :: "vpool \<Rightarrow> nat" where
  "vpool_get_length pool = v_off pool"

definition vpool_is_empty :: "vpool \<Rightarrow> bool" where
  "vpool_is_empty pool \<longleftrightarrow> v_off pool = 0"

definition vpool_export :: "vpool \<Rightarrow> (bytes \<times> vpool) result" where
  "vpool_export pool =
     rbind (vpool_shift pool) (\<lambda>pool.
     Inr (vpool_get_buf pool,
          pool\<lparr>v_mem := [], v_start := 0, v_off := 0, v_size := 0, v_lasterr := 0\<rparr>))"

section \<open>The pool as a byte string\<close>

definition vpool_ok :: "vpool \<Rightarrow> bool" where
  "vpool_ok pool \<longleftrightarrow>
     length (v_mem pool) = v_size pool \<and> v_start pool + v_off pool \<le> v_size pool \<and>
     v_size pool \<le> v_limit pool \<and> v_limit pool \<le> SIZE_MAX \<and> 0 < v_blksize pool"

lemma vpool_init_ok: "limit \<le> SIZE_MAX \<Longrightarrow> vpool_ok (vpool_init blksize limit)"
  by (simp add: vpool_ok_def vpool_init_def SIZE_MAX_def)

lemma vpool_init_contents: "vpool_get_buf (vpool_init blksize limit) = []"
  by (simp add: vpool_get_buf_def vpool_init_def)

lemma length_vpool_get_buf: "vpool_ok pool \<Longrightarrow> length (vpool_get_buf pool) = vpool_get_length pool"
  by (auto simp: vpool_ok_def vpool_get_buf_def vpool_get_length_def)

lemma mem_write_mid:
  "length ys = length data \<Longrightarrow> pos = length xs \<Longrightarrow> mem_write (xs @ ys @ zs) pos data = Inr (xs @ data @ zs)"
  by (simp add: mem_write_def)

lemma mem_insert:
  assumes "length data \<le> length post"
  shows "rbind (if 0 < length b then mem_write (pre @ a @ b @ post) (length pre + length a + length data) b
                else Inr (pre @ a @ b @ post))
           (\<lambda>mem. mem_write mem (length pre + length a) data) =
         Inr (pre @ a @ data @ b @ drop (length data) post)"
proof -
  let ?gap = "take (length data) (b @ post)"
  have "b \<noteq> [] \<Longrightarrow> mem_write (pre @ a @ b @ post) (length pre + length a + length data) b =
      Inr (pre @ a @ ?gap @ b @ drop (length data) post)"
    using assms by (simp add: mem_write_def)
  moreover have "mem_write ((pre @ a) @ ?gap @ b @ drop (length data) post) (length pre + length a) data =
      Inr ((pre @ a) @ data @ b @ drop (length data) post)"
    using assms by (intro mem_write_mid) simp_all
  ultimately show ?thesis
    by (cases "b = []") (simp_all del: take_append)
qed

lemma vpool_shift_refines:
  assumes "vpool_ok pool"
  obtains pool' where "vpool_shift pool = Inr pool'" "vpool_ok pool'"
    "vpool_get_buf pool' = vpool_get_buf pool" "v_start pool' = 0" "v_off pool' = v_off pool"
    "v_size pool' = v_size pool" "v_blksize pool' = v_blksize pool" "v_limit pool' = v_limit pool"
proof (cases "v_start pool = 0")
  case True
  then show ?thesis
    using that [of pool] assms by (simp add: vpool_shift_def)
next
  case False
  let ?data = "take (v_off pool) (drop (v_start pool) (v_mem pool))"
  have "length ?data = v_off pool" "v_off pool \<le> length (v_mem pool)"
    using assms by (auto simp: vpool_ok_def)
  then show ?thesis
    using that [of "pool\<lparr>v_mem := ?data @ drop (v_off pool) (v_mem pool), v_start := 0\<rparr>"] assms False
    by (simp add: vpool_shift_def mem_write_def vpool_ok_def vpool_get_buf_def)
qed

lemma vpool_new_size_cases:
  assumes "(if datsize \<le> free then Some have_size else if room < datsize then None
            else Some (if rem \<noteq> 0 then (if datsize + pad \<le> room then need + pad else limit) else need)) =
           Some (n :: nat)"
  obtains "datsize \<le> free" "n = have_size"
  | "free < datsize" "datsize \<le> room" "n = need"
  | "free < datsize" "datsize + pad \<le> room" "n = need + pad"
  | "free < datsize" "datsize \<le> room" "n = limit"
  using assms by (auto simp: not_le not_less split: if_splits)

lemma vpool_new_size_enough:
  assumes "vpool_ok pool" "v_off pool + datsize + v_blksize pool \<le> SIZE_MAX"
    "vpool_new_size pool datsize = Some n"
  shows "v_off pool + datsize \<le> n" "n \<le> v_limit pool" "v_size pool \<le> n"
proof -
  define need where "need = v_off pool + datsize"
  define pad where "pad = v_blksize pool - need mod v_blksize pool"
  have "need + v_blksize pool < 2 ^ 64"
    using assms(2) by (simp add: need_def SIZE_MAX_def)
  then have "v_off pool + datsize < 2 ^ 64" "datsize + pad < 2 ^ 64" "need + pad < 2 ^ 64"
    unfolding need_def pad_def by linarith+
  then have wrap: "size_add (v_off pool) datsize = need" "size_add datsize pad = datsize + pad"
    "size_add need pad = need + pad"
    by (simp_all only: size_add_def need_def mod_less)
  have ok: "v_off pool \<le> v_size pool" "v_size pool \<le> v_limit pool"
    using assms(1) by (auto simp: vpool_ok_def)
  have "v_off pool + datsize \<le> n \<and> n \<le> v_limit pool \<and> v_size pool \<le> n"
    using assms(3) [unfolded vpool_new_size_def Let_def wrap(1), folded pad_def, unfolded wrap(2,3)]
    by (rule vpool_new_size_cases) (use ok in \<open>auto simp: need_def\<close>)
  then show "v_off pool + datsize \<le> n" "n \<le> v_limit pool" "v_size pool \<le> n"
    by simp_all
qed

lemma vpool_resize_refines:
  assumes "vpool_ok pool" "v_off pool + datsize + v_blksize pool \<le> SIZE_MAX"
    "v_off pool + datsize \<le> v_limit pool"
  obtains pool' where "vpool_resize pool datsize = Inr (0, pool')" "vpool_ok pool'"
    "vpool_get_buf pool' = vpool_get_buf pool" "v_off pool' = v_off pool"
    "v_start pool' + v_off pool + datsize \<le> v_size pool'"
    "v_blksize pool' = v_blksize pool" "v_limit pool' = v_limit pool"
proof -
  have "vpool_new_size pool datsize \<noteq> None"
    using assms(3) by (simp add: vpool_new_size_def Let_def)
  then obtain n where n: "vpool_new_size pool datsize = Some n"
    by blast
  note enough = vpool_new_size_enough [OF assms(1,2) n]
  let ?data = "take (v_off pool) (drop (v_start pool) (v_mem pool))"
  have len: "length ?data = v_off pool"
    using assms(1) by (auto simp: vpool_ok_def)
  consider (grow) "v_size pool < n"
    | (shift) "n = v_size pool" "v_size pool - v_off pool - v_start pool < datsize"
    | (stay) "n = v_size pool" "datsize \<le> v_size pool - v_off pool - v_start pool"
    using enough(3) by linarith
  then show ?thesis
  proof cases
    case grow
    let ?pool = "pool\<lparr>v_mem := ?data @ drop (v_off pool) (replicate n 0), v_start := 0, v_size := n\<rparr>"
    have "vpool_resize pool datsize = Inr (0, ?pool)"
      using n grow enough len by (simp add: vpool_resize_def mem_write_def)
    moreover have "vpool_ok ?pool" "vpool_get_buf ?pool = vpool_get_buf pool"
      using assms(1) enough len by (simp_all add: vpool_ok_def vpool_get_buf_def)
    ultimately show ?thesis
      using that [of ?pool] enough by simp
  next
    case shift
    obtain pool' where "vpool_shift pool = Inr pool'" "vpool_ok pool'"
      "vpool_get_buf pool' = vpool_get_buf pool" "v_start pool' = 0" "v_off pool' = v_off pool"
      "v_size pool' = v_size pool" "v_blksize pool' = v_blksize pool" "v_limit pool' = v_limit pool"
      using vpool_shift_refines [OF assms(1)] .
    then show ?thesis
      using that [of pool'] n shift enough by (simp add: vpool_resize_def)
  next
    case stay
    then show ?thesis
      using that [of pool] n enough assms(1) by (auto simp: vpool_resize_def vpool_ok_def)
  qed
qed

text \<open>
  Insertion refines insertion into a list: the new data stand at the position, or at
  the end when the position is beyond it.
\<close>

lemma vpool_insert_refines:
  assumes "vpool_ok pool" "v_off pool + length data + v_blksize pool \<le> SIZE_MAX"
    "v_off pool + length data \<le> v_limit pool"
  obtains pool' where "vpool_insert pool pos data = Inr (True, pool')" "vpool_ok pool'"
    "vpool_get_buf pool' = take pos (vpool_get_buf pool) @ data @ drop pos (vpool_get_buf pool)"
    "v_blksize pool' = v_blksize pool" "v_limit pool' = v_limit pool"
    "v_off pool' = v_off pool + length data"
proof -
  obtain p where p: "vpool_resize pool (length data) = Inr (0, p)" "vpool_ok p"
    "vpool_get_buf p = vpool_get_buf pool" "v_off p = v_off pool"
    "v_start p + v_off pool + length data \<le> v_size p" "v_blksize p = v_blksize pool"
    "v_limit p = v_limit pool"
    using vpool_resize_refines [OF assms] .
  define w where "w = min pos (v_off p)"
  define xs where "xs = vpool_get_buf p"
  have mem: "length (v_mem p) = v_size p" "v_start p + v_off p + length data \<le> v_size p"
    using p by (auto simp: vpool_ok_def)
  obtain pre post where pieces: "v_mem p = pre @ xs @ post" "length pre = v_start p"
    "length xs = v_off p" "length data \<le> length post"
  proof
    show "v_mem p = take (v_start p) (v_mem p) @ xs @ drop (v_start p + v_off p) (v_mem p)"
      using append_take_drop_id [of "v_start p" "v_mem p"]
        append_take_drop_id [of "v_off p" "drop (v_start p) (v_mem p)"]
      by (simp add: xs_def vpool_get_buf_def add.commute)
    show "length (take (v_start p) (v_mem p)) = v_start p" "length xs = v_off p"
      "length data \<le> length (drop (v_start p + v_off p) (v_mem p))"
      using mem by (auto simp: xs_def vpool_get_buf_def)
  qed
  define a b where "a = take w xs" and "b = drop w xs"
  have ab: "xs = a @ b" "length a = w" "length b = v_off p - w"
    using pieces(3) by (auto simp: a_def b_def w_def)
  have at: "(if v_off p < pos then v_off p else pos) = length a"
    by (simp add: ab(2) w_def)
  let ?mem = "pre @ a @ data @ b @ drop (length data) post"
  let ?pool = "p\<lparr>v_mem := ?mem, v_off := v_off p + length data, v_lasterr := 0\<rparr>"
  have tail: "v_off p - length a = length b" "take (length b) (drop (v_start p + length a) (v_mem p)) = b"
    using pieces ab by simp_all
  have "vpool_insert pool pos data =
      rbind (rbind (if 0 < length b then mem_write (v_mem p) (v_start p + length a + length data) b
                    else Inr (v_mem p)) (\<lambda>mem. mem_write mem (v_start p + length a) data))
        (\<lambda>mem. Inr (True, p\<lparr>v_mem := mem, v_off := v_off p + length data, v_lasterr := 0\<rparr>))"
    by (simp only: vpool_insert_def p(1) Let_def at tail rbind_Inr rbind_assoc prod.case simp_thms if_False)
  also have "\<dots> = Inr (True, ?pool)"
    using mem_insert [OF pieces(4), of b pre a] by (simp only: pieces(1,2) ab(1) append_assoc rbind_Inr)
  finally have "vpool_insert pool pos data = Inr (True, ?pool)" .
  moreover have "vpool_ok ?pool"
    using p(2) pieces ab mem by (simp add: vpool_ok_def)
  moreover have "vpool_get_buf ?pool = a @ data @ b"
    using pieces ab by (simp add: vpool_get_buf_def w_def)
  moreover have "a = take pos xs" "b = drop pos xs"
    using pieces(3) by (auto simp: a_def b_def w_def min_def)
  ultimately show ?thesis
    using that [of ?pool] p xs_def by simp
qed

text \<open>Inserting at the end appends.\<close>

lemma vpool_append:
  assumes "vpool_ok pool" "v_off pool + length data + v_blksize pool \<le> SIZE_MAX"
    "v_off pool + length data \<le> v_limit pool"
  obtains pool' where "vpool_insert pool (vpool_get_length pool) data = Inr (True, pool')" "vpool_ok pool'"
    "vpool_get_buf pool' = vpool_get_buf pool @ data"
    "v_blksize pool' = v_blksize pool" "v_limit pool' = v_limit pool"
    "v_off pool' = v_off pool + length data"
proof -
  obtain pool' where "vpool_insert pool (vpool_get_length pool) data = Inr (True, pool')" "vpool_ok pool'"
    "vpool_get_buf pool' = take (vpool_get_length pool) (vpool_get_buf pool) @ data @
      drop (vpool_get_length pool) (vpool_get_buf pool)"
    "v_blksize pool' = v_blksize pool" "v_limit pool' = v_limit pool"
    "v_off pool' = v_off pool + length data"
    using vpool_insert_refines [OF assms] .
  then show ?thesis
    using that [of pool'] length_vpool_get_buf [OF assms(1)] by simp
qed

text \<open>Truncation keeps or removes a segment of the byte string.\<close>

lemma vpool_truncate_include:
  assumes "vpool_ok pool" "pos < v_off pool" "pos + len \<le> v_off pool"
  obtains pool' where "vpool_truncate pool pos len VPOOL_INCLUDE = Inr (0, pool')" "vpool_ok pool'"
    "vpool_get_buf pool' = take len (drop pos (vpool_get_buf pool))"
proof -
  let ?pool = "pool\<lparr>v_start := v_start pool + pos, v_off := len, v_lasterr := 0\<rparr>"
  have "vpool_truncate pool pos len VPOOL_INCLUDE = Inr (0, ?pool)" "vpool_ok ?pool"
    using assms by (auto simp: vpool_truncate_def vpool_ok_def)
  moreover have "vpool_get_buf ?pool = take len (drop pos (vpool_get_buf pool))"
    using assms(3) by (simp add: vpool_get_buf_def drop_take min_def add.commute)
  ultimately show ?thesis
    using that by blast
qed

lemma vpool_truncate_exclude:
  assumes "vpool_ok pool" "pos < v_off pool" "pos + len \<le> v_off pool"
  obtains pool' where "vpool_truncate pool pos len VPOOL_EXCLUDE = Inr (0, pool')" "vpool_ok pool'"
    "vpool_get_buf pool' = take pos (vpool_get_buf pool) @ drop (pos + len) (vpool_get_buf pool)"
proof (cases "pos = 0")
  case True
  let ?pool = "pool\<lparr>v_start := v_start pool + len, v_off := v_off pool - len, v_lasterr := 0\<rparr>"
  have "vpool_truncate pool pos len VPOOL_EXCLUDE = Inr (0, ?pool)" "vpool_ok ?pool"
    using assms True by (auto simp: vpool_truncate_def vpool_ok_def)
  moreover have "vpool_get_buf ?pool = take pos (vpool_get_buf pool) @ drop (pos + len) (vpool_get_buf pool)"
    using True by (simp add: vpool_get_buf_def drop_take add.commute)
  ultimately show ?thesis
    using that by blast
next
  case False
  define pre where "pre = take (v_start pool + pos) (v_mem pool)"
  define kept where "kept = take (v_off pool - len - pos) (drop (v_start pool + pos + len) (v_mem pool))"
  have lens: "length pre = v_start pool + pos" "length kept = v_off pool - len - pos"
    "v_start pool + pos + (v_off pool - len - pos) \<le> length (v_mem pool)"
    using assms by (auto simp: pre_def kept_def vpool_ok_def)
  let ?mem = "pre @ kept @ drop (v_start pool + pos + length kept) (v_mem pool)"
  let ?pool = "pool\<lparr>v_mem := ?mem, v_off := v_off pool - len, v_lasterr := 0\<rparr>"
  have "mem_write (v_mem pool) (v_start pool + pos) kept = Inr ?mem"
    using lens by (simp add: mem_write_def pre_def)
  then have "vpool_truncate pool pos len VPOOL_EXCLUDE = Inr (0, ?pool)"
    using assms False by (auto simp: vpool_truncate_def kept_def)
  moreover have "vpool_ok ?pool"
    using assms lens by (auto simp: vpool_ok_def)
  moreover have "vpool_get_buf ?pool = take pos (drop (v_start pool) pre) @ kept"
    using assms lens by (simp add: vpool_get_buf_def)
  moreover have "take pos (drop (v_start pool) pre) = take pos (vpool_get_buf pool)"
    using assms(2) by (simp add: pre_def vpool_get_buf_def take_drop min_def add.commute)
  moreover have "kept = drop (pos + len) (vpool_get_buf pool)"
    by (simp add: kept_def vpool_get_buf_def drop_take ac_simps)
  ultimately show ?thesis
    using that by simp
qed

end
