(* ===== verification/WhisperTextProtocol.thy ===== *)
theory WhisperTextProtocol
  imports Pb_Codec
begin

text \<open>
  The messages of \<open>WhisperTextProtocol.pb-c.c\<close>: the payloads of the messages that
  two parties exchange.
  A structure of the generated header is a record with an optional value per optional
  field and a list per repeated field; its descriptor holds the field numbers, types and
  number ranges of the generated table; \<open>_to_msg\<close> and \<open>_of_msg\<close> relate the structure to
  the generic message that \<open>protobuf-c\<close> reads and writes through the field offsets. Each
  structure is an instance of the locale \<open>pb_codec\<close>, so that unpacking its packed bytes
  gives it back.
\<close>

subsection \<open>\<open>Textsecure__SignalMessage\<close>\<close>

record Textsecure__SignalMessage =
  SignalMessage_ratchetkey :: "bytes option"
  SignalMessage_counter :: "u32 option"
  SignalMessage_previouscounter :: "u32 option"
  SignalMessage_ciphertext :: "bytes option"

definition textsecure__signal_message__init :: Textsecure__SignalMessage where
  "textsecure__signal_message__init =
     \<lparr>SignalMessage_ratchetkey = None, SignalMessage_counter = None,
       SignalMessage_previouscounter = None, SignalMessage_ciphertext = None\<rparr>"

definition textsecure__signal_message__descriptor :: pb_desc where
  "textsecure__signal_message__descriptor = Desc
     [Optional_field 1 TYPE_BYTES,
      Optional_field 2 TYPE_UINT32,
      Optional_field 3 TYPE_UINT32,
      Optional_field 4 TYPE_BYTES]
     [(1, 0), (0, 4)]"

definition SignalMessage_to_msg :: "Textsecure__SignalMessage \<Rightarrow> pb_message" where
  "SignalMessage_to_msg m = Message textsecure__signal_message__descriptor
     [bytes_slot (SignalMessage_ratchetkey m),
      uint32_slot (SignalMessage_counter m),
      uint32_slot (SignalMessage_previouscounter m),
      bytes_slot (SignalMessage_ciphertext m)] []"

definition SignalMessage_of_msg :: "pb_message \<Rightarrow> Textsecure__SignalMessage" where
  "SignalMessage_of_msg m =
     \<lparr>SignalMessage_ratchetkey = slot_bytes (msg_slots m ! 0),
      SignalMessage_counter = slot_uint32 (msg_slots m ! 1),
      SignalMessage_previouscounter = slot_uint32 (msg_slots m ! 2),
      SignalMessage_ciphertext = slot_bytes (msg_slots m ! 3)\<rparr>"

definition textsecure__signal_message__get_packed_size :: "Textsecure__SignalMessage \<Rightarrow> nat" where
  "textsecure__signal_message__get_packed_size m = protobuf_c_message_get_packed_size (SignalMessage_to_msg m)"

definition textsecure__signal_message__pack :: "Textsecure__SignalMessage \<Rightarrow> bytes" where
  "textsecure__signal_message__pack m = protobuf_c_message_pack (SignalMessage_to_msg m)"

definition textsecure__signal_message__unpack :: "bytes \<Rightarrow> pb_error + Textsecure__SignalMessage" where
  "textsecure__signal_message__unpack data =
     map_sum id SignalMessage_of_msg (protobuf_c_message_unpack textsecure__signal_message__descriptor data)"

interpretation SignalMessage: pb_codec textsecure__signal_message__descriptor SignalMessage_to_msg SignalMessage_of_msg
  by unfold_locales
    (simp_all add: textsecure__signal_message__descriptor_def SignalMessage_to_msg_def SignalMessage_of_msg_def
      range_simps upt_conv_Cons)

lemma SignalMessage_size:
  "protobuf_c_message_get_packed_size (SignalMessage_to_msg m) \<le>
     (10 + bytes_len (SignalMessage_ratchetkey m)) +
      (10 +
      (10 +
      ((10 + bytes_len (SignalMessage_ciphertext m)))))"
  unfolding SignalMessage_to_msg_def textsecure__signal_message__descriptor_def message_size_unfold
  by (intro add_mono slot_size_bounds)

lemma textsecure__signal_message__roundtrip:
  "textsecure__signal_message__get_packed_size m < 2 ^ 27 \<Longrightarrow>
     textsecure__signal_message__unpack (textsecure__signal_message__pack m) = Inr m"
  unfolding textsecure__signal_message__get_packed_size_def textsecure__signal_message__pack_def textsecure__signal_message__unpack_def
  by (rule SignalMessage.unpack_pack_msg)

lemma length_textsecure__signal_message__pack [simp]:
  "length (textsecure__signal_message__pack m) = textsecure__signal_message__get_packed_size m"
  by (simp add: textsecure__signal_message__pack_def textsecure__signal_message__get_packed_size_def pack_length)

subsection \<open>\<open>Textsecure__PreKeySignalMessage\<close>\<close>

record Textsecure__PreKeySignalMessage =
  PreKeySignalMessage_prekeyid :: "u32 option"
  PreKeySignalMessage_basekey :: "bytes option"
  PreKeySignalMessage_identitykey :: "bytes option"
  PreKeySignalMessage_message :: "bytes option"
  PreKeySignalMessage_registrationid :: "u32 option"
  PreKeySignalMessage_signedprekeyid :: "u32 option"

definition textsecure__pre_key_signal_message__init :: Textsecure__PreKeySignalMessage where
  "textsecure__pre_key_signal_message__init =
     \<lparr>PreKeySignalMessage_prekeyid = None, PreKeySignalMessage_basekey = None,
       PreKeySignalMessage_identitykey = None, PreKeySignalMessage_message = None,
       PreKeySignalMessage_registrationid = None, PreKeySignalMessage_signedprekeyid = None\<rparr>"

definition textsecure__pre_key_signal_message__descriptor :: pb_desc where
  "textsecure__pre_key_signal_message__descriptor = Desc
     [Optional_field 1 TYPE_UINT32,
      Optional_field 2 TYPE_BYTES,
      Optional_field 3 TYPE_BYTES,
      Optional_field 4 TYPE_BYTES,
      Optional_field 5 TYPE_UINT32,
      Optional_field 6 TYPE_UINT32]
     [(1, 0), (0, 6)]"

definition PreKeySignalMessage_to_msg :: "Textsecure__PreKeySignalMessage \<Rightarrow> pb_message" where
  "PreKeySignalMessage_to_msg m = Message textsecure__pre_key_signal_message__descriptor
     [uint32_slot (PreKeySignalMessage_prekeyid m),
      bytes_slot (PreKeySignalMessage_basekey m),
      bytes_slot (PreKeySignalMessage_identitykey m),
      bytes_slot (PreKeySignalMessage_message m),
      uint32_slot (PreKeySignalMessage_registrationid m),
      uint32_slot (PreKeySignalMessage_signedprekeyid m)] []"

definition PreKeySignalMessage_of_msg :: "pb_message \<Rightarrow> Textsecure__PreKeySignalMessage" where
  "PreKeySignalMessage_of_msg m =
     \<lparr>PreKeySignalMessage_prekeyid = slot_uint32 (msg_slots m ! 0),
      PreKeySignalMessage_basekey = slot_bytes (msg_slots m ! 1),
      PreKeySignalMessage_identitykey = slot_bytes (msg_slots m ! 2),
      PreKeySignalMessage_message = slot_bytes (msg_slots m ! 3),
      PreKeySignalMessage_registrationid = slot_uint32 (msg_slots m ! 4),
      PreKeySignalMessage_signedprekeyid = slot_uint32 (msg_slots m ! 5)\<rparr>"

definition textsecure__pre_key_signal_message__get_packed_size :: "Textsecure__PreKeySignalMessage \<Rightarrow> nat" where
  "textsecure__pre_key_signal_message__get_packed_size m = protobuf_c_message_get_packed_size (PreKeySignalMessage_to_msg m)"

definition textsecure__pre_key_signal_message__pack :: "Textsecure__PreKeySignalMessage \<Rightarrow> bytes" where
  "textsecure__pre_key_signal_message__pack m = protobuf_c_message_pack (PreKeySignalMessage_to_msg m)"

definition textsecure__pre_key_signal_message__unpack :: "bytes \<Rightarrow> pb_error + Textsecure__PreKeySignalMessage" where
  "textsecure__pre_key_signal_message__unpack data =
     map_sum id PreKeySignalMessage_of_msg (protobuf_c_message_unpack textsecure__pre_key_signal_message__descriptor data)"

interpretation PreKeySignalMessage: pb_codec textsecure__pre_key_signal_message__descriptor PreKeySignalMessage_to_msg PreKeySignalMessage_of_msg
  by unfold_locales
    (simp_all add: textsecure__pre_key_signal_message__descriptor_def PreKeySignalMessage_to_msg_def PreKeySignalMessage_of_msg_def
      range_simps upt_conv_Cons)

lemma PreKeySignalMessage_size:
  "protobuf_c_message_get_packed_size (PreKeySignalMessage_to_msg m) \<le>
     10 +
      ((10 + bytes_len (PreKeySignalMessage_basekey m)) +
      ((10 + bytes_len (PreKeySignalMessage_identitykey m)) +
      ((10 + bytes_len (PreKeySignalMessage_message m)) +
      (10 +
      (10)))))"
  unfolding PreKeySignalMessage_to_msg_def textsecure__pre_key_signal_message__descriptor_def message_size_unfold
  by (intro add_mono slot_size_bounds)

lemma textsecure__pre_key_signal_message__roundtrip:
  "textsecure__pre_key_signal_message__get_packed_size m < 2 ^ 27 \<Longrightarrow>
     textsecure__pre_key_signal_message__unpack (textsecure__pre_key_signal_message__pack m) = Inr m"
  unfolding textsecure__pre_key_signal_message__get_packed_size_def textsecure__pre_key_signal_message__pack_def textsecure__pre_key_signal_message__unpack_def
  by (rule PreKeySignalMessage.unpack_pack_msg)

lemma length_textsecure__pre_key_signal_message__pack [simp]:
  "length (textsecure__pre_key_signal_message__pack m) = textsecure__pre_key_signal_message__get_packed_size m"
  by (simp add: textsecure__pre_key_signal_message__pack_def textsecure__pre_key_signal_message__get_packed_size_def pack_length)

subsection \<open>\<open>Textsecure__KeyExchangeMessage\<close>\<close>

record Textsecure__KeyExchangeMessage =
  KeyExchangeMessage_id :: "u32 option"
  KeyExchangeMessage_basekey :: "bytes option"
  KeyExchangeMessage_ratchetkey :: "bytes option"
  KeyExchangeMessage_identitykey :: "bytes option"
  KeyExchangeMessage_basekeysignature :: "bytes option"

definition textsecure__key_exchange_message__init :: Textsecure__KeyExchangeMessage where
  "textsecure__key_exchange_message__init =
     \<lparr>KeyExchangeMessage_id = None, KeyExchangeMessage_basekey = None,
       KeyExchangeMessage_ratchetkey = None, KeyExchangeMessage_identitykey = None,
       KeyExchangeMessage_basekeysignature = None\<rparr>"

definition textsecure__key_exchange_message__descriptor :: pb_desc where
  "textsecure__key_exchange_message__descriptor = Desc
     [Optional_field 1 TYPE_UINT32,
      Optional_field 2 TYPE_BYTES,
      Optional_field 3 TYPE_BYTES,
      Optional_field 4 TYPE_BYTES,
      Optional_field 5 TYPE_BYTES]
     [(1, 0), (0, 5)]"

definition KeyExchangeMessage_to_msg :: "Textsecure__KeyExchangeMessage \<Rightarrow> pb_message" where
  "KeyExchangeMessage_to_msg m = Message textsecure__key_exchange_message__descriptor
     [uint32_slot (KeyExchangeMessage_id m),
      bytes_slot (KeyExchangeMessage_basekey m),
      bytes_slot (KeyExchangeMessage_ratchetkey m),
      bytes_slot (KeyExchangeMessage_identitykey m),
      bytes_slot (KeyExchangeMessage_basekeysignature m)] []"

definition KeyExchangeMessage_of_msg :: "pb_message \<Rightarrow> Textsecure__KeyExchangeMessage" where
  "KeyExchangeMessage_of_msg m =
     \<lparr>KeyExchangeMessage_id = slot_uint32 (msg_slots m ! 0),
      KeyExchangeMessage_basekey = slot_bytes (msg_slots m ! 1),
      KeyExchangeMessage_ratchetkey = slot_bytes (msg_slots m ! 2),
      KeyExchangeMessage_identitykey = slot_bytes (msg_slots m ! 3),
      KeyExchangeMessage_basekeysignature = slot_bytes (msg_slots m ! 4)\<rparr>"

definition textsecure__key_exchange_message__get_packed_size :: "Textsecure__KeyExchangeMessage \<Rightarrow> nat" where
  "textsecure__key_exchange_message__get_packed_size m = protobuf_c_message_get_packed_size (KeyExchangeMessage_to_msg m)"

definition textsecure__key_exchange_message__pack :: "Textsecure__KeyExchangeMessage \<Rightarrow> bytes" where
  "textsecure__key_exchange_message__pack m = protobuf_c_message_pack (KeyExchangeMessage_to_msg m)"

definition textsecure__key_exchange_message__unpack :: "bytes \<Rightarrow> pb_error + Textsecure__KeyExchangeMessage" where
  "textsecure__key_exchange_message__unpack data =
     map_sum id KeyExchangeMessage_of_msg (protobuf_c_message_unpack textsecure__key_exchange_message__descriptor data)"

interpretation KeyExchangeMessage: pb_codec textsecure__key_exchange_message__descriptor KeyExchangeMessage_to_msg KeyExchangeMessage_of_msg
  by unfold_locales
    (simp_all add: textsecure__key_exchange_message__descriptor_def KeyExchangeMessage_to_msg_def KeyExchangeMessage_of_msg_def
      range_simps upt_conv_Cons)

lemma KeyExchangeMessage_size:
  "protobuf_c_message_get_packed_size (KeyExchangeMessage_to_msg m) \<le>
     10 +
      ((10 + bytes_len (KeyExchangeMessage_basekey m)) +
      ((10 + bytes_len (KeyExchangeMessage_ratchetkey m)) +
      ((10 + bytes_len (KeyExchangeMessage_identitykey m)) +
      ((10 + bytes_len (KeyExchangeMessage_basekeysignature m))))))"
  unfolding KeyExchangeMessage_to_msg_def textsecure__key_exchange_message__descriptor_def message_size_unfold
  by (intro add_mono slot_size_bounds)

lemma textsecure__key_exchange_message__roundtrip:
  "textsecure__key_exchange_message__get_packed_size m < 2 ^ 27 \<Longrightarrow>
     textsecure__key_exchange_message__unpack (textsecure__key_exchange_message__pack m) = Inr m"
  unfolding textsecure__key_exchange_message__get_packed_size_def textsecure__key_exchange_message__pack_def textsecure__key_exchange_message__unpack_def
  by (rule KeyExchangeMessage.unpack_pack_msg)

lemma length_textsecure__key_exchange_message__pack [simp]:
  "length (textsecure__key_exchange_message__pack m) = textsecure__key_exchange_message__get_packed_size m"
  by (simp add: textsecure__key_exchange_message__pack_def textsecure__key_exchange_message__get_packed_size_def pack_length)

subsection \<open>\<open>Textsecure__SenderKeyMessage\<close>\<close>

record Textsecure__SenderKeyMessage =
  SenderKeyMessage_id :: "u32 option"
  SenderKeyMessage_iteration :: "u32 option"
  SenderKeyMessage_ciphertext :: "bytes option"

definition textsecure__sender_key_message__init :: Textsecure__SenderKeyMessage where
  "textsecure__sender_key_message__init =
     \<lparr>SenderKeyMessage_id = None, SenderKeyMessage_iteration = None,
       SenderKeyMessage_ciphertext = None\<rparr>"

definition textsecure__sender_key_message__descriptor :: pb_desc where
  "textsecure__sender_key_message__descriptor = Desc
     [Optional_field 1 TYPE_UINT32,
      Optional_field 2 TYPE_UINT32,
      Optional_field 3 TYPE_BYTES]
     [(1, 0), (0, 3)]"

definition SenderKeyMessage_to_msg :: "Textsecure__SenderKeyMessage \<Rightarrow> pb_message" where
  "SenderKeyMessage_to_msg m = Message textsecure__sender_key_message__descriptor
     [uint32_slot (SenderKeyMessage_id m),
      uint32_slot (SenderKeyMessage_iteration m),
      bytes_slot (SenderKeyMessage_ciphertext m)] []"

definition SenderKeyMessage_of_msg :: "pb_message \<Rightarrow> Textsecure__SenderKeyMessage" where
  "SenderKeyMessage_of_msg m =
     \<lparr>SenderKeyMessage_id = slot_uint32 (msg_slots m ! 0),
      SenderKeyMessage_iteration = slot_uint32 (msg_slots m ! 1),
      SenderKeyMessage_ciphertext = slot_bytes (msg_slots m ! 2)\<rparr>"

definition textsecure__sender_key_message__get_packed_size :: "Textsecure__SenderKeyMessage \<Rightarrow> nat" where
  "textsecure__sender_key_message__get_packed_size m = protobuf_c_message_get_packed_size (SenderKeyMessage_to_msg m)"

definition textsecure__sender_key_message__pack :: "Textsecure__SenderKeyMessage \<Rightarrow> bytes" where
  "textsecure__sender_key_message__pack m = protobuf_c_message_pack (SenderKeyMessage_to_msg m)"

definition textsecure__sender_key_message__unpack :: "bytes \<Rightarrow> pb_error + Textsecure__SenderKeyMessage" where
  "textsecure__sender_key_message__unpack data =
     map_sum id SenderKeyMessage_of_msg (protobuf_c_message_unpack textsecure__sender_key_message__descriptor data)"

interpretation SenderKeyMessage: pb_codec textsecure__sender_key_message__descriptor SenderKeyMessage_to_msg SenderKeyMessage_of_msg
  by unfold_locales
    (simp_all add: textsecure__sender_key_message__descriptor_def SenderKeyMessage_to_msg_def SenderKeyMessage_of_msg_def
      range_simps upt_conv_Cons)

lemma SenderKeyMessage_size:
  "protobuf_c_message_get_packed_size (SenderKeyMessage_to_msg m) \<le>
     10 +
      (10 +
      ((10 + bytes_len (SenderKeyMessage_ciphertext m))))"
  unfolding SenderKeyMessage_to_msg_def textsecure__sender_key_message__descriptor_def message_size_unfold
  by (intro add_mono slot_size_bounds)

lemma textsecure__sender_key_message__roundtrip:
  "textsecure__sender_key_message__get_packed_size m < 2 ^ 27 \<Longrightarrow>
     textsecure__sender_key_message__unpack (textsecure__sender_key_message__pack m) = Inr m"
  unfolding textsecure__sender_key_message__get_packed_size_def textsecure__sender_key_message__pack_def textsecure__sender_key_message__unpack_def
  by (rule SenderKeyMessage.unpack_pack_msg)

lemma length_textsecure__sender_key_message__pack [simp]:
  "length (textsecure__sender_key_message__pack m) = textsecure__sender_key_message__get_packed_size m"
  by (simp add: textsecure__sender_key_message__pack_def textsecure__sender_key_message__get_packed_size_def pack_length)

subsection \<open>\<open>Textsecure__SenderKeyDistributionMessage\<close>\<close>

record Textsecure__SenderKeyDistributionMessage =
  SenderKeyDistributionMessage_id :: "u32 option"
  SenderKeyDistributionMessage_iteration :: "u32 option"
  SenderKeyDistributionMessage_chainkey :: "bytes option"
  SenderKeyDistributionMessage_signingkey :: "bytes option"

definition textsecure__sender_key_distribution_message__init :: Textsecure__SenderKeyDistributionMessage where
  "textsecure__sender_key_distribution_message__init =
     \<lparr>SenderKeyDistributionMessage_id = None, SenderKeyDistributionMessage_iteration = None,
       SenderKeyDistributionMessage_chainkey = None,
       SenderKeyDistributionMessage_signingkey = None\<rparr>"

definition textsecure__sender_key_distribution_message__descriptor :: pb_desc where
  "textsecure__sender_key_distribution_message__descriptor = Desc
     [Optional_field 1 TYPE_UINT32,
      Optional_field 2 TYPE_UINT32,
      Optional_field 3 TYPE_BYTES,
      Optional_field 4 TYPE_BYTES]
     [(1, 0), (0, 4)]"

definition SenderKeyDistributionMessage_to_msg :: "Textsecure__SenderKeyDistributionMessage \<Rightarrow> pb_message" where
  "SenderKeyDistributionMessage_to_msg m = Message textsecure__sender_key_distribution_message__descriptor
     [uint32_slot (SenderKeyDistributionMessage_id m),
      uint32_slot (SenderKeyDistributionMessage_iteration m),
      bytes_slot (SenderKeyDistributionMessage_chainkey m),
      bytes_slot (SenderKeyDistributionMessage_signingkey m)] []"

definition SenderKeyDistributionMessage_of_msg :: "pb_message \<Rightarrow> Textsecure__SenderKeyDistributionMessage" where
  "SenderKeyDistributionMessage_of_msg m =
     \<lparr>SenderKeyDistributionMessage_id = slot_uint32 (msg_slots m ! 0),
      SenderKeyDistributionMessage_iteration = slot_uint32 (msg_slots m ! 1),
      SenderKeyDistributionMessage_chainkey = slot_bytes (msg_slots m ! 2),
      SenderKeyDistributionMessage_signingkey = slot_bytes (msg_slots m ! 3)\<rparr>"

definition textsecure__sender_key_distribution_message__get_packed_size :: "Textsecure__SenderKeyDistributionMessage \<Rightarrow> nat" where
  "textsecure__sender_key_distribution_message__get_packed_size m = protobuf_c_message_get_packed_size (SenderKeyDistributionMessage_to_msg m)"

definition textsecure__sender_key_distribution_message__pack :: "Textsecure__SenderKeyDistributionMessage \<Rightarrow> bytes" where
  "textsecure__sender_key_distribution_message__pack m = protobuf_c_message_pack (SenderKeyDistributionMessage_to_msg m)"

definition textsecure__sender_key_distribution_message__unpack :: "bytes \<Rightarrow> pb_error + Textsecure__SenderKeyDistributionMessage" where
  "textsecure__sender_key_distribution_message__unpack data =
     map_sum id SenderKeyDistributionMessage_of_msg (protobuf_c_message_unpack textsecure__sender_key_distribution_message__descriptor data)"

interpretation SenderKeyDistributionMessage: pb_codec textsecure__sender_key_distribution_message__descriptor SenderKeyDistributionMessage_to_msg SenderKeyDistributionMessage_of_msg
  by unfold_locales
    (simp_all add: textsecure__sender_key_distribution_message__descriptor_def SenderKeyDistributionMessage_to_msg_def SenderKeyDistributionMessage_of_msg_def
      range_simps upt_conv_Cons)

lemma SenderKeyDistributionMessage_size:
  "protobuf_c_message_get_packed_size (SenderKeyDistributionMessage_to_msg m) \<le>
     10 +
      (10 +
      ((10 + bytes_len (SenderKeyDistributionMessage_chainkey m)) +
      ((10 + bytes_len (SenderKeyDistributionMessage_signingkey m)))))"
  unfolding SenderKeyDistributionMessage_to_msg_def textsecure__sender_key_distribution_message__descriptor_def message_size_unfold
  by (intro add_mono slot_size_bounds)

lemma textsecure__sender_key_distribution_message__roundtrip:
  "textsecure__sender_key_distribution_message__get_packed_size m < 2 ^ 27 \<Longrightarrow>
     textsecure__sender_key_distribution_message__unpack (textsecure__sender_key_distribution_message__pack m) = Inr m"
  unfolding textsecure__sender_key_distribution_message__get_packed_size_def textsecure__sender_key_distribution_message__pack_def textsecure__sender_key_distribution_message__unpack_def
  by (rule SenderKeyDistributionMessage.unpack_pack_msg)

lemma length_textsecure__sender_key_distribution_message__pack [simp]:
  "length (textsecure__sender_key_distribution_message__pack m) = textsecure__sender_key_distribution_message__get_packed_size m"
  by (simp add: textsecure__sender_key_distribution_message__pack_def textsecure__sender_key_distribution_message__get_packed_size_def pack_length)

subsection \<open>\<open>Textsecure__DeviceConsistencyCodeMessage\<close>\<close>

record Textsecure__DeviceConsistencyCodeMessage =
  DeviceConsistencyCodeMessage_generation :: "u32 option"
  DeviceConsistencyCodeMessage_signature :: "bytes option"

definition textsecure__device_consistency_code_message__init :: Textsecure__DeviceConsistencyCodeMessage where
  "textsecure__device_consistency_code_message__init =
     \<lparr>DeviceConsistencyCodeMessage_generation = None,
       DeviceConsistencyCodeMessage_signature = None\<rparr>"

definition textsecure__device_consistency_code_message__descriptor :: pb_desc where
  "textsecure__device_consistency_code_message__descriptor = Desc
     [Optional_field 1 TYPE_UINT32,
      Optional_field 2 TYPE_BYTES]
     [(1, 0), (0, 2)]"

definition DeviceConsistencyCodeMessage_to_msg :: "Textsecure__DeviceConsistencyCodeMessage \<Rightarrow> pb_message" where
  "DeviceConsistencyCodeMessage_to_msg m = Message textsecure__device_consistency_code_message__descriptor
     [uint32_slot (DeviceConsistencyCodeMessage_generation m),
      bytes_slot (DeviceConsistencyCodeMessage_signature m)] []"

definition DeviceConsistencyCodeMessage_of_msg :: "pb_message \<Rightarrow> Textsecure__DeviceConsistencyCodeMessage" where
  "DeviceConsistencyCodeMessage_of_msg m =
     \<lparr>DeviceConsistencyCodeMessage_generation = slot_uint32 (msg_slots m ! 0),
      DeviceConsistencyCodeMessage_signature = slot_bytes (msg_slots m ! 1)\<rparr>"

definition textsecure__device_consistency_code_message__get_packed_size :: "Textsecure__DeviceConsistencyCodeMessage \<Rightarrow> nat" where
  "textsecure__device_consistency_code_message__get_packed_size m = protobuf_c_message_get_packed_size (DeviceConsistencyCodeMessage_to_msg m)"

definition textsecure__device_consistency_code_message__pack :: "Textsecure__DeviceConsistencyCodeMessage \<Rightarrow> bytes" where
  "textsecure__device_consistency_code_message__pack m = protobuf_c_message_pack (DeviceConsistencyCodeMessage_to_msg m)"

definition textsecure__device_consistency_code_message__unpack :: "bytes \<Rightarrow> pb_error + Textsecure__DeviceConsistencyCodeMessage" where
  "textsecure__device_consistency_code_message__unpack data =
     map_sum id DeviceConsistencyCodeMessage_of_msg (protobuf_c_message_unpack textsecure__device_consistency_code_message__descriptor data)"

interpretation DeviceConsistencyCodeMessage: pb_codec textsecure__device_consistency_code_message__descriptor DeviceConsistencyCodeMessage_to_msg DeviceConsistencyCodeMessage_of_msg
  by unfold_locales
    (simp_all add: textsecure__device_consistency_code_message__descriptor_def DeviceConsistencyCodeMessage_to_msg_def DeviceConsistencyCodeMessage_of_msg_def
      range_simps upt_conv_Cons)

lemma DeviceConsistencyCodeMessage_size:
  "protobuf_c_message_get_packed_size (DeviceConsistencyCodeMessage_to_msg m) \<le>
     10 +
      ((10 + bytes_len (DeviceConsistencyCodeMessage_signature m)))"
  unfolding DeviceConsistencyCodeMessage_to_msg_def textsecure__device_consistency_code_message__descriptor_def message_size_unfold
  by (intro add_mono slot_size_bounds)

lemma textsecure__device_consistency_code_message__roundtrip:
  "textsecure__device_consistency_code_message__get_packed_size m < 2 ^ 27 \<Longrightarrow>
     textsecure__device_consistency_code_message__unpack (textsecure__device_consistency_code_message__pack m) = Inr m"
  unfolding textsecure__device_consistency_code_message__get_packed_size_def textsecure__device_consistency_code_message__pack_def textsecure__device_consistency_code_message__unpack_def
  by (rule DeviceConsistencyCodeMessage.unpack_pack_msg)

lemma length_textsecure__device_consistency_code_message__pack [simp]:
  "length (textsecure__device_consistency_code_message__pack m) = textsecure__device_consistency_code_message__get_packed_size m"
  by (simp add: textsecure__device_consistency_code_message__pack_def textsecure__device_consistency_code_message__get_packed_size_def pack_length)

end
