(* ===== verification/Ratcheting_Session.thy ===== *)
theory Ratcheting_Session
  imports Session_State Vpool Protocol
begin

text \<open>
  The second half of \<open>ratchet.c\<close>: the parameters of a session set-up and the set-up of
  the two parties' session states. The shared secret is collected in a growable buffer
  (\<open>Vpool\<close>) from three or four Diffie-Hellman agreements and expanded to the first root
  and chain key.

  The lemmas give each party's state as a function of the keys, show that both sides
  hold the same root and chain keys afterwards, and that the set-up keeps the session
  invariant.
\<close>

section \<open>Parameters\<close>

record symmetric_signal_protocol_parameters =
  sym_our_identity_key :: ratchet_identity_key_pair
  sym_our_base_key :: ec_key_pair
  sym_our_ratchet_key :: ec_key_pair
  sym_their_base_key :: ec_public_key
  sym_their_ratchet_key :: ec_public_key
  sym_their_identity_key :: ec_public_key

record alice_signal_protocol_parameters =
  alice_our_identity_key :: ratchet_identity_key_pair
  alice_our_base_key :: ec_key_pair
  alice_their_identity_key :: ec_public_key
  alice_their_signed_pre_key :: ec_public_key
  alice_their_one_time_pre_key :: "ec_public_key option"
  alice_their_ratchet_key :: ec_public_key

record bob_signal_protocol_parameters =
  bob_our_identity_key :: ratchet_identity_key_pair
  bob_our_signed_pre_key :: ec_key_pair
  bob_our_one_time_pre_key :: "ec_key_pair option"
  bob_our_ratchet_key :: ec_key_pair
  bob_their_identity_key :: ec_public_key
  bob_their_base_key :: ec_public_key

definition symmetric_signal_protocol_parameters_create ::
  "ratchet_identity_key_pair option \<Rightarrow> ec_key_pair option \<Rightarrow> ec_key_pair option \<Rightarrow>
     ec_public_key option \<Rightarrow> ec_public_key option \<Rightarrow> ec_public_key option \<Rightarrow>
     symmetric_signal_protocol_parameters result" where
  "symmetric_signal_protocol_parameters_create our_identity_key our_base_key our_ratchet_key
       their_base_key their_ratchet_key their_identity_key =
     (case (our_identity_key, our_base_key, our_ratchet_key, their_base_key, their_ratchet_key,
            their_identity_key) of
        (Some oi, Some ob, Some our, Some tb, Some tr, Some ti) \<Rightarrow>
          Inr \<lparr>sym_our_identity_key = oi, sym_our_base_key = ob, sym_our_ratchet_key = our,
               sym_their_base_key = tb, sym_their_ratchet_key = tr, sym_their_identity_key = ti\<rparr>
      | _ \<Rightarrow> Inl SG_ERR_INVAL)"

definition alice_signal_protocol_parameters_create ::
  "ratchet_identity_key_pair option \<Rightarrow> ec_key_pair option \<Rightarrow> ec_public_key option \<Rightarrow>
     ec_public_key option \<Rightarrow> ec_public_key option \<Rightarrow> ec_public_key option \<Rightarrow>
     alice_signal_protocol_parameters result" where
  "alice_signal_protocol_parameters_create our_identity_key our_base_key their_identity_key
       their_signed_pre_key their_one_time_pre_key their_ratchet_key =
     (case (our_identity_key, our_base_key, their_identity_key, their_signed_pre_key, their_ratchet_key) of
        (Some oi, Some ob, Some ti, Some ts, Some tr) \<Rightarrow>
          Inr \<lparr>alice_our_identity_key = oi, alice_our_base_key = ob, alice_their_identity_key = ti,
               alice_their_signed_pre_key = ts, alice_their_one_time_pre_key = their_one_time_pre_key,
               alice_their_ratchet_key = tr\<rparr>
      | _ \<Rightarrow> Inl SG_ERR_INVAL)"

definition bob_signal_protocol_parameters_create ::
  "ratchet_identity_key_pair option \<Rightarrow> ec_key_pair option \<Rightarrow> ec_key_pair option \<Rightarrow>
     ec_key_pair option \<Rightarrow> ec_public_key option \<Rightarrow> ec_public_key option \<Rightarrow>
     bob_signal_protocol_parameters result" where
  "bob_signal_protocol_parameters_create our_identity_key our_signed_pre_key our_one_time_pre_key
       our_ratchet_key their_identity_key their_base_key =
     (case (our_identity_key, our_signed_pre_key, our_ratchet_key, their_identity_key, their_base_key) of
        (Some oi, Some os, Some our, Some ti, Some tb) \<Rightarrow>
          Inr \<lparr>bob_our_identity_key = oi, bob_our_signed_pre_key = os,
               bob_our_one_time_pre_key = our_one_time_pre_key, bob_our_ratchet_key = our,
               bob_their_identity_key = ti, bob_their_base_key = tb\<rparr>
      | _ \<Rightarrow> Inl SG_ERR_INVAL)"

section \<open>Set-up\<close>

text \<open>Any failure of the derivation, and any other length, is an unknown error.\<close>

definition ratcheting_session_calculate_derived_keys ::
  "('h, 'd, 'w) signal_context \<Rightarrow> bytes \<Rightarrow> (ratchet_root_key \<times> ratchet_chain_key) result" where
  "ratcheting_session_calculate_derived_keys context secret =
     rbind (hkdf_create 3) (\<lambda>kdf.
     rbind (case hkdf_derive_secrets context kdf secret (replicate HASH_OUTPUT_SIZE 0)
                   (Some (ascii ''WhisperText'')) 64 of
              Inl SG_ABORT \<Rightarrow> Inl SG_ABORT
            | Inl e \<Rightarrow> Inl SG_ERR_UNKNOWN
            | Inr out \<Rightarrow> if length out \<noteq> 64 then Inl SG_ERR_UNKNOWN else Inr out) (\<lambda>out.
     rbind (ratchet_root_key_create (Some kdf) (Some (take 32 out))) (\<lambda>root_key.
     rbind (ratchet_chain_key_create (Some kdf) (Some (take 32 (drop 32 out))) 0) (\<lambda>chain_key.
     Inr (root_key, chain_key)))))"

text \<open>Appending to the secret, and appending an agreement.\<close>

definition secret_append :: "vpool \<Rightarrow> bytes \<Rightarrow> vpool result" where
  "secret_append vp data =
     rbind (vpool_insert vp (vpool_get_length vp) data) (\<lambda>(inserted, vp).
     if inserted then Inr vp else Inl SG_ERR_NOMEM)"

definition secret_append_agreement ::
  "('h, 'd, 'w) signal_context \<Rightarrow> vpool \<Rightarrow> ec_public_key \<Rightarrow> ec_private_key \<Rightarrow> vpool result" where
  "secret_append_agreement context vp pub priv =
     rbind (curve_calculate_agreement context (Some pub) (Some priv)) (\<lambda>agreement.
     secret_append vp agreement)"

definition ratcheting_session_alice_initialize ::
  "('h, 'd, 'w) signal_context \<Rightarrow> session_state \<Rightarrow> alice_signal_protocol_parameters \<Rightarrow>
     ('w, session_state) act" where
  "ratcheting_session_alice_initialize context state parameters =
     (let vp = vpool_init 1024 0 in
      sbind (curve_generate_key_pair context) (\<lambda>sending_ratchet_key.
      slift (
        rbind (secret_append vp (replicate 32 0xFF)) (\<lambda>vp.
        rbind (secret_append_agreement context vp (alice_their_signed_pre_key parameters)
                 (identity_private_key (alice_our_identity_key parameters))) (\<lambda>vp.
        rbind (secret_append_agreement context vp (alice_their_identity_key parameters)
                 (private_key (alice_our_base_key parameters))) (\<lambda>vp.
        rbind (secret_append_agreement context vp (alice_their_signed_pre_key parameters)
                 (private_key (alice_our_base_key parameters))) (\<lambda>vp.
        rbind (case alice_their_one_time_pre_key parameters of
                 None \<Rightarrow> Inr vp
               | Some one_time \<Rightarrow>
                   secret_append_agreement context vp one_time
                     (private_key (alice_our_base_key parameters))) (\<lambda>vp.
        if vpool_is_empty vp then Inl SG_ERR_UNKNOWN
        else
          let secret = vpool_get_buf vp in
          rbind (ratcheting_session_calculate_derived_keys context secret) (\<lambda>(derived_root, derived_chain).
          rbind (ratchet_root_key_create_chain context derived_root
                   (Some (alice_their_ratchet_key parameters))
                   (Some (private_key sending_ratchet_key))) (\<lambda>(sending_chain_root, sending_chain_key).
          let state = session_state_add_receiver_chain state (alice_their_ratchet_key parameters) derived_chain;
              state = session_state_set_session_version state (ucast CIPHERTEXT_CURRENT_VERSION);
              state = session_state_set_remote_identity_key state (alice_their_identity_key parameters);
              state = session_state_set_local_identity_key state
                        (identity_public_key (alice_our_identity_key parameters));
              state = session_state_set_sender_chain state sending_ratchet_key sending_chain_key;
              state = session_state_set_root_key state sending_chain_root
          in Inr state))))))))))"

definition ratcheting_session_bob_initialize ::
  "('h, 'd, 'w) signal_context \<Rightarrow> session_state \<Rightarrow> bob_signal_protocol_parameters \<Rightarrow>
     session_state result" where
  "ratcheting_session_bob_initialize context state parameters =
     (let vp = vpool_init 1024 0 in
      rbind (secret_append vp (replicate 32 0xFF)) (\<lambda>vp.
      rbind (secret_append_agreement context vp (bob_their_identity_key parameters)
               (private_key (bob_our_signed_pre_key parameters))) (\<lambda>vp.
      rbind (secret_append_agreement context vp (bob_their_base_key parameters)
               (identity_private_key (bob_our_identity_key parameters))) (\<lambda>vp.
      rbind (secret_append_agreement context vp (bob_their_base_key parameters)
               (private_key (bob_our_signed_pre_key parameters))) (\<lambda>vp.
      rbind (case bob_our_one_time_pre_key parameters of
               None \<Rightarrow> Inr vp
             | Some one_time \<Rightarrow>
                 secret_append_agreement context vp (bob_their_base_key parameters)
                   (private_key one_time)) (\<lambda>vp.
      if vpool_is_empty vp then Inl SG_ERR_UNKNOWN
      else
        let secret = vpool_get_buf vp in
        rbind (ratcheting_session_calculate_derived_keys context secret) (\<lambda>(derived_root, derived_chain).
        let state = session_state_set_session_version state (ucast CIPHERTEXT_CURRENT_VERSION);
            state = session_state_set_remote_identity_key state (bob_their_identity_key parameters);
            state = session_state_set_local_identity_key state
                      (identity_public_key (bob_our_identity_key parameters));
            state = session_state_set_sender_chain state (bob_our_ratchet_key parameters) derived_chain;
            state = session_state_set_root_key state derived_root
        in Inr state)))))))"

definition ratcheting_session_symmetric_is_alice :: "symmetric_signal_protocol_parameters \<Rightarrow> bool" where
  "ratcheting_session_symmetric_is_alice parameters \<longleftrightarrow>
     ec_public_key_memcmp (Some (public_key (sym_our_base_key parameters)))
       (Some (sym_their_base_key parameters)) < 0"

definition ratcheting_session_symmetric_initialize ::
  "('h, 'd, 'w) signal_context \<Rightarrow> session_state \<Rightarrow> symmetric_signal_protocol_parameters \<Rightarrow>
     ('w, session_state) act" where
  "ratcheting_session_symmetric_initialize context state parameters =
     (if ratcheting_session_symmetric_is_alice parameters then
        sbind (slift (alice_signal_protocol_parameters_create
                 (Some (sym_our_identity_key parameters)) (Some (sym_our_base_key parameters))
                 (Some (sym_their_identity_key parameters)) (Some (sym_their_base_key parameters))
                 None (Some (sym_their_ratchet_key parameters)))) (\<lambda>alice_parameters.
        ratcheting_session_alice_initialize context state alice_parameters)
      else
        sbind (slift (bob_signal_protocol_parameters_create
                 (Some (sym_our_identity_key parameters)) (Some (sym_our_base_key parameters))
                 None (Some (sym_our_ratchet_key parameters))
                 (Some (sym_their_identity_key parameters)) (Some (sym_their_base_key parameters))))
          (\<lambda>bob_parameters.
        slift (ratcheting_session_bob_initialize context state bob_parameters)))"

section \<open>The shared secret\<close>

text \<open>The pool of a set-up, seen as the bytes collected so far.\<close>

definition pool_holds :: "vpool \<Rightarrow> bytes \<Rightarrow> bool" where
  "pool_holds vp secret \<longleftrightarrow>
     vpool_ok vp \<and> vpool_get_buf vp = secret \<and> v_off vp = length secret \<and>
     v_blksize vp = 1024 \<and> v_limit vp = SIZE_MAX"

lemma pool_holds_init: "pool_holds (vpool_init 1024 0) []"
  by (simp add: pool_holds_def vpool_init_ok vpool_init_contents) (simp add: vpool_init_def)

lemma secret_append_holds:
  assumes "pool_holds vp secret" "length secret + length data < 2 ^ 20"
  shows "\<exists>vp'. secret_append vp data = Inr vp' \<and> pool_holds vp' (secret @ data)"
proof -
  have vp: "vpool_ok vp" "vpool_get_buf vp = secret" "v_off vp = length secret" "v_blksize vp = 1024"
    "v_limit vp = SIZE_MAX"
    using assms(1) by (simp_all add: pool_holds_def)
  have "v_off vp + length data + v_blksize vp \<le> SIZE_MAX" "v_off vp + length data \<le> v_limit vp"
    using assms(2) vp by (simp_all add: SIZE_MAX_def)
  then obtain vp' where "vpool_insert vp (vpool_get_length vp) data = Inr (True, vp')" "vpool_ok vp'"
    "vpool_get_buf vp' = vpool_get_buf vp @ data"
    "v_blksize vp' = v_blksize vp" "v_limit vp' = v_limit vp" "v_off vp' = v_off vp + length data"
    using vpool_append [OF vp(1)] by blast
  then show ?thesis
    using vp by (simp add: secret_append_def pool_holds_def)
qed

lemma secret_append_agreement_holds:
  assumes "dh_spec context dh" "pool_holds vp secret" "length secret < 2 ^ 19"
  shows "\<exists>vp'. secret_append_agreement context vp pub priv = Inr vp' \<and>
    pool_holds vp' (secret @ dh (ec_private_data priv) (ec_public_data pub))"
  using secret_append_holds [OF assms(2), of "dh (ec_private_data priv) (ec_public_data pub)"] assms(3)
  by (simp add: secret_append_agreement_def curve_calculate_agreement_dh [OF assms(1)] dh_specD [OF assms(1)])

text \<open>The first root and chain key, as a function of the secret.\<close>

definition derived_keys :: "(bytes \<Rightarrow> bytes \<Rightarrow> bytes) \<Rightarrow> bytes \<Rightarrow> ratchet_root_key \<times> ratchet_chain_key" where
  "derived_keys mac secret =
     (let kdf = \<lparr>iteration_start_offset = 1\<rparr>;
          okm = kdf_fun mac kdf secret (replicate 32 0) (ascii ''WhisperText'') 64
      in (\<lparr>rk_kdf = kdf, rk_key = take 32 okm\<rparr>,
          \<lparr>ck_kdf = kdf, ck_key = take 32 (drop 32 okm), ck_index = 0\<rparr>))"

lemma calculate_derived_keys_eq:
  assumes "hmac_spec context mac"
  shows "ratcheting_session_calculate_derived_keys context secret = Inr (derived_keys mac secret)"
  by (simp add: ratcheting_session_calculate_derived_keys_def hkdf_create_def HASH_OUTPUT_SIZE_def
      hkdf_derive_secrets_eq [OF assms] length_kdf_fun [OF assms] ratchet_root_key_create_def
      ratchet_chain_key_create_def derived_keys_def Let_def)

lemma derived_keys_fit:
  assumes "hmac_spec context mac"
  shows "root_key_fits 3 (fst (derived_keys mac secret))" "chain_key_fits 3 (snd (derived_keys mac secret))"
  by (simp_all add: derived_keys_def Let_def root_key_fits_def chain_key_fits_def kdf_for_def
      length_kdf_fun [OF assms] hkdf_create_def)

definition alice_secret ::
  "(bytes \<Rightarrow> bytes \<Rightarrow> bytes) \<Rightarrow> alice_signal_protocol_parameters \<Rightarrow> bytes" where
  "alice_secret dh p =
     replicate 32 0xFF @
     dh (ec_private_data (identity_private_key (alice_our_identity_key p)))
        (ec_public_data (alice_their_signed_pre_key p)) @
     dh (ec_private_data (private_key (alice_our_base_key p)))
        (ec_public_data (alice_their_identity_key p)) @
     dh (ec_private_data (private_key (alice_our_base_key p)))
        (ec_public_data (alice_their_signed_pre_key p)) @
     (case alice_their_one_time_pre_key p of
        None \<Rightarrow> []
      | Some k \<Rightarrow> dh (ec_private_data (private_key (alice_our_base_key p))) (ec_public_data k))"

definition bob_secret ::
  "(bytes \<Rightarrow> bytes \<Rightarrow> bytes) \<Rightarrow> bob_signal_protocol_parameters \<Rightarrow> bytes" where
  "bob_secret dh p =
     replicate 32 0xFF @
     dh (ec_private_data (private_key (bob_our_signed_pre_key p)))
        (ec_public_data (bob_their_identity_key p)) @
     dh (ec_private_data (identity_private_key (bob_our_identity_key p)))
        (ec_public_data (bob_their_base_key p)) @
     dh (ec_private_data (private_key (bob_our_signed_pre_key p)))
        (ec_public_data (bob_their_base_key p)) @
     (case bob_our_one_time_pre_key p of
        None \<Rightarrow> []
      | Some k \<Rightarrow> dh (ec_private_data (private_key k)) (ec_public_data (bob_their_base_key p)))"

lemma secret_three_agreements:
  assumes "dh_spec context dh"
  obtains v1 v2 v3 v4 where
    "secret_append (vpool_init 1024 0) (replicate 32 0xFF) = Inr v1"
    "secret_append_agreement context v1 p1 s1 = Inr v2"
    "secret_append_agreement context v2 p2 s2 = Inr v3"
    "secret_append_agreement context v3 p3 s3 = Inr v4"
    "pool_holds v4 (replicate 32 0xFF @ dh (ec_private_data s1) (ec_public_data p1) @
       dh (ec_private_data s2) (ec_public_data p2) @ dh (ec_private_data s3) (ec_public_data p3))"
proof -
  let ?d0 = "replicate 32 0xFF :: bytes" and ?d1 = "dh (ec_private_data s1) (ec_public_data p1)"
    and ?d2 = "dh (ec_private_data s2) (ec_public_data p2)" and ?d3 = "dh (ec_private_data s3) (ec_public_data p3)"
  note len = dh_specD(2) [OF assms]
  obtain v1 where v1: "secret_append (vpool_init 1024 0) ?d0 = Inr v1" "pool_holds v1 ?d0"
    using secret_append_holds [OF pool_holds_init, of ?d0] by auto
  obtain v2 where v2: "secret_append_agreement context v1 p1 s1 = Inr v2" "pool_holds v2 (?d0 @ ?d1)"
    using secret_append_agreement_holds [OF assms v1(2), of p1 s1] by auto
  obtain v3 where v3: "secret_append_agreement context v2 p2 s2 = Inr v3" "pool_holds v3 ((?d0 @ ?d1) @ ?d2)"
    using secret_append_agreement_holds [OF assms v2(2), of p2 s2] by (auto simp: len)
  obtain v4 where v4: "secret_append_agreement context v3 p3 s3 = Inr v4"
    "pool_holds v4 (((?d0 @ ?d1) @ ?d2) @ ?d3)"
    using secret_append_agreement_holds [OF assms v3(2), of p3 s3] by (auto simp: len)
  show ?thesis
    using that v1 v2 v3 v4 by simp
qed

text \<open>The states that the two parties reach.\<close>

definition alice_state ::
  "session_state \<Rightarrow> alice_signal_protocol_parameters \<Rightarrow> ec_key_pair \<Rightarrow> ratchet_chain_key \<Rightarrow>
     ratchet_root_key \<times> ratchet_chain_key \<Rightarrow> session_state" where
  "alice_state state p sending receiving_chain sent =
     (session_state_add_receiver_chain state (alice_their_ratchet_key p) receiving_chain)
       \<lparr>ss_session_version := 3, ss_remote_identity_public := Some (alice_their_identity_key p),
        ss_local_identity_public := Some (identity_public_key (alice_our_identity_key p)),
        ss_has_sender_chain := True,
        ss_sender_chain := \<lparr>sender_ratchet_key_pair = Some sending, sender_chain_key = Some (snd sent)\<rparr>,
        ss_root_key := Some (fst sent)\<rparr>"

definition bob_state ::
  "session_state \<Rightarrow> bob_signal_protocol_parameters \<Rightarrow> ratchet_root_key \<times> ratchet_chain_key \<Rightarrow>
     session_state" where
  "bob_state state p derived = state
     \<lparr>ss_session_version := 3, ss_remote_identity_public := Some (bob_their_identity_key p),
      ss_local_identity_public := Some (identity_public_key (bob_our_identity_key p)),
      ss_has_sender_chain := True,
      ss_sender_chain := \<lparr>sender_ratchet_key_pair = Some (bob_our_ratchet_key p),
                          sender_chain_key = Some (snd derived)\<rparr>,
      ss_root_key := Some (fst derived)\<rparr>"

lemma alice_initialize_eq:
  assumes "hmac_spec context mac" "dh_spec context dh" "curve_generate_key_pair context w = (Inr sending, w')"
  shows "ratcheting_session_alice_initialize context state p w =
    (let derived = derived_keys mac (alice_secret dh p);
         sent = root_next mac (fst derived)
                  (dh (ec_private_data (private_key sending)) (ec_public_data (alice_their_ratchet_key p)))
     in (Inr (alice_state state p sending (snd derived) sent), w'))"
proof -
  let ?base = "private_key (alice_our_base_key p)"
  obtain v1 v2 v3 v4 where v: "secret_append (vpool_init 1024 0) (replicate 32 0xFF) = Inr v1"
    "secret_append_agreement context v1 (alice_their_signed_pre_key p)
       (identity_private_key (alice_our_identity_key p)) = Inr v2"
    "secret_append_agreement context v2 (alice_their_identity_key p) ?base = Inr v3"
    "secret_append_agreement context v3 (alice_their_signed_pre_key p) ?base = Inr v4"
    and holds: "pool_holds v4 (replicate 32 0xFF @
       dh (ec_private_data (identity_private_key (alice_our_identity_key p)))
         (ec_public_data (alice_their_signed_pre_key p)) @
       dh (ec_private_data ?base) (ec_public_data (alice_their_identity_key p)) @
       dh (ec_private_data ?base) (ec_public_data (alice_their_signed_pre_key p)))"
    by (rule secret_three_agreements [OF assms(2)])
  obtain v5 where v5: "(case alice_their_one_time_pre_key p of None \<Rightarrow> Inr v4
      | Some one_time \<Rightarrow> secret_append_agreement context v4 one_time ?base) = Inr v5"
    "pool_holds v5 (alice_secret dh p)"
  proof (cases "alice_their_one_time_pre_key p")
    case None
    then show ?thesis
      using that [of v4] holds by (simp add: alice_secret_def)
  next
    case (Some k)
    then show ?thesis
      using that secret_append_agreement_holds [OF assms(2) holds, of k ?base] dh_specD(2) [OF assms(2)]
      by (auto simp: alice_secret_def)
  qed
  have "\<not> vpool_is_empty v5" "vpool_get_buf v5 = alice_secret dh p"
    using v5(2) by (simp_all add: pool_holds_def vpool_is_empty_def alice_secret_def)
  moreover have "hkdf_ok (rk_kdf (fst (derived_keys mac (alice_secret dh p))))"
    by (simp add: derived_keys_def Let_def hkdf_ok_def)
  ultimately show ?thesis
    by (simp add: ratcheting_session_alice_initialize_def Let_def sbind_Inr [of "curve_generate_key_pair context", OF assms(3)] v v5(1)
        calculate_derived_keys_eq [OF assms(1)] create_chain_eq [OF assms(1,2)] split_beta
        session_setter_defs alice_state_def CIPHERTEXT_CURRENT_VERSION_def slift_def)
qed

lemma bob_initialize_eq:
  assumes "hmac_spec context mac" "dh_spec context dh"
  shows "ratcheting_session_bob_initialize context state p =
    Inr (bob_state state p (derived_keys mac (bob_secret dh p)))"
proof -
  let ?spk = "private_key (bob_our_signed_pre_key p)" and ?base = "bob_their_base_key p"
  obtain v1 v2 v3 v4 where v: "secret_append (vpool_init 1024 0) (replicate 32 0xFF) = Inr v1"
    "secret_append_agreement context v1 (bob_their_identity_key p) ?spk = Inr v2"
    "secret_append_agreement context v2 ?base (identity_private_key (bob_our_identity_key p)) = Inr v3"
    "secret_append_agreement context v3 ?base ?spk = Inr v4"
    and holds: "pool_holds v4 (replicate 32 0xFF @
       dh (ec_private_data ?spk) (ec_public_data (bob_their_identity_key p)) @
       dh (ec_private_data (identity_private_key (bob_our_identity_key p))) (ec_public_data ?base) @
       dh (ec_private_data ?spk) (ec_public_data ?base))"
    by (rule secret_three_agreements [OF assms(2)])
  obtain v5 where v5: "(case bob_our_one_time_pre_key p of None \<Rightarrow> Inr v4
      | Some one_time \<Rightarrow> secret_append_agreement context v4 ?base (private_key one_time)) = Inr v5"
    "pool_holds v5 (bob_secret dh p)"
  proof (cases "bob_our_one_time_pre_key p")
    case None
    then show ?thesis
      using that [of v4] holds by (simp add: bob_secret_def)
  next
    case (Some k)
    then show ?thesis
      using that secret_append_agreement_holds [OF assms(2) holds, of ?base "private_key k"]
        dh_specD(2) [OF assms(2)]
      by (auto simp: bob_secret_def)
  qed
  have "\<not> vpool_is_empty v5" "vpool_get_buf v5 = bob_secret dh p"
    using v5(2) by (simp_all add: pool_holds_def vpool_is_empty_def bob_secret_def)
  then show ?thesis
    by (simp add: ratcheting_session_bob_initialize_def Let_def v v5(1)
        calculate_derived_keys_eq [OF assms(1)] split_beta
        session_setter_defs bob_state_def CIPHERTEXT_CURRENT_VERSION_def)
qed

text \<open>
  The keys of the two parties correspond: what one holds as a key pair, the other holds as
  the public key. \<open>alice\<close> and \<open>bob\<close> then collect the same secret.
\<close>

definition identity_pair :: "ratchet_identity_key_pair \<Rightarrow> ec_key_pair" where
  "identity_pair p = \<lparr>public_key = identity_public_key p, private_key = identity_private_key p\<rparr>"

definition parameters_correspond ::
  "('h, 'd, 'w) signal_context \<Rightarrow> alice_signal_protocol_parameters \<Rightarrow>
     bob_signal_protocol_parameters \<Rightarrow> bool" where
  "parameters_correspond context a b \<longleftrightarrow>
     matching_key_pair context (identity_pair (alice_our_identity_key a)) \<and>
     matching_key_pair context (alice_our_base_key a) \<and>
     matching_key_pair context (identity_pair (bob_our_identity_key b)) \<and>
     matching_key_pair context (bob_our_signed_pre_key b) \<and>
     pred_option (matching_key_pair context) (bob_our_one_time_pre_key b) \<and>
     matching_key_pair context (bob_our_ratchet_key b) \<and>
     bob_their_identity_key b = identity_public_key (alice_our_identity_key a) \<and>
     bob_their_base_key b = public_key (alice_our_base_key a) \<and>
     alice_their_identity_key a = identity_public_key (bob_our_identity_key b) \<and>
     alice_their_signed_pre_key a = public_key (bob_our_signed_pre_key b) \<and>
     alice_their_one_time_pre_key a = map_option public_key (bob_our_one_time_pre_key b) \<and>
     alice_their_ratchet_key a = public_key (bob_our_ratchet_key b)"

lemma dh_commute:
  assumes "dh_spec context dh" "matching_key_pair context p" "matching_key_pair context q"
  shows "dh (ec_private_data (private_key p)) (ec_public_data (public_key q)) =
    dh (ec_private_data (private_key q)) (ec_public_data (public_key p))"
  using agreement_symmetric [OF assms] by (simp add: curve_calculate_agreement_dh [OF assms(1)])

lemma secrets_agree:
  assumes "dh_spec context dh" "parameters_correspond context a b"
  shows "alice_secret dh a = bob_secret dh b"
proof -
  note c = assms(2) [unfolded parameters_correspond_def]
  have "dh (ec_private_data (identity_private_key (alice_our_identity_key a)))
        (ec_public_data (public_key (bob_our_signed_pre_key b))) =
      dh (ec_private_data (private_key (bob_our_signed_pre_key b)))
        (ec_public_data (identity_public_key (alice_our_identity_key a)))"
    using dh_commute [OF assms(1), of "identity_pair (alice_our_identity_key a)" "bob_our_signed_pre_key b"] c
    by (simp add: identity_pair_def)
  moreover have "dh (ec_private_data (private_key (alice_our_base_key a)))
        (ec_public_data (identity_public_key (bob_our_identity_key b))) =
      dh (ec_private_data (identity_private_key (bob_our_identity_key b)))
        (ec_public_data (public_key (alice_our_base_key a)))"
    using dh_commute [OF assms(1), of "alice_our_base_key a" "identity_pair (bob_our_identity_key b)"] c
    by (simp add: identity_pair_def)
  moreover have "dh (ec_private_data (private_key (alice_our_base_key a)))
        (ec_public_data (public_key (bob_our_signed_pre_key b))) =
      dh (ec_private_data (private_key (bob_our_signed_pre_key b)))
        (ec_public_data (public_key (alice_our_base_key a)))"
    using dh_commute [OF assms(1)] c by blast
  moreover have "bob_our_one_time_pre_key b = Some k \<Longrightarrow>
      dh (ec_private_data (private_key (alice_our_base_key a))) (ec_public_data (public_key k)) =
      dh (ec_private_data (private_key k)) (ec_public_data (public_key (alice_our_base_key a)))" for k
    using dh_commute [OF assms(1)] c by (metis option.pred_inject(2))
  ultimately show ?thesis
    using c by (cases "bob_our_one_time_pre_key b") (simp_all add: alice_secret_def bob_secret_def)
qed

text \<open>
  After both set-ups Bob's sending chain is Alice's receiving chain for Bob's ratchet key,
  and the root step that Bob takes on Alice's first ratchet key gives Alice's root
  key and sending chain.
\<close>

lemma initialize_agree:
  assumes "hmac_spec context mac" "dh_spec context dh" "parameters_correspond context a b"
    and "ratcheting_session_alice_initialize context state_a a w = (Inr alice, w')"
    and "ratcheting_session_bob_initialize context state_b b = Inr bob"
  obtains derived_root derived_chain sending root chain where
    "session_state_get_root_key bob = Some derived_root"
    "session_state_get_sender_chain_key bob = Some derived_chain"
    "last (ss_receiver_chains alice) =
       \<lparr>sender_ratchet_key = Some (public_key (bob_our_ratchet_key b)),
        receiver_chain_key = Some derived_chain, message_keys = []\<rparr>"
    "session_state_get_sender_ratchet_key_pair alice = Some sending"
    "session_state_get_root_key alice = Some root"
    "session_state_get_sender_chain_key alice = Some chain"
    "ratchet_root_key_create_chain context derived_root (Some (public_key sending))
       (Some (private_key (bob_our_ratchet_key b))) = Inr (root, chain)"
proof -
  obtain sending w1 where gen: "curve_generate_key_pair context w = (Inr sending, w1)"
    using assms(4) by (auto simp: ratcheting_session_alice_initialize_def Let_def sbind_eq_Inr)
  let ?derived = "derived_keys mac (alice_secret dh a)"
  let ?sent = "root_next mac (fst ?derived)
    (dh (ec_private_data (private_key sending)) (ec_public_data (public_key (bob_our_ratchet_key b))))"
  have ratchet: "alice_their_ratchet_key a = public_key (bob_our_ratchet_key b)"
    "matching_key_pair context (bob_our_ratchet_key b)"
    using assms(3) by (simp_all add: parameters_correspond_def)
  have alice: "alice = alice_state state_a a sending (snd ?derived) ?sent"
    using assms(4) alice_initialize_eq [OF assms(1,2) gen, of state_a a] ratchet by (simp add: Let_def)
  have bob: "bob = bob_state state_b b ?derived"
    using assms(5) bob_initialize_eq [OF assms(1,2), of state_b b] secrets_agree [OF assms(2,3)] by simp
  have "ratchet_root_key_create_chain context (fst ?derived) (Some (public_key sending))
      (Some (private_key (bob_our_ratchet_key b))) = Inr ?sent"
    using create_chain_eq [OF assms(1,2), of "fst ?derived" "public_key sending" "private_key (bob_our_ratchet_key b)"]
      dh_commute [OF assms(2) curve_generate_key_pair_matching [OF gen] ratchet(2)]
    by (simp add: derived_keys_def Let_def hkdf_ok_def)
  then show ?thesis
    using that [of "fst ?derived" "snd ?derived" sending "fst ?sent" "snd ?sent"] ratchet(1)
    by (simp add: alice bob alice_state_def bob_state_def session_getter_defs
        session_state_add_receiver_chain_def rcq.push_last)
qed

section \<open>The invariant\<close>

lemma alice_state_ok:
  assumes "session_state_ok state" "ss_session_version state = 3 \<or> ss_receiver_chains state = []"
    and "ec_key_pair_ok sending" "chain_key_fits 3 receiving" "root_key_fits 3 (fst sent)" "chain_key_fits 3 (snd sent)"
    and "ec_public_key_ok (alice_their_ratchet_key p)" "ec_public_key_ok (alice_their_identity_key p)"
    "ec_public_key_ok (identity_public_key (alice_our_identity_key p))"
  shows "session_state_ok (alice_state state p sending receiving sent)"
proof -
  let ?chain = "\<lparr>sender_ratchet_key = Some (alice_their_ratchet_key p), receiver_chain_key = Some receiving,
    message_keys = []\<rparr>"
  have "list_all (receiver_chain_ok 3) (ss_receiver_chains state)"
    using assms(1,2) by (auto simp: session_state_ok_def)
  then have "list_all (receiver_chain_ok 3) (receiver_chains_append (ss_receiver_chains state) ?chain)"
    using rcq.push_set [of "ss_receiver_chains state" ?chain] assms(4,7)
    by (auto simp: list_all_iff receiver_chain_ok_def)
  then show ?thesis
    using assms rcq.push_bounded [of "ss_receiver_chains state" ?chain]
    by (simp add: alice_state_def session_state_ok_def session_state_add_receiver_chain_def sender_chain_ok_def)
qed

lemma bob_state_ok:
  assumes "session_state_ok state" "ss_session_version state = 3 \<or> ss_receiver_chains state = []"
    and "ec_key_pair_ok (bob_our_ratchet_key p)" "root_key_fits 3 (fst derived)" "chain_key_fits 3 (snd derived)"
    and "ec_public_key_ok (bob_their_identity_key p)"
    "ec_public_key_ok (identity_public_key (bob_our_identity_key p))"
  shows "session_state_ok (bob_state state p derived)"
  using assms by (auto simp: bob_state_def session_state_ok_def sender_chain_ok_def)

lemma root_next_fits:
  assumes "hmac_spec context mac" "root_key_fits v rk"
  shows "root_key_fits v (fst (root_next mac rk shared))" "chain_key_fits v (snd (root_next mac rk shared))"
  using assms by (simp_all add: root_next_def root_key_fits_def chain_key_fits_def Let_def length_kdf_fun)

lemma alice_initialize_ok:
  assumes specs: "hmac_spec context mac" "dh_spec context dh" "random_spec context"
    and "session_state_ok state" "ss_session_version state = 3 \<or> ss_receiver_chains state = []"
    and "ec_public_key_ok (alice_their_ratchet_key p)" "ec_public_key_ok (alice_their_identity_key p)"
    "ec_public_key_ok (identity_public_key (alice_our_identity_key p))"
    and init: "ratcheting_session_alice_initialize context state p w = (Inr state', w')"
  shows "session_state_ok state'" "ss_session_version state' = 3"
proof -
  obtain sending w1 where gen: "curve_generate_key_pair context w = (Inr sending, w1)"
    using init by (auto simp: ratcheting_session_alice_initialize_def Let_def sbind_eq_Inr)
  let ?derived = "derived_keys mac (alice_secret dh p)"
  let ?sent = "root_next mac (fst ?derived)
    (dh (ec_private_data (private_key sending)) (ec_public_data (alice_their_ratchet_key p)))"
  have state': "state' = alice_state state p sending (snd ?derived) ?sent"
    using init alice_initialize_eq [OF specs(1,2) gen, of state p] by (simp add: Let_def)
  show "session_state_ok state'"
    unfolding state' using assms(4-8) derived_keys_fit [OF specs(1)] generated_key_pair_ok [OF specs(2,3) gen]
    by (intro alice_state_ok root_next_fits [OF specs(1)]) simp_all
  show "ss_session_version state' = 3"
    by (simp add: state' alice_state_def)
qed

lemma bob_initialize_ok:
  assumes specs: "hmac_spec context mac" "dh_spec context dh"
    and "session_state_ok state" "ss_session_version state = 3 \<or> ss_receiver_chains state = []"
    and "ec_key_pair_ok (bob_our_ratchet_key p)" "ec_public_key_ok (bob_their_identity_key p)"
    "ec_public_key_ok (identity_public_key (bob_our_identity_key p))"
    and init: "ratcheting_session_bob_initialize context state p = Inr state'"
  shows "session_state_ok state'" "ss_session_version state' = 3"
proof -
  have state': "state' = bob_state state p (derived_keys mac (bob_secret dh p))"
    using init bob_initialize_eq [OF specs, of state p] by simp
  show "session_state_ok state'"
    unfolding state' using assms(3-7) derived_keys_fit [OF specs(1)] by (intro bob_state_ok) simp_all
  show "ss_session_version state' = 3"
    by (simp add: state' bob_state_def)
qed

end
