(* ===== verification/Session_Builder.thy ===== *)
theory Session_Builder
  imports Store Ratcheting_Session
begin

text \<open>
  \<open>session_builder.c\<close>: starting a session from a bundle of the peer's public keys, and
  from the pre-key message that the peer sends first. A record that the caller drops
  when a step fails is not returned with the error.

  The lemmas: an untrusted identity and a bad signature are refused, a pre-key message
  for a known session leaves the record unchanged, and both ways of starting a session
  keep the record invariant.
\<close>

record 'w session_builder =
  sb_store :: "'w signal_protocol_store_context"
  sb_remote_address :: signal_protocol_address

definition session_builder_create ::
  "'w signal_protocol_store_context \<Rightarrow> signal_protocol_address \<Rightarrow> 'w session_builder" where
  "session_builder_create store remote_address =
     \<lparr>sb_store = store, sb_remote_address = remote_address\<rparr>"

section \<open>From a pre-key message\<close>

text \<open>The result is the id of the one-time pre-key that was used, if any, and the record.\<close>

definition session_builder_process_pre_key_signal_message_v3 ::
  "('h, 'd, 'w) signal_context \<Rightarrow> 'w session_builder \<Rightarrow> session_record \<Rightarrow> pre_key_signal_message \<Rightarrow>
     ('w, u32 option \<times> session_record) act" where
  "session_builder_process_pre_key_signal_message_v3 context builder r message =
     (if session_record_has_session_state r (ucast (pre_key_signal_message_get_message_version message))
           (Some (pre_key_signal_message_get_base_key message))
      then sreturn (None, r)
      else
        sbind (signal_protocol_signed_pre_key_load_key (sb_store builder)
                 (pre_key_signal_message_get_signed_pre_key_id message)) (\<lambda>our_signed_pre_key.
        sbind (signal_protocol_identity_get_key_pair (sb_store builder)) (\<lambda>our_identity_key.
        sbind (if pre_key_signal_message_has_pre_key_id message then
                 sbind (slift (pre_key_signal_message_get_pre_key_id message)) (\<lambda>pre_key_id.
                 sbind (signal_protocol_pre_key_load_key (sb_store builder) pre_key_id)
                   (\<lambda>session_our_one_time_pre_key.
                 sreturn (Some (session_pre_key_get_key_pair session_our_one_time_pre_key))))
               else sreturn None) (\<lambda>our_one_time_pre_key.
        sbind (slift (bob_signal_protocol_parameters_create
                 (Some our_identity_key)
                 (Some (session_signed_pre_key_get_key_pair our_signed_pre_key))
                 our_one_time_pre_key
                 (Some (session_signed_pre_key_get_key_pair our_signed_pre_key))
                 (Some (pre_key_signal_message_get_identity_key message))
                 (Some (pre_key_signal_message_get_base_key message)))) (\<lambda>parameters.
        let r = (if \<not> session_record_is_fresh r then session_record_archive_current_state r else r);
            state = session_record_get_state r in
        sbind (slift (ratcheting_session_bob_initialize context state parameters)) (\<lambda>state.
        sbind (signal_protocol_identity_get_local_registration_id (sb_store builder))
          (\<lambda>local_registration_id.
        let state = session_state_set_local_registration_id state local_registration_id;
            state = session_state_set_remote_registration_id state
                      (pre_key_signal_message_get_registration_id message);
            state = session_state_set_alice_base_key state (pre_key_signal_message_get_base_key message);
            r = session_record_set_state r state in
        if pre_key_signal_message_has_pre_key_id message \<and>
           pre_key_signal_message_get_pre_key_id message \<noteq> Inr PRE_KEY_MEDIUM_MAX_VALUE
        then sbind (slift (pre_key_signal_message_get_pre_key_id message)) (\<lambda>pre_key_id.
             sreturn (Some pre_key_id, r))
        else sreturn (None, r))))))))"

definition session_builder_process_pre_key_signal_message ::
  "('h, 'd, 'w) signal_context \<Rightarrow> 'w session_builder \<Rightarrow> session_record \<Rightarrow> pre_key_signal_message \<Rightarrow>
     ('w, u32 option \<times> session_record) act" where
  "session_builder_process_pre_key_signal_message context builder r message =
     (let their_identity_key = pre_key_signal_message_get_identity_key message in
      sbind (signal_protocol_identity_is_trusted_identity (sb_store builder)
               (sb_remote_address builder) (Some their_identity_key)) (\<lambda>trusted.
      if trusted = 0 then sfail SG_ERR_UNTRUSTED_IDENTITY
      else
        sbind (session_builder_process_pre_key_signal_message_v3 context builder r message)
          (\<lambda>unsigned_pre_key_id_result.
        sbind (signal_protocol_identity_save_identity (sb_store builder) (sb_remote_address builder)
                 (Some their_identity_key)) (\<lambda>_.
        sreturn unsigned_pre_key_id_result))))"

section \<open>From a bundle\<close>

text \<open>
  The signature pointer is dereferenced without a check: a bundle with a signed pre-key
  and no signature is an abort.
\<close>

definition session_builder_process_pre_key_bundle ::
  "('h, 'd, 'w) signal_context \<Rightarrow> 'w session_builder \<Rightarrow> session_pre_key_bundle \<Rightarrow> ('w, unit) act" where
  "session_builder_process_pre_key_bundle context builder bundle =
     sbind (signal_protocol_identity_is_trusted_identity (sb_store builder) (sb_remote_address builder)
              (session_pre_key_bundle_get_identity_key bundle)) (\<lambda>trusted.
     if trusted = 0 then sfail SG_ERR_UNTRUSTED_IDENTITY
     else
       case session_pre_key_bundle_get_signed_pre_key bundle of
         None \<Rightarrow> sfail SG_ERR_INVALID_KEY
       | Some signed_pre_key \<Rightarrow>
           sbind (slift (ec_public_key_serialize (Some signed_pre_key))) (\<lambda>serialized_signed_pre_key.
           sbind (slift (deref (session_pre_key_bundle_get_signed_pre_key_signature bundle))) (\<lambda>signature.
           sbind (slift (deref (session_pre_key_bundle_get_identity_key bundle))) (\<lambda>identity_key.
           sbind (slift (curve_verify_signature context identity_key serialized_signed_pre_key signature))
             (\<lambda>valid.
           if \<not> valid then sfail SG_ERR_INVALID_KEY
           else
             sbind (signal_protocol_session_load_session (sb_store builder) (sb_remote_address builder)) (\<lambda>r.
             sbind (curve_generate_key_pair context) (\<lambda>our_base_key.
             let their_one_time_pre_key = session_pre_key_bundle_get_pre_key bundle;
                 their_one_time_pre_key_id =
                   (case their_one_time_pre_key of
                      None \<Rightarrow> None
                    | Some _ \<Rightarrow> Some (session_pre_key_bundle_get_pre_key_id bundle)) in
             sbind (signal_protocol_identity_get_key_pair (sb_store builder)) (\<lambda>our_identity_key.
             sbind (slift (alice_signal_protocol_parameters_create
                      (Some our_identity_key) (Some our_base_key) (Some identity_key)
                      (Some signed_pre_key) their_one_time_pre_key (Some signed_pre_key))) (\<lambda>parameters.
             let r = (if \<not> session_record_is_fresh r then session_record_archive_current_state r else r);
                 state = session_record_get_state r in
             sbind (ratcheting_session_alice_initialize context state parameters) (\<lambda>state.
             let state = session_state_set_unacknowledged_pre_key_message state their_one_time_pre_key_id
                           (session_pre_key_bundle_get_signed_pre_key_id bundle) (public_key our_base_key) in
             sbind (signal_protocol_identity_get_local_registration_id (sb_store builder))
               (\<lambda>local_registration_id.
             let state = session_state_set_local_registration_id state local_registration_id;
                 state = session_state_set_remote_registration_id state
                           (session_pre_key_bundle_get_registration_id bundle);
                 state = session_state_set_alice_base_key state (public_key our_base_key);
                 r = session_record_set_state r state in
             sbind (signal_protocol_session_store_session (sb_store builder) (sb_remote_address builder) r)
               (\<lambda>_.
             sbind (signal_protocol_identity_save_identity (sb_store builder) (sb_remote_address builder)
                      (Some identity_key)) (\<lambda>_.
             sreturn ())))))))))))))"

section \<open>Refusals\<close>

lemma pre_key_message_untrusted:
  assumes "signal_protocol_identity_is_trusted_identity (sb_store builder) (sb_remote_address builder)
      (Some (pre_key_signal_message_get_identity_key message)) w = (Inr 0, w')"
  shows "session_builder_process_pre_key_signal_message context builder r message w = (Inl SG_ERR_UNTRUSTED_IDENTITY, w')"
  using assms by (simp add: session_builder_process_pre_key_signal_message_def sbind_Inr Let_def)

text \<open>A message for a session that the record has changes nothing, in the record or the store.\<close>

lemma pre_key_message_known:
  assumes "session_record_has_session_state r (ucast (pre_key_signal_message_get_message_version message))
      (Some (pre_key_signal_message_get_base_key message))"
  shows "session_builder_process_pre_key_signal_message_v3 context builder r message w = (Inr (None, r), w)"
  using assms by (simp add: session_builder_process_pre_key_signal_message_v3_def)

lemma bundle_untrusted:
  assumes "signal_protocol_identity_is_trusted_identity (sb_store builder) (sb_remote_address builder)
      (session_pre_key_bundle_get_identity_key bundle) w = (Inr 0, w')"
  shows "session_builder_process_pre_key_bundle context builder bundle w = (Inl SG_ERR_UNTRUSTED_IDENTITY, w')"
  using assms by (simp add: session_builder_process_pre_key_bundle_def sbind_Inr)

text \<open>A bundle whose signed pre-key the identity key did not sign is refused before any key is used.\<close>

lemma bundle_bad_signature:
  assumes trusted: "signal_protocol_identity_is_trusted_identity (sb_store builder) (sb_remote_address builder)
      (session_pre_key_bundle_get_identity_key bundle) w = (Inr n, w')" "n \<noteq> 0"
    and keys: "bundle_identity_key bundle = Some identity_key"
      "bundle_signed_pre_key_public bundle = Some signed_pre_key"
      "bundle_signed_pre_key_signature bundle = Some signature"
    and bad: "curve_verify_signature context identity_key (DJB_TYPE # ec_public_data signed_pre_key) signature = Inr False"
  shows "session_builder_process_pre_key_bundle context builder bundle w = (Inl SG_ERR_INVALID_KEY, w')"
proof -
  have "session_pre_key_bundle_get_identity_key bundle = Some identity_key"
    "session_pre_key_bundle_get_signed_pre_key bundle = Some signed_pre_key"
    "session_pre_key_bundle_get_signed_pre_key_signature bundle = Some signature"
    using keys by (simp_all add: session_pre_key_bundle_get_identity_key_def
        session_pre_key_bundle_get_signed_pre_key_def session_pre_key_bundle_get_signed_pre_key_signature_def)
  then show ?thesis
    using trusted bad
    by (simp add: session_builder_process_pre_key_bundle_def sbind_Inr ec_public_key_serialize_def)
qed

section \<open>The record invariant\<close>

text \<open>A record that is fresh holds an empty state.\<close>

definition fresh_is_empty :: "session_record \<Rightarrow> bool" where
  "fresh_is_empty r \<longleftrightarrow> (sr_is_fresh r \<longrightarrow> sr_state r = session_state_create)"

lemma deserialized_not_fresh: "session_record_deserialize data = Inr r \<Longrightarrow> \<not> sr_is_fresh r"
  by (auto simp: session_record_deserialize_def rbind_eq_Inr)

lemma loaded_fresh_is_empty:
  assumes "signal_protocol_session_load_session store address w = (Inr r, w')"
  shows "fresh_is_empty r"
  using assms
  by (auto simp: signal_protocol_session_load_session_def sbind_eq_Inr fresh_is_empty_def session_record_create_def
      session_record_set_user_record_def slift_eq_Inr dest: deserialized_not_fresh
      simp del: slift_eq split: if_splits option.splits)

lemma loaded_key_ok:
  assumes "signal_protocol_signed_pre_key_load_key store i w = (Inr k, w')"
  shows "ec_key_pair_ok (spk_key_pair k)"
proof -
  obtain data where "session_signed_pre_key_deserialize data = Inr k"
    using assms by (auto simp: signal_protocol_signed_pre_key_load_key_def sbind_eq_Inr rbind_eq_Inr slift_eq_Inr
        simp del: slift_eq)
  then obtain st where st: "textsecure__signed_pre_key_record_structure__unpack data = Inr st"
    by (auto simp: session_signed_pre_key_deserialize_def rbind_eq_Inr)
  show ?thesis
    using \<open>session_signed_pre_key_deserialize data = Inr k\<close>
    by (simp add: session_signed_pre_key_deserialize_def st split: option.split_asm if_split_asm)
      (auto simp: rbind_eq_Inr curve_decode_point_iff curve_decode_private_point_iff ec_key_pair_ok_def
        ec_key_pair_create_def session_signed_pre_key_create_def split: if_split_asm)
qed

lemma loaded_identity_ok:
  assumes "signal_protocol_identity_get_key_pair store w = (Inr p, w')"
  shows "ec_public_key_ok (identity_public_key p)"
  using assms
  by (auto simp: signal_protocol_identity_get_key_pair_def sbind_eq_Inr rbind_eq_Inr curve_decode_point_iff
      ratchet_identity_key_pair_create_def slift_eq_Inr simp del: slift_eq)

text \<open>The record in which a new state is made.\<close>

definition record_for_new_state :: "session_record \<Rightarrow> session_record" where
  "record_for_new_state r = (if \<not> session_record_is_fresh r then session_record_archive_current_state r else r)"

lemma record_for_new_state_ok:
  assumes "session_record_ok r" "fresh_is_empty r"
  shows "session_record_ok (record_for_new_state r)" "sr_state (record_for_new_state r) = session_state_create"
  using assms archive_current_state_ok
  by (auto simp: record_for_new_state_def session_record_is_fresh_def fresh_is_empty_def
      session_record_archive_current_state_def session_record_promote_state_def)

lemma session_state_create_new: "session_state_ok session_state_create" "ss_receiver_chains session_state_create = []"
  using session_state_create_ok by (simp_all add: session_state_create_def)

text \<open>The two states as the builder leaves them.\<close>

definition alice_session ::
  "session_state \<Rightarrow> u32 option \<Rightarrow> u32 \<Rightarrow> ec_public_key \<Rightarrow> u32 \<Rightarrow> u32 \<Rightarrow> session_state" where
  "alice_session s pre_key_id signed_pre_key_id base local_id remote_id =
     session_state_set_alice_base_key
       (session_state_set_remote_registration_id
         (session_state_set_local_registration_id
           (session_state_set_unacknowledged_pre_key_message s pre_key_id signed_pre_key_id base) local_id)
         remote_id) base"

definition bob_session :: "session_state \<Rightarrow> ec_public_key \<Rightarrow> u32 \<Rightarrow> u32 \<Rightarrow> session_state" where
  "bob_session s base local_id remote_id =
     session_state_set_alice_base_key
       (session_state_set_remote_registration_id (session_state_set_local_registration_id s local_id) remote_id) base"

lemma pre_key_message_v3_steps:
  assumes new: "\<not> session_record_has_session_state r (ucast (pre_key_signal_message_get_message_version message))
      (Some (pre_key_signal_message_get_base_key message))"
    and proc: "session_builder_process_pre_key_signal_message_v3 context builder r message w = (Inr (i, r'), w')"
  obtains spk w1 ik w2 otk p state lri where
    "signal_protocol_signed_pre_key_load_key (sb_store builder) (pksm_signed_pre_key_id message) w = (Inr spk, w1)"
    "signal_protocol_identity_get_key_pair (sb_store builder) w1 = (Inr ik, w2)"
    "p = \<lparr>bob_our_identity_key = ik, bob_our_signed_pre_key = spk_key_pair spk, bob_our_one_time_pre_key = otk,
      bob_our_ratchet_key = spk_key_pair spk, bob_their_identity_key = pksm_identity_key message,
      bob_their_base_key = pksm_base_key message\<rparr>"
    "ratcheting_session_bob_initialize context (sr_state (record_for_new_state r)) p = Inr state"
    "r' = session_record_set_state (record_for_new_state r)
       (bob_session state (pksm_base_key message) lri (pksm_registration_id message))"
proof -
  obtain spk w1 ik w2 otk state lri where
    "signal_protocol_signed_pre_key_load_key (sb_store builder) (pksm_signed_pre_key_id message) w = (Inr spk, w1)"
    "signal_protocol_identity_get_key_pair (sb_store builder) w1 = (Inr ik, w2)"
    "ratcheting_session_bob_initialize context (sr_state (record_for_new_state r))
      \<lparr>bob_our_identity_key = ik, bob_our_signed_pre_key = spk_key_pair spk, bob_our_one_time_pre_key = otk,
      bob_our_ratchet_key = spk_key_pair spk, bob_their_identity_key = pksm_identity_key message,
      bob_their_base_key = pksm_base_key message\<rparr> = Inr state"
    "r' = session_record_set_state (record_for_new_state r)
       (bob_session state (pksm_base_key message) lri (pksm_registration_id message))"
    using proc new
    by (auto simp: session_builder_process_pre_key_signal_message_v3_def sbind_eq_Inr Let_def slift_eq_Inr
        pre_key_signal_message_get_identity_key_def pre_key_signal_message_get_base_key_def
        pre_key_signal_message_get_signed_pre_key_id_def pre_key_signal_message_get_registration_id_def
        bob_signal_protocol_parameters_create_def session_signed_pre_key_get_key_pair_def session_record_get_state_def
        simp del: slift_eq simp flip: record_for_new_state_def bob_session_def split: if_splits)
  then show ?thesis
    using that by blast
qed

lemma pre_key_message_v3_ok:
  assumes specs: "hmac_spec context mac" "dh_spec context dh"
    and r: "session_record_ok r" "fresh_is_empty r"
    and m: "ec_public_key_ok (pksm_identity_key message)" "ec_public_key_ok (pksm_base_key message)"
    and proc: "session_builder_process_pre_key_signal_message_v3 context builder r message w = (Inr (i, r'), w')"
  shows "session_record_ok r'"
proof (cases "session_record_has_session_state r (ucast (pre_key_signal_message_get_message_version message))
      (Some (pre_key_signal_message_get_base_key message))")
  case True
  then show ?thesis
    using proc r(1) pre_key_message_known [OF True, of "context" builder w] by simp
next
  case False
  obtain spk w1 ik w2 otk p state lri where
    keys: "signal_protocol_signed_pre_key_load_key (sb_store builder) (pksm_signed_pre_key_id message) w = (Inr spk, w1)"
      "signal_protocol_identity_get_key_pair (sb_store builder) w1 = (Inr ik, w2)"
    and p: "p = \<lparr>bob_our_identity_key = ik, bob_our_signed_pre_key = spk_key_pair spk, bob_our_one_time_pre_key = otk,
      bob_our_ratchet_key = spk_key_pair spk, bob_their_identity_key = pksm_identity_key message,
      bob_their_base_key = pksm_base_key message\<rparr>"
    and init: "ratcheting_session_bob_initialize context (sr_state (record_for_new_state r)) p = Inr state"
    and r': "r' = session_record_set_state (record_for_new_state r)
       (bob_session state (pksm_base_key message) lri (pksm_registration_id message))"
    by (rule pre_key_message_v3_steps [OF False proc])
  have "session_state_ok state"
    using bob_initialize_ok(1) [OF specs _ _ _ _ _ init] record_for_new_state_ok [OF r] session_state_create_new
      loaded_key_ok [OF keys(1)] loaded_identity_ok [OF keys(2)] m(1)
    by (simp add: p)
  then show ?thesis
    unfolding r' bob_session_def using record_for_new_state_ok(1) [OF r] m(2)
    by (intro set_state_ok session_setters_ok) simp_all
qed

text \<open>The calls of \<open>session_builder_process_pre_key_bundle\<close> in a run that succeeds.\<close>

abbreviation initiator_record where
  "initiator_record r st bundle bk lri \<equiv> session_record_set_state (record_for_new_state r)
     (alice_session st (map_option (\<lambda>_. bundle_pre_key_id bundle) (bundle_pre_key_public bundle))
       (bundle_signed_pre_key_id bundle) (public_key bk) lri (bundle_registration_id bundle))"

lemma bundle_steps:
  assumes "bundle_identity_key bundle = Some ik" "bundle_signed_pre_key_public bundle = Some spk"
    "bundle_signed_pre_key_signature bundle = Some sig"
    "curve_verify_signature context ik (ec_public_key_serialize_protobuf spk) sig = Inr True"
    and trust: "signal_protocol_identity_is_trusted_identity (sb_store builder) (sb_remote_address builder) (Some ik) w = (Inr t, v1)" "t \<noteq> 0"
    and load: "signal_protocol_session_load_session (sb_store builder) (sb_remote_address builder) v1 = (Inr r, v2)"
    and bk: "curve_generate_key_pair context v2 = (Inr bk, v3)"
    and oik: "signal_protocol_identity_get_key_pair (sb_store builder) v3 = (Inr oik, v4)"
    and init: "ratcheting_session_alice_initialize context (sr_state (record_for_new_state r))
      \<lparr>alice_our_identity_key = oik, alice_our_base_key = bk, alice_their_identity_key = ik,
       alice_their_signed_pre_key = spk, alice_their_one_time_pre_key = bundle_pre_key_public bundle,
       alice_their_ratchet_key = spk\<rparr> v4 = (Inr st, v5)"
    and lri: "signal_protocol_identity_get_local_registration_id (sb_store builder) v5 = (Inr lri, v6)"
    and stored: "signal_protocol_session_store_session (sb_store builder) (sb_remote_address builder)
      (initiator_record r st bundle bk lri) v6 = (Inr n, v7)"
    and saved: "signal_protocol_identity_save_identity (sb_store builder) (sb_remote_address builder) (Some ik) v7 = (Inr k, w')"
  shows "session_builder_process_pre_key_bundle context builder bundle w = (Inr (), w')"
proof -
  have pid: "(case bundle_pre_key_public bundle of None \<Rightarrow> None | Some _ \<Rightarrow> Some (session_pre_key_bundle_get_pre_key_id bundle)) =
      map_option (\<lambda>_. bundle_pre_key_id bundle) (bundle_pre_key_public bundle)"
    by (simp add: session_pre_key_bundle_get_pre_key_id_def split: option.split)
  have verify: "curve_verify_signature context ik (DJB_TYPE # ec_public_data spk) sig = Inr True"
    using assms(4) by (simp add: ec_public_key_serialize_protobuf_def)
  show ?thesis
    by (simp add: session_builder_process_pre_key_bundle_def session_pre_key_bundle_get_identity_key_def
        session_pre_key_bundle_get_signed_pre_key_def session_pre_key_bundle_get_signed_pre_key_signature_def
        session_pre_key_bundle_get_pre_key_def session_pre_key_bundle_get_signed_pre_key_id_def
        session_pre_key_bundle_get_registration_id_def ec_public_key_serialize_def assms(1-3) verify trust(2) Let_def pid
        alice_signal_protocol_parameters_create_def session_record_get_state_def
        sbind_Inr [of "signal_protocol_identity_is_trusted_identity (sb_store builder) (sb_remote_address builder) (Some ik)", OF trust(1)]
        sbind_Inr [of "signal_protocol_session_load_session (sb_store builder) (sb_remote_address builder)", OF load]
        sbind_Inr [of "curve_generate_key_pair context", OF bk]
        sbind_Inr [of "signal_protocol_identity_get_key_pair (sb_store builder)", OF oik]
        sbind_Inr [of "signal_protocol_identity_get_local_registration_id (sb_store builder)", OF lri]
        sbind_Inr [of "ratcheting_session_alice_initialize context (sr_state (record_for_new_state r)) _", OF init]
        sbind_Inr [of "signal_protocol_session_store_session (sb_store builder) (sb_remote_address builder) _", OF stored]
        sbind_Inr [of "signal_protocol_identity_save_identity (sb_store builder) (sb_remote_address builder) (Some ik)", OF saved]
        flip: record_for_new_state_def alice_session_def)
qed

lemma alice_session_ok:
  assumes "session_state_ok s" "ec_public_key_ok base"
  shows "session_state_ok (alice_session s pid sid base i j)" "session_state_ok (bob_session s base i j)"
  unfolding alice_session_def bob_session_def using assms by (simp_all add: session_setters_ok)

text \<open>
  The initiator's store: in worlds that satisfy \<open>P\<close> it answers the reads of
  \<open>session_builder_process_pre_key_bundle\<close>, trusts every identity at the address, has a
  well-formed record and the identity key pair \<open>oik\<close>; and it saves identities.
\<close>

definition initiator_store ::
  "('h, 'd, 'w) signal_context \<Rightarrow> 'w signal_protocol_store_context \<Rightarrow> signal_protocol_address \<Rightarrow> ('w \<Rightarrow> bool) \<Rightarrow>
     ratchet_identity_key_pair \<Rightarrow> bool" where
  "initiator_store context store address P oik \<longleftrightarrow>
     (\<forall>w. P w \<longrightarrow>
        (\<forall>key. \<exists>n w'. signal_protocol_identity_is_trusted_identity store address (Some key) w = (Inr n, w') \<and>
           n \<noteq> 0 \<and> P w') \<and>
        (\<exists>r w'. signal_protocol_session_load_session store address w = (Inr r, w') \<and> session_record_ok r \<and> P w') \<and>
        (\<forall>kp w'. curve_generate_key_pair context w = (Inr kp, w') \<longrightarrow> P w') \<and>
        (\<exists>w'. signal_protocol_identity_get_key_pair store w = (Inr oik, w') \<and> P w') \<and>
        (\<exists>i w'. signal_protocol_identity_get_local_registration_id store w = (Inr i, w'))) \<and>
     (\<forall>key w. \<exists>n w'. signal_protocol_identity_save_identity store address (Some key) w = (Inr n, w'))"

text \<open>The record that processing a bundle stores is well formed.\<close>

lemma initiator_record_ok:
  assumes specs: "hmac_spec context mac" "dh_spec context dh" "random_spec context"
    and load: "signal_protocol_session_load_session store address w = (Inr r, w1)" "session_record_ok r"
    and bk: "curve_generate_key_pair context w1 = (Inr bk, w2)"
    and oik: "signal_protocol_identity_get_key_pair store w2 = (Inr oik, w3)"
    and keys: "ec_public_key_ok ik" "ec_public_key_ok spk"
    and init: "ratcheting_session_alice_initialize context (sr_state (record_for_new_state r))
      \<lparr>alice_our_identity_key = oik, alice_our_base_key = bk, alice_their_identity_key = ik,
       alice_their_signed_pre_key = spk, alice_their_one_time_pre_key = otk, alice_their_ratchet_key = spk\<rparr> w3 = (Inr st, w4)"
  shows "session_record_ok (initiator_record r st bundle bk lri)"
proof -
  note r0 = record_for_new_state_ok [OF load(2) loaded_fresh_is_empty [OF load(1)]]
  have "session_state_ok st"
    using alice_initialize_ok(1) [OF specs _ _ _ _ _ init] r0(2) session_state_create_new loaded_identity_ok [OF oik]
      keys by simp
  then show ?thesis
    using r0(1) alice_session_ok(1) generated_key_pair_ok [OF specs(2,3) bk]
    by (intro set_state_ok) (auto simp: ec_key_pair_ok_def)
qed

text \<open>A bundle with a good signature is processed: the store holds the initiator's side of a new session.\<close>

lemma bundle_session_ok:
  assumes specs: "hmac_spec context mac" "dh_spec context dh" "random_spec context"
    and store: "session_store_spec (sb_store builder)"
      "initiator_store context (sb_store builder) (sb_remote_address builder) P oik" "P w"
    and b: "bundle_identity_key bundle = Some ik" "bundle_signed_pre_key_public bundle = Some spk"
      "bundle_signed_pre_key_signature bundle = Some sig" "ec_public_key_ok ik" "ec_public_key_ok spk"
      "curve_verify_signature context ik (ec_public_key_serialize_protobuf spk) sig = Inr True"
  obtains bk v4 st v5 r lri v6 n v7 k w' where
    "session_builder_process_pre_key_bundle context builder bundle w = (Inr (), w')"
    "matching_key_pair context bk"
    "ratcheting_session_alice_initialize context session_state_create
      \<lparr>alice_our_identity_key = oik, alice_our_base_key = bk, alice_their_identity_key = ik,
       alice_their_signed_pre_key = spk, alice_their_one_time_pre_key = bundle_pre_key_public bundle,
       alice_their_ratchet_key = spk\<rparr> v4 = (Inr st, v5)"
    "sr_state r = alice_session st (map_option (\<lambda>_. bundle_pre_key_id bundle) (bundle_pre_key_public bundle))
      (bundle_signed_pre_key_id bundle) (public_key bk) lri (bundle_registration_id bundle)"
    "session_record_ok r"
    "signal_protocol_session_store_session (sb_store builder) (sb_remote_address builder) r v6 = (Inr n, v7)"
    "signal_protocol_identity_save_identity (sb_store builder) (sb_remote_address builder) (Some ik) v7 = (Inr k, w')"
proof -
  let ?store = "sb_store builder" and ?address = "sb_remote_address builder"
  note answers = store(2) [unfolded initiator_store_def, THEN conjunct1, rule_format]
  obtain t v1 where trust: "signal_protocol_identity_is_trusted_identity ?store ?address (Some ik) w = (Inr t, v1)" "t \<noteq> 0" "P v1"
    using answers [OF store(3)] by blast
  obtain r0 v2 where load: "signal_protocol_session_load_session ?store ?address v1 = (Inr r0, v2)" "session_record_ok r0" "P v2"
    using answers [OF trust(3)] by blast
  obtain bk v3 where bk: "curve_generate_key_pair context v2 = (Inr bk, v3)"
    using generate_key_pair_total [OF specs(2,3)] by blast
  then have "P v3"
    using answers [OF load(3)] by blast
  then obtain v4 where oik: "signal_protocol_identity_get_key_pair ?store v3 = (Inr oik, v4)" "P v4"
    using answers by blast
  define p where "p = \<lparr>alice_our_identity_key = oik, alice_our_base_key = bk, alice_their_identity_key = ik,
    alice_their_signed_pre_key = spk, alice_their_one_time_pre_key = bundle_pre_key_public bundle, alice_their_ratchet_key = spk\<rparr>"
  note new = record_for_new_state_ok(2) [OF load(2) loaded_fresh_is_empty [OF load(1)]]
  obtain sending v5 where sending: "curve_generate_key_pair context v4 = (Inr sending, v5)"
    using generate_key_pair_total [OF specs(2,3)] by blast
  then obtain st where init: "ratcheting_session_alice_initialize context (sr_state (record_for_new_state r0)) p v4 = (Inr st, v5)"
    using alice_initialize_eq [OF specs(1,2)] by (simp add: Let_def)
  have "P v5"
    using answers [OF oik(2)] sending by blast
  then obtain lri v6 where lri: "signal_protocol_identity_get_local_registration_id ?store v5 = (Inr lri, v6)"
    using answers by blast
  have ok: "session_record_ok (initiator_record r0 st bundle bk lri)"
    by (rule initiator_record_ok [OF specs load(1,2) bk oik(1) b(4,5) init [unfolded p_def]])
  obtain n v7 where stored: "signal_protocol_session_store_session ?store ?address (initiator_record r0 st bundle bk lri) v6 = (Inr n, v7)"
    using session_load_stored [OF store(1) ok] by blast
  obtain k w' where saved: "signal_protocol_identity_save_identity ?store ?address (Some ik) v7 = (Inr k, w')"
    using store(2) unfolding initiator_store_def by blast
  have "session_builder_process_pre_key_bundle context builder bundle w = (Inr (), w')"
    by (rule bundle_steps [OF b(1-3,6) trust(1,2) load(1) bk oik(1) init [unfolded p_def] lri stored saved])
  then show ?thesis
    by (rule that [OF _ curve_generate_key_pair_matching [OF bk] init [unfolded new p_def] _ ok stored saved])
      (simp add: session_record_set_state_def)
qed

end
