(* ===== verification/Session_Cipher.thy ===== *)
theory Session_Cipher
  imports Session_Builder
begin

text \<open>
  \<open>session_cipher.c\<close>: encryption with the sending chain of a session, and decryption
  with the session's receiving chains, which are created, advanced and searched for skipped
  message keys as needed. Decryption works on copies of the current and the archived
  states; the copy that succeeds replaces or is promoted to the current state.
  The decryption callback of the application acts on the world. While it runs,
  \<open>inside_callback\<close> is set for the calls it makes.

  The lemmas: the loop over skipped messages ends and stores exactly the skipped keys;
  messages that a session encrypts are decrypted by a session in step with it, in order
  or after up to 2000 missing messages; a message is never decrypted twice; decryption keeps
  the session invariant and leaves the sending half alone unless the peer's ratchet
  key is new.
\<close>

record 'w session_cipher =
  sc_store :: "'w signal_protocol_store_context"
  sc_remote_address :: signal_protocol_address
  sc_builder :: "'w session_builder"
  sc_decrypt_callback :: "(bytes \<Rightarrow> ('w, int) act) option"
  sc_inside_callback :: bool

definition session_cipher_create ::
  "'w signal_protocol_store_context \<Rightarrow> signal_protocol_address \<Rightarrow> 'w session_cipher" where
  "session_cipher_create store remote_address =
     \<lparr>sc_store = store, sc_remote_address = remote_address,
      sc_builder = session_builder_create store remote_address,
      sc_decrypt_callback = None, sc_inside_callback = False\<rparr>"

definition session_cipher_set_decryption_callback ::
  "'w session_cipher \<Rightarrow> (bytes \<Rightarrow> ('w, int) act) option \<Rightarrow> 'w session_cipher" where
  "session_cipher_set_decryption_callback cipher callback = cipher\<lparr>sc_decrypt_callback := callback\<rparr>"

section \<open>Encryption\<close>

definition counter_iv :: "u32 \<Rightarrow> bytes" where
  "counter_iv counter =
     [ucast (drop_bit 24 counter), ucast (drop_bit 16 counter), ucast (drop_bit 8 counter), ucast counter] @
     replicate 12 0"

definition session_cipher_get_ciphertext ::
  "('h, 'd, 'w) signal_context \<Rightarrow> u32 \<Rightarrow> ratchet_message_keys \<Rightarrow> bytes \<Rightarrow> bytes result" where
  "session_cipher_get_ciphertext context version mk plaintext =
     (if version \<ge> 3
      then signal_encrypt context SG_CIPHER_AES_CBC_PKCS5 (mk_cipher_key mk) (mk_iv mk) plaintext
      else signal_encrypt context SG_CIPHER_AES_CTR_NOPADDING (mk_cipher_key mk)
             (counter_iv (mk_counter mk)) plaintext)"

definition session_cipher_get_plaintext ::
  "('h, 'd, 'w) signal_context \<Rightarrow> u32 \<Rightarrow> ratchet_message_keys \<Rightarrow> bytes \<Rightarrow> bytes result" where
  "session_cipher_get_plaintext context version mk ciphertext =
     (if version \<ge> 3
      then signal_decrypt context SG_CIPHER_AES_CBC_PKCS5 (mk_cipher_key mk) (mk_iv mk) ciphertext
      else signal_decrypt context SG_CIPHER_AES_CTR_NOPADDING (mk_cipher_key mk)
             (counter_iv (mk_counter mk)) ciphertext)"

text \<open>A pointer whose absence is an unknown error.\<close>

definition require :: "'a option \<Rightarrow> 'a result" where
  "require p = (case p of None \<Rightarrow> Inl SG_ERR_UNKNOWN | Some x \<Rightarrow> Inr x)"

datatype encrypted_message =
    Encrypted_signal signal_message
  | Encrypted_pre_key pre_key_signal_message

text \<open>The part of encryption between loading the record and storing it.\<close>

definition session_cipher_encrypt_state ::
  "('h, 'd, 'w) signal_context \<Rightarrow> session_state \<Rightarrow> bytes \<Rightarrow>
     (encrypted_message \<times> session_state) result" where
  "session_cipher_encrypt_state context state padded_message =
     rbind (require (session_state_get_sender_chain_key state)) (\<lambda>chain_key.
     rbind (ratchet_chain_key_get_message_keys context chain_key) (\<lambda>mk.
     rbind (require (session_state_get_sender_ratchet_key state)) (\<lambda>sender_ephemeral.
     let previous_counter = session_state_get_previous_counter state;
         session_version = session_state_get_session_version state in
     rbind (session_cipher_get_ciphertext context session_version mk padded_message) (\<lambda>ciphertext.
     let chain_key_index = ratchet_chain_key_get_index chain_key in
     rbind (require (session_state_get_local_identity_key state)) (\<lambda>local_identity_key.
     rbind (require (session_state_get_remote_identity_key state)) (\<lambda>remote_identity_key.
     rbind (signal_message_create context (ucast session_version) (mk_mac_key mk) sender_ephemeral
              chain_key_index previous_counter ciphertext (Some local_identity_key)
              (Some remote_identity_key)) (\<lambda>message.
     rbind (if session_state_has_unacknowledged_pre_key_message state then
              let local_registration_id = session_state_get_local_registration_id state in
              rbind (if session_state_unacknowledged_pre_key_message_has_pre_key_id state
                     then rbind (session_state_unacknowledged_pre_key_message_get_pre_key_id state)
                            (\<lambda>i. Inr (Some i))
                     else Inr None) (\<lambda>pre_key_id.
              let signed_pre_key_id =
                    session_state_unacknowledged_pre_key_message_get_signed_pre_key_id state in
              rbind (require (session_state_unacknowledged_pre_key_message_get_base_key state)) (\<lambda>base_key.
              rbind (pre_key_signal_message_create (ucast session_version) local_registration_id pre_key_id
                       signed_pre_key_id base_key local_identity_key message) (\<lambda>pre_key_message.
              Inr (Encrypted_pre_key pre_key_message))))
            else Inr (Encrypted_signal message)) (\<lambda>encrypted_message.
     rbind (ratchet_chain_key_create_next context chain_key) (\<lambda>next_chain_key.
     rbind (session_state_set_sender_chain_key state next_chain_key) (\<lambda>state.
     Inr (encrypted_message, state)))))))))))"

definition session_cipher_encrypt ::
  "('h, 'd, 'w) signal_context \<Rightarrow> 'w session_cipher \<Rightarrow> bytes \<Rightarrow> ('w, encrypted_message) act" where
  "session_cipher_encrypt context cipher padded_message =
     (if sc_inside_callback cipher then sfail SG_ERR_INVAL
      else
        sbind (signal_protocol_session_load_session (sc_store cipher) (sc_remote_address cipher)) (\<lambda>r.
        sbind (slift (session_cipher_encrypt_state context (session_record_get_state r) padded_message))
          (\<lambda>(encrypted_message, state).
        sbind (signal_protocol_session_store_session (sc_store cipher) (sc_remote_address cipher)
                 (session_record_set_state r state)) (\<lambda>_.
        sreturn encrypted_message))))"

section \<open>Decryption\<close>

definition session_cipher_get_or_create_chain_key ::
  "('h, 'd, 'w) signal_context \<Rightarrow> session_state \<Rightarrow> ec_public_key \<Rightarrow>
     ('w, ratchet_chain_key \<times> session_state) act" where
  "session_cipher_get_or_create_chain_key context state their_ephemeral =
     (case session_state_get_receiver_chain_key state their_ephemeral of
        Some result_key \<Rightarrow> sreturn (result_key, state)
      | None \<Rightarrow>
          sbind (slift (require (session_state_get_root_key state))) (\<lambda>root_key.
          sbind (slift (require (session_state_get_sender_ratchet_key_pair state))) (\<lambda>our_ephemeral.
          sbind (slift (ratchet_root_key_create_chain context root_key (Some their_ephemeral)
                   (Some (private_key our_ephemeral)))) (\<lambda>(receiver_root_key, receiver_chain_key).
          sbind (curve_generate_key_pair context) (\<lambda>our_new_ephemeral.
          sbind (slift (ratchet_root_key_create_chain context receiver_root_key (Some their_ephemeral)
                   (Some (private_key our_new_ephemeral)))) (\<lambda>(sender_root_key, sender_chain_key).
          let state = session_state_set_root_key state sender_root_key;
              state = session_state_add_receiver_chain state their_ephemeral receiver_chain_key in
          sbind (slift (require (session_state_get_sender_chain_key state))) (\<lambda>previous_sender_chain_key.
          let index = ratchet_chain_key_get_index previous_sender_chain_key;
              index = (if index > 0 then index - 1 else index);
              state = session_state_set_previous_counter state index;
              state = session_state_set_sender_chain state our_new_ephemeral sender_chain_key in
          sreturn (receiver_chain_key, state))))))))"

lemma create_next_index:
  "ratchet_chain_key_create_next context ck = Inr next \<Longrightarrow> ck_index next = ck_index ck + 1"
  by (auto simp: ratchet_chain_key_create_next_def ratchet_chain_key_create_def rbind_eq_Inr)

lemma skip_decreases:
  assumes "ck_index ck < counter" "ratchet_chain_key_create_next context ck = Inr next"
  shows "unat counter - unat (ck_index next) < unat counter - unat (ck_index ck)"
proof -
  have "ck_index ck + 1 \<noteq> 0"
    using assms(1) word_n1_ge [of counter] by (auto simp flip: eq_neg_iff_add_eq_0)
  then have "unat (ck_index ck + 1) = Suc (unat (ck_index ck))"
    by (metis add.commute unatSuc)
  then show ?thesis
    using assms by (simp add: create_next_index [OF assms(2)] word_less_nat_alt)
qed

text \<open>The loop that stores the keys of the messages before \<open>counter\<close>.\<close>

function skip_message_keys ::
  "('h, 'd, 'w) signal_context \<Rightarrow> ec_public_key \<Rightarrow> u32 \<Rightarrow> session_state \<Rightarrow> ratchet_chain_key \<Rightarrow>
     (session_state \<times> ratchet_chain_key) result" where
  "skip_message_keys context their_ephemeral counter state cur_chain_key =
     (if ck_index cur_chain_key < counter then
        rbind (ratchet_chain_key_get_message_keys context cur_chain_key) (\<lambda>mk.
        rbind (ratchet_chain_key_create_next context cur_chain_key) (\<lambda>next_chain_key.
        skip_message_keys context their_ephemeral counter
          (session_state_set_message_keys state their_ephemeral mk) next_chain_key))
      else Inr (state, cur_chain_key))"
  by pat_completeness auto
termination
  by (relation "measure (\<lambda>(context, e, counter, s, ck). unat counter - unat (ck_index ck))")
    (auto intro: skip_decreases)

definition session_cipher_get_or_create_message_keys ::
  "('h, 'd, 'w) signal_context \<Rightarrow> session_state \<Rightarrow> ec_public_key \<Rightarrow> ratchet_chain_key \<Rightarrow> u32 \<Rightarrow>
     (ratchet_message_keys \<times> session_state) result" where
  "session_cipher_get_or_create_message_keys context state their_ephemeral chain_key counter =
     (if ratchet_chain_key_get_index chain_key > counter then
        (case session_state_remove_message_keys state their_ephemeral counter of
           (Some mk, state) \<Rightarrow> Inr (mk, state)
         | (None, state) \<Rightarrow> Inl SG_ERR_DUPLICATE_MESSAGE)
      else if counter - ratchet_chain_key_get_index chain_key > 2000 then Inl SG_ERR_INVALID_MESSAGE
      else
        rbind (skip_message_keys context their_ephemeral counter state chain_key) (\<lambda>(state, cur_chain_key).
        rbind (ratchet_chain_key_create_next context cur_chain_key) (\<lambda>next_chain_key.
        rbind (session_state_set_receiver_chain_key state their_ephemeral next_chain_key) (\<lambda>state.
        rbind (ratchet_chain_key_get_message_keys context cur_chain_key) (\<lambda>mk.
        Inr (mk, state))))))"

definition session_cipher_decrypt_from_state_and_signal_message ::
  "('h, 'd, 'w) signal_context \<Rightarrow> session_state \<Rightarrow> signal_message \<Rightarrow> ('w, bytes \<times> session_state) act" where
  "session_cipher_decrypt_from_state_and_signal_message context state ciphertext =
     (if \<not> session_state_has_sender_chain state then sfail SG_ERR_INVALID_MESSAGE
      else
        let message_version = signal_message_get_message_version ciphertext;
            session_version = session_state_get_session_version state in
        if ucast message_version \<noteq> session_version then sfail SG_ERR_INVALID_MESSAGE
        else
          let their_ephemeral = signal_message_get_sender_ratchet_key ciphertext;
              counter = signal_message_get_counter ciphertext in
          sbind (session_cipher_get_or_create_chain_key context state their_ephemeral) (\<lambda>(chain_key, state).
          slift (
            rbind (session_cipher_get_or_create_message_keys context state their_ephemeral chain_key counter)
              (\<lambda>(mk, state).
            rbind (require (session_state_get_remote_identity_key state)) (\<lambda>remote_identity_key.
            rbind (require (session_state_get_local_identity_key state)) (\<lambda>local_identity_key.
            rbind (signal_message_verify_mac context ciphertext (Some remote_identity_key)
                     (Some local_identity_key) (mk_mac_key mk)) (\<lambda>verified.
            if \<not> verified then Inl SG_ERR_INVALID_MESSAGE
            else
              rbind (session_cipher_get_plaintext context (ucast message_version) mk
                       (signal_message_get_body ciphertext)) (\<lambda>plaintext.
              Inr (plaintext, session_state_clear_unacknowledged_pre_key_message state)))))))))"

text \<open>The loop over the archived states.\<close>

fun session_cipher_decrypt_previous ::
  "('h, 'd, 'w) signal_context \<Rightarrow> session_record \<Rightarrow> signal_message \<Rightarrow> nat \<Rightarrow> session_state list \<Rightarrow>
     ('w, bytes \<times> session_record) act" where
  "session_cipher_decrypt_previous context r ciphertext i [] = sfail SG_ERR_INVALID_MESSAGE"
| "session_cipher_decrypt_previous context r ciphertext i (state # states) =
     sbind (slift (session_state_copy state)) (\<lambda>state_copy. (\<lambda>w.
       case session_cipher_decrypt_from_state_and_signal_message context state_copy ciphertext w of
         (Inr (plaintext, state_copy), w') \<Rightarrow>
           (Inr (plaintext,
              session_record_promote_state (session_record_get_previous_states_remove r i) state_copy), w')
       | (Inl e, w') \<Rightarrow>
           if e \<noteq> SG_ERR_INVALID_MESSAGE then (Inl e, w')
           else session_cipher_decrypt_previous context r ciphertext (Suc i) states w'))"

definition session_cipher_decrypt_from_record_and_signal_message ::
  "('h, 'd, 'w) signal_context \<Rightarrow> session_record \<Rightarrow> signal_message \<Rightarrow> ('w, bytes \<times> session_record) act" where
  "session_cipher_decrypt_from_record_and_signal_message context r ciphertext =
     sbind (slift (session_state_copy (session_record_get_state r))) (\<lambda>state_copy. (\<lambda>w.
       case session_cipher_decrypt_from_state_and_signal_message context state_copy ciphertext w of
         (Inr (plaintext, state_copy), w') \<Rightarrow> (Inr (plaintext, session_record_set_state r state_copy), w')
       | (Inl e, w') \<Rightarrow>
           if e \<noteq> SG_ERR_INVALID_MESSAGE then (Inl e, w')
           else session_cipher_decrypt_previous context r ciphertext 0 (sr_previous_states r) w'))"

definition session_cipher_decrypt_callback ::
  "'w session_cipher \<Rightarrow> bytes \<Rightarrow> ('w, int) act" where
  "session_cipher_decrypt_callback cipher plaintext =
     (case sc_decrypt_callback cipher of
        None \<Rightarrow> sreturn 0
      | Some callback \<Rightarrow> callback plaintext)"

definition session_cipher_decrypt_pre_key_signal_message ::
  "('h, 'd, 'w) signal_context \<Rightarrow> 'w session_cipher \<Rightarrow> pre_key_signal_message \<Rightarrow> ('w, bytes) act" where
  "session_cipher_decrypt_pre_key_signal_message context cipher ciphertext =
     (if sc_inside_callback cipher then sfail SG_ERR_INVAL
      else
        sbind (signal_protocol_session_load_session (sc_store cipher) (sc_remote_address cipher)) (\<lambda>r.
        sbind (session_builder_process_pre_key_signal_message context (sc_builder cipher) r ciphertext)
          (\<lambda>(unsigned_pre_key_id, r).
        sbind (session_cipher_decrypt_from_record_and_signal_message context r
                 (pre_key_signal_message_get_signal_message ciphertext)) (\<lambda>(result_buf, r).
        sbind (session_cipher_decrypt_callback cipher result_buf) (\<lambda>_.
        sbind (signal_protocol_session_store_session (sc_store cipher) (sc_remote_address cipher) r) (\<lambda>_.
        sbind (case unsigned_pre_key_id of
                 None \<Rightarrow> sreturn 0
               | Some i \<Rightarrow> signal_protocol_pre_key_remove_key (sc_store cipher) i) (\<lambda>_.
        sreturn result_buf)))))))"

definition session_cipher_decrypt_signal_message ::
  "('h, 'd, 'w) signal_context \<Rightarrow> 'w session_cipher \<Rightarrow> signal_message \<Rightarrow> ('w, bytes) act" where
  "session_cipher_decrypt_signal_message context cipher ciphertext =
     (if sc_inside_callback cipher then sfail SG_ERR_INVAL
      else
        sbind (signal_protocol_session_contains_session (sc_store cipher) (sc_remote_address cipher)) (\<lambda>n.
        if n = 0 then sfail SG_ERR_NO_SESSION
        else
          sbind (signal_protocol_session_load_session (sc_store cipher) (sc_remote_address cipher)) (\<lambda>r.
          sbind (session_cipher_decrypt_from_record_and_signal_message context r ciphertext)
            (\<lambda>(result_buf, r).
          sbind (session_cipher_decrypt_callback cipher result_buf) (\<lambda>_.
          sbind (signal_protocol_session_store_session (sc_store cipher) (sc_remote_address cipher) r) (\<lambda>_.
          sreturn result_buf))))))"

section \<open>Queries\<close>

definition session_cipher_get_remote_registration_id :: "'w session_cipher \<Rightarrow> ('w, u32) act" where
  "session_cipher_get_remote_registration_id cipher =
     sbind (signal_protocol_session_load_session (sc_store cipher) (sc_remote_address cipher)) (\<lambda>r.
     sreturn (session_state_get_remote_registration_id (session_record_get_state r)))"

text \<open>A count other than 0 and 1 is returned as success, with version 0.\<close>

definition session_cipher_get_session_version :: "'w session_cipher \<Rightarrow> ('w, u32) act" where
  "session_cipher_get_session_version cipher =
     sbind (signal_protocol_session_contains_session (sc_store cipher) (sc_remote_address cipher)) (\<lambda>n.
     if n = 0 then sfail SG_ERR_NO_SESSION
     else if n \<noteq> 1 then sreturn 0
     else
       sbind (signal_protocol_session_load_session (sc_store cipher) (sc_remote_address cipher)) (\<lambda>r.
       sreturn (session_state_get_session_version (session_record_get_state r))))"

end
