(* ===== verification/Session_Cipher_Props.thy ===== *)
theory Session_Cipher_Props
  imports Session_Cipher
begin

text \<open>
  What sessions promise: the loop over skipped messages, decryption in step with the
  sender, refusal of messages seen before, the turns of the double ratchet, and the
  session invariant.
\<close>

section \<open>One receiving chain of a state\<close>

text \<open>
  A part of a state that may be absent, with the laws of reading and replacing it;
  \<open>fits\<close> says which values may stand there.
\<close>

locale focus =
  fixes get :: "'s \<Rightarrow> 'a option"
    and put :: "'s \<Rightarrow> 'a \<Rightarrow> 's"
    and fits :: "'a \<Rightarrow> bool"
  assumes get_fits: "get s = Some a \<Longrightarrow> fits a"
    and get_put: "get s = Some a \<Longrightarrow> fits b \<Longrightarrow> get (put s b) = Some b"
    and put_put: "fits a \<Longrightarrow> put (put s a) b = put s b"
    and put_get: "get s = Some a \<Longrightarrow> put s a = s"
begin

lemma foldl_put:
  assumes step: "\<And>s a x. get s = Some a \<Longrightarrow> step s x = put s (g a x)"
    and fits: "\<And>a x. fits a \<Longrightarrow> fits (g a x)"
    and start: "get s = Some a"
  shows "foldl step s xs = put s (foldl g a xs) \<and> fits (foldl g a xs)"
  using start
proof (induction xs arbitrary: s a)
  case Nil
  then show ?case
    by (simp add: put_get get_fits)
next
  case (Cons x xs)
  have "fits (g a x)"
    using Cons.prems fits get_fits by blast
  then show ?case
    using Cons.IH [OF get_put [OF Cons.prems]] by (simp add: step [OF Cons.prems] put_put)
qed

end

definition put_receiver_chain ::
  "session_state \<Rightarrow> ec_public_key \<Rightarrow> session_state_receiver_chain \<Rightarrow> session_state" where
  "put_receiver_chain s e c = update_receiver_chain s e (\<lambda>_. c)"

interpretation chain: focus "\<lambda>s. session_state_find_receiver_chain s e" "\<lambda>s. put_receiver_chain s e"
  "chain_matches e" for e
proof
  fix s :: session_state and a b
  show "session_state_find_receiver_chain s e = Some a \<Longrightarrow> chain_matches e a"
    by (auto simp: session_state_find_receiver_chain_def dest: find_set)
  show "session_state_find_receiver_chain s e = Some a \<Longrightarrow> chain_matches e b \<Longrightarrow>
      session_state_find_receiver_chain (put_receiver_chain s e b) e = Some b"
    by (simp add: session_state_find_receiver_chain_def put_receiver_chain_def update_receiver_chain_def
        find_update_first_at)
  show "chain_matches e a \<Longrightarrow> put_receiver_chain (put_receiver_chain s e a) e b = put_receiver_chain s e b"
    by (simp add: put_receiver_chain_def update_receiver_chain_def update_first_twice)
  show "session_state_find_receiver_chain s e = Some a \<Longrightarrow> put_receiver_chain s e a = s"
    by (simp add: session_state_find_receiver_chain_def put_receiver_chain_def update_receiver_chain_def
        update_first_get)
qed

lemma update_receiver_chain_put:
  "session_state_find_receiver_chain s e = Some c \<Longrightarrow> update_receiver_chain s e f = put_receiver_chain s e (f c)"
  using update_first_at [of "chain_matches e" "ss_receiver_chains s" c f]
  by (simp add: session_state_find_receiver_chain_def put_receiver_chain_def update_receiver_chain_def)

lemma chain_matches_update [simp]:
  "chain_matches e (c\<lparr>message_keys := mks\<rparr>) = chain_matches e c"
  "chain_matches e (c\<lparr>receiver_chain_key := ck\<rparr>) = chain_matches e c"
  by (simp_all add: chain_matches_def)

lemma put_receiver_chain_sel [simp]:
  "ss_session_version (put_receiver_chain s e c) = ss_session_version s"
  "ss_local_identity_public (put_receiver_chain s e c) = ss_local_identity_public s"
  "ss_remote_identity_public (put_receiver_chain s e c) = ss_remote_identity_public s"
  "ss_root_key (put_receiver_chain s e c) = ss_root_key s"
  "ss_has_sender_chain (put_receiver_chain s e c) = ss_has_sender_chain s"
  "ss_sender_chain (put_receiver_chain s e c) = ss_sender_chain s"
  "ss_previous_counter (put_receiver_chain s e c) = ss_previous_counter s"
  by (simp_all add: put_receiver_chain_def update_receiver_chain_def)

lemma set_message_keys_put:
  "session_state_find_receiver_chain s e = Some c \<Longrightarrow>
    session_state_set_message_keys s e mk =
      put_receiver_chain s e (c\<lparr>message_keys := message_keys_append (message_keys c) mk\<rparr>)"
  by (simp add: session_state_set_message_keys_def update_receiver_chain_put)

lemma foldl_append_message_keys:
  "foldl (\<lambda>c mk. c\<lparr>message_keys := message_keys_append (message_keys c) mk\<rparr>) c mks =
    c\<lparr>message_keys := foldl message_keys_append (message_keys c) mks\<rparr>"
  by (induction mks arbitrary: c) simp_all

lemma foldl_set_message_keys:
  assumes "session_state_find_receiver_chain s e = Some c"
  shows "foldl (\<lambda>s mk. session_state_set_message_keys s e mk) s mks =
    put_receiver_chain s e (c\<lparr>message_keys := foldl message_keys_append (message_keys c) mks\<rparr>)"
  using chain.foldl_put [of e "\<lambda>s mk. session_state_set_message_keys s e mk"
      "\<lambda>c mk. c\<lparr>message_keys := message_keys_append (message_keys c) mk\<rparr>" s c mks] assms
  by (simp add: set_message_keys_put foldl_append_message_keys)

section \<open>Skipped messages\<close>

declare skip_message_keys.simps [simp del]

lemma skip_message_keys_eq:
  assumes "hmac_spec ctx mac" "hkdf_ok (ck_kdf ck)" "unat (ck_index ck) + n < 2 ^ 32"
  shows "skip_message_keys ctx e (ck_index ck + word_of_nat n) s ck =
    Inr (foldl (\<lambda>s mk. session_state_set_message_keys s e mk) s
           (map (\<lambda>i. chain_message_keys mac ((chain_next mac ^^ i) ck)) [0..<n]), (chain_next mac ^^ n) ck)"
  using assms(2,3)
proof (induction n arbitrary: s ck)
  case 0
  then show ?case
    by (subst skip_message_keys.simps) simp
next
  case (Suc n)
  have less: "ck_index ck < ck_index ck + word_of_nat (Suc n)"
    using index_add_less [OF Suc.prems(2)] by (simp add: word_less_nat_alt)
  have "unat (ck_index (chain_next mac ck)) + n < 2 ^ 32"
    using Suc.prems(2) index_add_less [of "ck_index ck" 1] by (simp add: chain_next_def)
  moreover have "hkdf_ok (ck_kdf (chain_next mac ck))"
    using Suc.prems(1) by (simp add: chain_next_def)
  moreover have index: "ck_index ck + word_of_nat (Suc n) = ck_index (chain_next mac ck) + word_of_nat n"
    by (simp add: chain_next_def)
  moreover have upt: "[0..<Suc n] = 0 # map Suc [0..<n]"
    by (simp add: map_Suc_upt upt_conv_Cons del: upt_Suc)
  ultimately have "skip_message_keys ctx e (ck_index ck + word_of_nat (Suc n))
      (session_state_set_message_keys s e (chain_message_keys mac ck)) (chain_next mac ck) =
    Inr (foldl (\<lambda>s mk. session_state_set_message_keys s e mk) s
           (map (\<lambda>i. chain_message_keys mac ((chain_next mac ^^ i) ck)) [0..<Suc n]),
         (chain_next mac ^^ Suc n) ck)"
    unfolding index using Suc.IH [of "chain_next mac ck"] by (simp add: upt o_def funpow_swap1 del: upt_Suc)
  then show ?case
    using less
    by (subst skip_message_keys.simps)
      (simp add: get_message_keys_eq [OF assms(1) Suc.prems(1)] create_next_eq [OF assms(1)])
qed

text \<open>
  Finding the keys of a message is \<open>fetch_key\<close> on the chain key and the stored keys
  of the receiving chain.
\<close>

definition fetched_chain ::
  "session_state_receiver_chain \<Rightarrow> ratchet_chain_key \<Rightarrow> ratchet_message_keys list \<Rightarrow>
     session_state_receiver_chain" where
  "fetched_chain c ck mks = c\<lparr>message_keys := mks, receiver_chain_key := Some ck\<rparr>"

abbreviation fetch_session_key where
  "fetch_session_key mac \<equiv> fetch_key ck_index (chain_next mac) (chain_message_keys mac) mk_counter message_keys_append"

lemma fetched_chain_sel [simp]:
  "receiver_chain_key (fetched_chain c ck mks) = Some ck" "message_keys (fetched_chain c ck mks) = mks"
  "chain_matches e (fetched_chain c ck mks) = chain_matches e c"
  by (simp_all add: fetched_chain_def)

lemma message_keys_refine:
  assumes mac: "hmac_spec context mac"
    and c: "session_state_find_receiver_chain s e = Some c" "receiver_chain_key c = Some ck" "hkdf_ok (ck_kdf ck)"
  shows "session_cipher_get_or_create_message_keys context s e ck n =
    rbind (fetch_session_key mac n ck (message_keys c)) (\<lambda>(mk, ck', mks).
    Inr (mk, put_receiver_chain s e (fetched_chain c ck' mks)))"
proof (cases "n < ck_index ck")
  case True
  have "c\<lparr>message_keys := mks\<rparr> = fetched_chain c ck mks" for mks
    using c(2) by (cases c) (simp add: fetched_chain_def)
  then show ?thesis
    using True c(1)
    by (simp add: session_cipher_get_or_create_message_keys_def ratchet_chain_key_get_index_def fetch_key_def
        session_state_remove_message_keys_def update_receiver_chain_put split: option.split)
next
  case False
  define g where "g = unat (n - ck_index ck)"
  define mks where "mks = map (\<lambda>i. chain_message_keys mac ((chain_next mac ^^ i) ck)) [0..<g]"
  let ?c = "c\<lparr>message_keys := foldl message_keys_append (message_keys c) mks\<rparr>"
  have n: "n = ck_index ck + word_of_nat g"
    by (simp add: g_def)
  have "unat (ck_index ck) + g = unat n"
    using False by (simp add: g_def unat_sub word_le_nat_alt not_less)
  then have room: "unat (ck_index ck) + g < 2 ^ 32"
    by (simp add: u32_bound)
  have skip: "skip_message_keys context e n s ck = Inr (put_receiver_chain s e ?c, (chain_next mac ^^ g) ck)"
    unfolding n skip_message_keys_eq [OF mac c(3) room] mks_def foldl_set_message_keys [OF c(1)] ..
  have "chain_matches e ?c"
    using chain.get_fits [OF c(1)] by simp
  then have found: "session_state_find_receiver_chain (put_receiver_chain s e ?c) e = Some ?c"
    and put: "put_receiver_chain (put_receiver_chain s e ?c) e = put_receiver_chain s e"
    using chain.get_put [OF c(1)] by (auto simp: chain.put_put)
  have "hkdf_ok (ck_kdf ((chain_next mac ^^ g) ck))"
    using c(3) by (simp add: chain_next_iter)
  then show ?thesis
    using False
    by (simp add: session_cipher_get_or_create_message_keys_def ratchet_chain_key_get_index_def fetch_key_def skip
        create_next_eq [OF mac] get_message_keys_eq [OF mac] session_state_set_receiver_chain_key_def found put
        update_receiver_chain_put [OF found] fetched_chain_def Let_def flip: g_def mks_def)
qed

section \<open>Ratchet steps\<close>

lemma chain_matches_self: "sender_ratchet_key c = Some e \<Longrightarrow> chain_matches e c"
  by (simp add: chain_matches_def signal_constant_memcmp_def foldl_const)

lemma find_receiver_chain_added:
  assumes "session_state_find_receiver_chain s e = None"
  shows "session_state_find_receiver_chain (session_state_add_receiver_chain s e ck) e =
    Some \<lparr>sender_ratchet_key = Some e, receiver_chain_key = Some ck, message_keys = []\<rparr>"
  using assms
  by (simp add: session_state_find_receiver_chain_def session_state_add_receiver_chain_def rcq.push_window
      MAX_RECEIVER_CHAINS_def find_append_new chain_matches_self)

text \<open>The state after a ratchet step on the new ratchet key \<open>e\<close>.\<close>

definition new_chain_state ::
  "session_state \<Rightarrow> ec_public_key \<Rightarrow> ratchet_chain_key \<Rightarrow> ec_key_pair \<Rightarrow>
     ratchet_root_key \<times> ratchet_chain_key \<Rightarrow> ratchet_chain_key \<Rightarrow> session_state" where
  "new_chain_state s e ck kp sent previous = s
     \<lparr>ss_root_key := Some (fst sent),
      ss_receiver_chains := receiver_chains_append (ss_receiver_chains s)
        \<lparr>sender_ratchet_key = Some e, receiver_chain_key = Some ck, message_keys = []\<rparr>,
      ss_previous_counter := (if ck_index previous > 0 then ck_index previous - 1 else ck_index previous),
      ss_has_sender_chain := True,
      ss_sender_chain := \<lparr>sender_ratchet_key_pair = Some kp, sender_chain_key = Some (snd sent)\<rparr>\<rparr>"

lemma require_eq_Inr [simp]: "require p = Inr x \<longleftrightarrow> p = Some x"
  by (cases p) (auto simp: require_def)

lemma new_chain_key_eq:
  assumes "session_state_get_receiver_chain_key s e = None"
  shows "session_cipher_get_or_create_chain_key context s e =
    sbind (slift (require (ss_root_key s))) (\<lambda>root.
    sbind (slift (require (sender_ratchet_key_pair (ss_sender_chain s)))) (\<lambda>kp.
    sbind (slift (ratchet_root_key_create_chain context root (Some e) (Some (private_key kp)))) (\<lambda>(rk, ck).
    sbind (curve_generate_key_pair context) (\<lambda>kp'.
    sbind (slift (ratchet_root_key_create_chain context rk (Some e) (Some (private_key kp')))) (\<lambda>(rk', ck').
    sbind (slift (require (sender_chain_key (ss_sender_chain s)))) (\<lambda>previous.
    sreturn (ck, new_chain_state s e ck kp' (rk', ck') previous)))))))"
  using assms
  by (simp add: session_cipher_get_or_create_chain_key_def Let_def
      session_getter_defs session_setter_defs session_state_add_receiver_chain_def new_chain_state_def
      ratchet_chain_key_get_index_def)

lemma new_chain_key_iff:
  assumes "session_state_get_receiver_chain_key s e = None"
  shows "session_cipher_get_or_create_chain_key context s e w = (Inr (ck, s1), w') \<longleftrightarrow>
    (\<exists>root kp rk kp' sent previous.
       ss_root_key s = Some root \<and> sender_ratchet_key_pair (ss_sender_chain s) = Some kp \<and>
       ratchet_root_key_create_chain context root (Some e) (Some (private_key kp)) = Inr (rk, ck) \<and>
       curve_generate_key_pair context w = (Inr kp', w') \<and>
       ratchet_root_key_create_chain context rk (Some e) (Some (private_key kp')) = Inr sent \<and>
       sender_chain_key (ss_sender_chain s) = Some previous \<and>
       s1 = new_chain_state s e ck kp' sent previous)"
  unfolding new_chain_key_eq [OF assms] sbind_eq_Inr slift_eq_Inr
  by (simp add: split_beta slift_eq_Inr sbind_eq_Inr del: slift_eq) blast

lemma decrypt_from_state_steps:
  assumes "session_cipher_decrypt_from_state_and_signal_message context s m w = (Inr (pt, s'), w')"
  obtains ck s1 mk s2 where "ss_has_sender_chain s" "ucast (sm_message_version m) = ss_session_version s"
    "session_cipher_get_or_create_chain_key context s (sm_sender_ratchet_key m) w = (Inr (ck, s1), w')"
    "session_cipher_get_or_create_message_keys context s1 (sm_sender_ratchet_key m) ck (sm_counter m) =
       Inr (mk, s2)"
    "s' = session_state_clear_unacknowledged_pre_key_message s2"
    "signal_message_verify_mac context m (ss_remote_identity_public s2) (ss_local_identity_public s2)
       (mk_mac_key mk) = Inr True"
    "session_cipher_get_plaintext context (ss_session_version s) mk (sm_ciphertext m) = Inr pt"
  using assms
  by (auto simp: session_cipher_decrypt_from_state_and_signal_message_def Let_def sbind_eq_Inr rbind_eq_Inr
      require_def session_state_has_sender_chain_def signal_message_get_message_version_def
      session_state_get_session_version_def signal_message_get_sender_ratchet_key_def
      signal_message_get_counter_def signal_message_get_body_def session_state_get_remote_identity_key_def
      session_state_get_local_identity_key_def slift_def
      split: if_splits option.splits)

lemma clear_unacknowledged_chains [simp]:
  "ss_receiver_chains (session_state_clear_unacknowledged_pre_key_message s) = ss_receiver_chains s"
  "session_state_find_receiver_chain (session_state_clear_unacknowledged_pre_key_message s) e =
     session_state_find_receiver_chain s e"
  by (simp_all add: session_state_clear_unacknowledged_pre_key_message_def session_state_find_receiver_chain_def)

lemma chain_key_keeps:
  assumes "session_cipher_get_or_create_chain_key context s e w = (Inr (ck, s1), w')" "ss_has_sender_chain s"
  shows "ss_has_sender_chain s1" "ss_session_version s1 = ss_session_version s"
    "ss_remote_identity_public s1 = ss_remote_identity_public s"
    "ss_local_identity_public s1 = ss_local_identity_public s"
  using assms
  by (auto simp: session_cipher_get_or_create_chain_key_def sbind_eq_Inr Let_def session_setter_defs
      session_state_add_receiver_chain_def split: option.splits)

lemma skip_message_keys_identities:
  assumes "skip_message_keys ctx e counter s ck = Inr (s', ck')"
  shows "ss_remote_identity_public s' = ss_remote_identity_public s \<and> ss_local_identity_public s' = ss_local_identity_public s"
  using assms
proof (induction ctx e counter s ck rule: skip_message_keys.induct)
  case (1 ctx e counter s ck)
  show ?case
  proof (cases "ck_index ck < counter")
    case False
    then show ?thesis
      using "1.prems" by (simp add: skip_message_keys.simps [of _ _ _ s])
  next
    case True
    have "ss_remote_identity_public (session_state_set_message_keys s e mk) = ss_remote_identity_public s"
      "ss_local_identity_public (session_state_set_message_keys s e mk) = ss_local_identity_public s" for mk
      by (simp_all add: session_state_set_message_keys_def update_receiver_chain_def split: option.split)
    then show ?thesis
      using "1.IH" [OF True] "1.prems" True
      by (auto simp: skip_message_keys.simps [of _ _ _ s] rbind_eq_Inr)
  qed
qed

lemma message_keys_identities:
  assumes "session_cipher_get_or_create_message_keys context s e ck n = Inr (mk, s')"
  shows "ss_remote_identity_public s' = ss_remote_identity_public s" "ss_local_identity_public s' = ss_local_identity_public s"
  using assms
  by (auto simp: session_cipher_get_or_create_message_keys_def rbind_eq_Inr session_state_remove_message_keys_def
      session_state_set_receiver_chain_key_def update_receiver_chain_def Let_def
      dest!: skip_message_keys_identities split: if_splits option.splits prod.splits)

text \<open>What a decryption that succeeds has checked.\<close>

lemma decrypt_from_state_verified:
  assumes "hmac_spec context mac" "ss_session_version s = 3"
    and "session_cipher_decrypt_from_state_and_signal_message context s m w = (Inr (pt, s'), w')"
  obtains ck s1 mk s2 them us where
    "session_cipher_get_or_create_chain_key context s (sm_sender_ratchet_key m) w = (Inr (ck, s1), w')"
    "session_cipher_get_or_create_message_keys context s1 (sm_sender_ratchet_key m) ck (sm_counter m) = Inr (mk, s2)"
    "ss_remote_identity_public s = Some them" "ss_local_identity_public s = Some us" "sm_message_version m = 3"
    "signal_message_verify_mac context m (Some them) (Some us) (mk_mac_key mk) = Inr True"
proof -
  obtain ck s1 mk s2 where sender: "ss_has_sender_chain s" and version: "ucast (sm_message_version m) = ss_session_version s"
    and ck: "session_cipher_get_or_create_chain_key context s (sm_sender_ratchet_key m) w = (Inr (ck, s1), w')"
    and mk: "session_cipher_get_or_create_message_keys context s1 (sm_sender_ratchet_key m) ck (sm_counter m) = Inr (mk, s2)"
    and verified: "signal_message_verify_mac context m (ss_remote_identity_public s2) (ss_local_identity_public s2)
       (mk_mac_key mk) = Inr True"
    by (rule decrypt_from_state_steps [OF assms(3)])
  have v: "sm_message_version m = 3"
    using arg_cong [OF version [unfolded assms(2)], of uint] uint_bounded [of "sm_message_version m"]
    by (simp add: unsigned_ucast_eq word_uint_eq_iff take_bit_int_eq_self)
  moreover have ids: "ss_remote_identity_public s2 = ss_remote_identity_public s"
    "ss_local_identity_public s2 = ss_local_identity_public s"
    using message_keys_identities [OF mk] chain_key_keeps(3,4) [OF ck sender] by simp_all
  ultimately obtain them us where "ss_remote_identity_public s = Some them" "ss_local_identity_public s = Some us"
    using verified
    by (auto simp: signal_message_verify_mac_def signal_message_get_mac_def rbind_eq_Inr Let_def ec_public_key_serialize_def
        split: option.splits if_splits)
  then show ?thesis
    using that ck mk v verified ids by simp
qed

section \<open>Decryption keeps the invariant\<close>

lemma chain_key_fits_ok: "chain_key_fits v ck \<Longrightarrow> chain_key_ok ck"
  by (auto simp: chain_key_fits_def kdf_for_def chain_key_ok_def hkdf_ok_def dest: hkdf_create_offset)

lemma root_key_fits_ok: "root_key_fits v rk \<Longrightarrow> hkdf_ok (rk_kdf rk)"
  by (auto simp: root_key_fits_def kdf_for_def hkdf_ok_def dest: hkdf_create_offset)

lemma chain_next_fits:
  "hmac_spec context mac \<Longrightarrow> chain_key_fits v ck \<Longrightarrow> chain_key_fits v (chain_next mac ck)"
  by (simp add: chain_key_fits_def chain_next_def hmac_specD)

lemma create_chain_fits:
  assumes "hmac_spec context mac" "dh_spec context dh" "root_key_fits v rk"
    and "ratchet_root_key_create_chain context rk (Some e) (Some k) = Inr sent"
  shows "root_key_fits v (fst sent)" "chain_key_fits v (snd sent)"
  using assms(4) root_next_fits [OF assms(1,3)] create_chain_eq [OF assms(1,2) root_key_fits_ok [OF assms(3)]]
  by auto

lemma found_chain_ok:
  assumes "session_state_ok s" "session_state_find_receiver_chain s e = Some c"
  shows "receiver_chain_ok (ss_session_version s) c"
  using assms find_set [of "chain_matches e" "ss_receiver_chains s" c]
  by (auto simp: session_state_ok_def session_state_find_receiver_chain_def list_all_iff)

lemma chain_key_ok_after:
  assumes specs: "hmac_spec context mac" "dh_spec context dh" "random_spec context"
    and s: "session_state_ok s" "ec_public_key_ok e"
    and get: "session_cipher_get_or_create_chain_key context s e w = (Inr (ck, s1), w')"
  shows "session_state_ok s1 \<and> chain_key_fits (ss_session_version s1) ck"
proof (cases "session_state_get_receiver_chain_key s e")
  case (Some k)
  then obtain c where c: "session_state_find_receiver_chain s e = Some c" "receiver_chain_key c = Some ck" "s1 = s"
    using get by (auto simp: session_cipher_get_or_create_chain_key_def session_state_get_receiver_chain_key_def
        split: option.splits)
  then show ?thesis
    using s(1) found_chain_ok [OF s(1) c(1)] by (simp add: receiver_chain_ok_def)
next
  case None
  let ?v = "ss_session_version s"
  obtain root kp rk kp' sent previous where parts: "ss_root_key s = Some root"
    "sender_ratchet_key_pair (ss_sender_chain s) = Some kp"
    "ratchet_root_key_create_chain context root (Some e) (Some (private_key kp)) = Inr (rk, ck)"
    "curve_generate_key_pair context w = (Inr kp', w')"
    "ratchet_root_key_create_chain context rk (Some e) (Some (private_key kp')) = Inr sent"
    "s1 = new_chain_state s e ck kp' sent previous"
    using get unfolding new_chain_key_iff [OF None] by blast
  have "root_key_fits ?v root"
    using s(1) parts(1) by (simp add: session_state_ok_def)
  then have fits: "root_key_fits ?v rk" "chain_key_fits ?v ck"
    using create_chain_fits [OF specs(1,2) _ parts(3)] by simp_all
  then have fits2: "root_key_fits ?v (fst sent)" "chain_key_fits ?v (snd sent)"
    using create_chain_fits [OF specs(1,2) _ parts(5)] by simp_all
  have "session_state_ok (session_state_add_receiver_chain s e ck)"
    using add_receiver_chain_ok [OF s fits(2)] .
  then show ?thesis
    using fits fits2 generated_key_pair_ok [OF specs(2,3) parts(4)]
    by (simp add: parts(6) new_chain_state_def session_state_ok_def session_state_add_receiver_chain_def
        sender_chain_ok_def)
qed

lemma set_message_keys_version [simp]:
  "ss_session_version (session_state_set_message_keys s e mk) = ss_session_version s"
  by (simp add: session_state_set_message_keys_def update_receiver_chain_def split: option.split)

lemma skip_message_keys_ok:
  assumes "hmac_spec ctx mac" "skip_message_keys ctx e counter s ck = Inr (s', ck')"
    and "session_state_ok s" "chain_key_fits v ck"
  shows "session_state_ok s' \<and> chain_key_fits v ck' \<and> ss_session_version s' = ss_session_version s"
  using assms
proof (induction ctx e counter s ck rule: skip_message_keys.induct)
  case (1 ctx e counter s ck)
  show ?case
  proof (cases "ck_index ck < counter")
    case False
    then show ?thesis
      using "1.prems" by (simp add: skip_message_keys.simps [of _ _ _ s])
  next
    case True
    let ?mk = "chain_message_keys mac ck"
    have ok: "hkdf_ok (ck_kdf ck)"
      using chain_key_fits_ok [OF "1.prems"(4)] by (simp add: chain_key_ok_def)
    note next_keys = get_message_keys_eq [OF "1.prems"(1) ok] create_next_eq [OF "1.prems"(1), of ck]
    have "skip_message_keys ctx e counter (session_state_set_message_keys s e ?mk) (chain_next mac ck) = Inr (s', ck')"
      using "1.prems"(2) True by (simp add: skip_message_keys.simps [of _ _ _ s] next_keys)
    then show ?thesis
      using "1.IH" [OF True next_keys "1.prems"(1)] "1.prems"(1,3,4)
      by (simp add: set_message_keys_ok chain_message_keys_ok chain_next_fits)
  qed
qed

lemma get_or_create_message_keys_ok:
  assumes "hmac_spec context mac" "session_state_ok s" "chain_key_fits (ss_session_version s) ck"
    and "session_cipher_get_or_create_message_keys context s e ck counter = Inr (mk, s')"
  shows "session_state_ok s' \<and> message_keys_ok mk"
proof (cases "counter < ck_index ck")
  case True
  then have "session_state_remove_message_keys s e counter = (Some mk, s')"
    using assms(4)
    by (auto simp: session_cipher_get_or_create_message_keys_def ratchet_chain_key_get_index_def
        split: prod.splits option.splits)
  then show ?thesis
    using remove_message_keys_ok [OF assms(2)] by fastforce
next
  case False
  then obtain s1 ck1 nxt where steps: "skip_message_keys context e counter s ck = Inr (s1, ck1)"
    "ratchet_chain_key_create_next context ck1 = Inr nxt"
    "session_state_set_receiver_chain_key s1 e nxt = Inr s'"
    "ratchet_chain_key_get_message_keys context ck1 = Inr mk"
    using assms(4)
    by (auto simp: session_cipher_get_or_create_message_keys_def ratchet_chain_key_get_index_def
        rbind_eq_Inr split: if_splits)
  have s1: "session_state_ok s1" "chain_key_fits (ss_session_version s1) ck1"
    using skip_message_keys_ok [OF assms(1) steps(1) assms(2,3)] by simp_all
  have "nxt = chain_next mac ck1" "mk = chain_message_keys mac ck1"
    using steps(2,4) create_next_eq [OF assms(1)] get_message_keys_eq [OF assms(1)] chain_key_fits_ok [OF s1(2)]
    by (simp_all add: chain_key_ok_def)
  then show ?thesis
    using set_receiver_chain_key_ok [OF s1(1) _ steps(3)] chain_next_fits [OF assms(1) s1(2)]
      chain_message_keys_ok [OF assms(1)] by simp
qed

lemma decrypt_from_state_ok:
  assumes specs: "hmac_spec context mac" "dh_spec context dh" "random_spec context"
    and "session_state_ok s" "ec_public_key_ok (sm_sender_ratchet_key m)"
    and "session_cipher_decrypt_from_state_and_signal_message context s m w = (Inr (pt, s'), w')"
  shows "session_state_ok s'"
proof -
  obtain ck s1 mk s2 where steps:
    "session_cipher_get_or_create_chain_key context s (sm_sender_ratchet_key m) w = (Inr (ck, s1), w')"
    "session_cipher_get_or_create_message_keys context s1 (sm_sender_ratchet_key m) ck (sm_counter m) =
       Inr (mk, s2)"
    "s' = session_state_clear_unacknowledged_pre_key_message s2"
    using decrypt_from_state_steps [OF assms(6)] by metis
  have "session_state_ok s1" "chain_key_fits (ss_session_version s1) ck"
    using chain_key_ok_after [OF specs assms(4,5) steps(1)] by simp_all
  then have "session_state_ok s2"
    using get_or_create_message_keys_ok [OF specs(1) _ _ steps(2)] by blast
  then show ?thesis
    by (simp add: steps(3) session_setters_ok(7))
qed

section \<open>No message is decrypted twice\<close>

text \<open>
  The stored message keys of each receiving chain have different counters, all below the
  index of the chain key.
\<close>

definition chain_counters_ok :: "session_state_receiver_chain \<Rightarrow> bool" where
  "chain_counters_ok c \<longleftrightarrow>
     (case receiver_chain_key c of
        None \<Rightarrow> False
      | Some ck \<Rightarrow> counters_ok ck_index mk_counter ck (message_keys c))"

definition state_counters_ok :: "session_state \<Rightarrow> bool" where
  "state_counters_ok s \<longleftrightarrow> list_all chain_counters_ok (ss_receiver_chains s)"

lemma state_counters_found:
  assumes "state_counters_ok s" "session_state_find_receiver_chain s e = Some c"
  shows "chain_counters_ok c"
  using assms find_set [of "chain_matches e" "ss_receiver_chains s" c]
  by (auto simp: state_counters_ok_def session_state_find_receiver_chain_def list_all_iff)

lemma chain_key_counters:
  assumes "state_counters_ok s"
    and "session_cipher_get_or_create_chain_key context s e w = (Inr (ck, s1), w')"
  obtains c where "state_counters_ok s1" "session_state_find_receiver_chain s1 e = Some c"
    "receiver_chain_key c = Some ck"
proof (cases "session_state_find_receiver_chain s e")
  case (Some c)
  then have "session_state_get_receiver_chain_key s e = Some ck" "s1 = s"
    using assms(2) state_counters_found [OF assms(1) Some]
    by (auto simp: session_cipher_get_or_create_chain_key_def session_state_get_receiver_chain_key_def
        chain_counters_ok_def split: option.splits)
  then show ?thesis
    using that [of c] Some assms(1) by (simp add: session_state_get_receiver_chain_key_def)
next
  case None
  then have none: "session_state_get_receiver_chain_key s e = None"
    by (simp add: session_state_get_receiver_chain_key_def)
  let ?c = "\<lparr>sender_ratchet_key = Some e, receiver_chain_key = Some ck, message_keys = []\<rparr>"
  have chains: "ss_receiver_chains s1 = receiver_chains_append (ss_receiver_chains s) ?c"
    using assms(2) by (auto simp: new_chain_key_iff [OF none] new_chain_state_def)
  then have "state_counters_ok s1"
    using assms(1) rcq.push_set [of "ss_receiver_chains s" ?c]
    by (auto simp: state_counters_ok_def list_all_iff chain_counters_ok_def counters_ok_def)
  moreover have "session_state_find_receiver_chain s1 e = Some ?c"
    using find_receiver_chain_added [OF None, of ck] chains
    by (simp add: session_state_find_receiver_chain_def session_state_add_receiver_chain_def)
  ultimately show ?thesis
    using that by simp
qed

lemma state_counters_put:
  "state_counters_ok s \<Longrightarrow> chain_counters_ok c \<Longrightarrow> state_counters_ok (put_receiver_chain s e c)"
  by (simp add: state_counters_ok_def put_receiver_chain_def update_receiver_chain_def update_first_list_all)

lemma decrypt_from_state_counters:
  assumes specs: "hmac_spec context mac" "dh_spec context dh" "random_spec context"
    and s: "session_state_ok s" "state_counters_ok s" "ec_public_key_ok (sm_sender_ratchet_key m)"
      "sm_counter m \<noteq> -1"
    and dec: "session_cipher_decrypt_from_state_and_signal_message context s m w = (Inr (pt, s'), w')"
  obtains c ck where "state_counters_ok s'" "ss_has_sender_chain s'" "ss_session_version s' = ss_session_version s"
    "session_state_find_receiver_chain s' (sm_sender_ratchet_key m) = Some c"
    "receiver_chain_key c = Some ck" "hkdf_ok (ck_kdf ck)" "sm_counter m < ck_index ck"
    "sm_counter m \<notin> mk_counter ` set (message_keys c)"
proof -
  let ?e = "sm_sender_ratchet_key m"
  obtain ck s1 mk s2 where steps:
    "session_cipher_get_or_create_chain_key context s ?e w = (Inr (ck, s1), w')"
    "session_cipher_get_or_create_message_keys context s1 ?e ck (sm_counter m) = Inr (mk, s2)"
    "s' = session_state_clear_unacknowledged_pre_key_message s2" "ss_has_sender_chain s"
    using decrypt_from_state_steps [OF dec] by metis
  obtain c where c: "state_counters_ok s1" "session_state_find_receiver_chain s1 ?e = Some c"
    "receiver_chain_key c = Some ck"
    using chain_key_counters [OF s(2) steps(1)] .
  have kdf: "hkdf_ok (ck_kdf ck)"
    using chain_key_ok_after [OF specs s(1,3) steps(1)] chain_key_fits_ok by (auto simp: chain_key_ok_def)
  obtain ck' mks where keys: "fetch_session_key mac (sm_counter m) ck (message_keys c) = Inr (mk, ck', mks)"
    "s2 = put_receiver_chain s1 ?e (fetched_chain c ck' mks)"
    using steps(2) unfolding message_keys_refine [OF specs(1) c(2,3) kdf] by (auto simp: rbind_eq_Inr)
  have "counters_ok ck_index mk_counter ck (message_keys c)"
    using state_counters_found [OF c(1,2)] c(3) by (simp add: chain_counters_ok_def)
  note used = session_chain.fetch_counters [OF this s(4) keys(1)]
  have kdf': "hkdf_ok (ck_kdf ck')"
    using keys(1)
    by (rule session_chain.fetch_cases) (use kdf in \<open>simp_all add: chain_next_iter chain_next_def\<close>)
  have find: "session_state_find_receiver_chain s2 ?e = Some (fetched_chain c ck' mks)"
    using chain.get_put [OF c(2)] chain.get_fits [OF c(2)] by (simp add: keys(2))
  have "state_counters_ok s2"
    using state_counters_put [OF c(1)] used(1) by (simp add: keys(2) chain_counters_ok_def)
  then show ?thesis
    using that [of "fetched_chain c ck' mks" ck'] chain_key_keeps [OF steps(1,4)] find kdf' used(2,3)
    by (simp add: steps(3) keys(2) state_counters_ok_def session_state_clear_unacknowledged_pre_key_message_def
        session_state_find_receiver_chain_def)
qed

lemma decrypt_from_state_twice:
  assumes specs: "hmac_spec context mac" "dh_spec context dh" "random_spec context"
    and s: "session_state_ok s" "state_counters_ok s" "ec_public_key_ok (sm_sender_ratchet_key m)"
      "sm_counter m \<noteq> -1"
    and dec: "session_cipher_decrypt_from_state_and_signal_message context s m w = (Inr (pt, s'), w')"
  shows "session_cipher_decrypt_from_state_and_signal_message context s' m v = (Inl SG_ERR_DUPLICATE_MESSAGE, v)"
proof -
  obtain c ck where c: "ss_has_sender_chain s'" "ss_session_version s' = ss_session_version s"
    "session_state_find_receiver_chain s' (sm_sender_ratchet_key m) = Some c"
    "receiver_chain_key c = Some ck" "hkdf_ok (ck_kdf ck)" "sm_counter m < ck_index ck"
    "sm_counter m \<notin> mk_counter ` set (message_keys c)"
    using decrypt_from_state_counters [OF assms] by metis
  have "session_cipher_get_or_create_message_keys context s' (sm_sender_ratchet_key m) ck (sm_counter m) =
      Inl SG_ERR_DUPLICATE_MESSAGE"
    by (simp add: message_keys_refine [OF specs(1) c(3,4,5)] session_chain.fetch_used [OF c(6,7)])
  moreover have "ucast (sm_message_version m) = ss_session_version s"
    using decrypt_from_state_steps [OF dec] by metis
  ultimately show ?thesis
    using c(1-4)
    by (simp add: session_cipher_decrypt_from_state_and_signal_message_def Let_def session_getter_defs
        signal_message_get_message_version_def signal_message_get_sender_ratchet_key_def
        signal_message_get_counter_def session_cipher_get_or_create_chain_key_def
        session_state_get_receiver_chain_key_def slift_def)
qed

section \<open>Records\<close>

lemma decrypt_previous_steps:
  assumes "list_all session_state_ok states"
    and "session_cipher_decrypt_previous context r m i states w = (Inr (pt, r'), w')"
  shows "\<exists>j s s' w1. j < length states \<and> states ! j = s \<and>
    session_cipher_decrypt_from_state_and_signal_message context s m w1 = (Inr (pt, s'), w') \<and>
    r' = session_record_promote_state (session_record_get_previous_states_remove r (i + j)) s'"
  using assms
proof (induction states arbitrary: i w)
  case (Cons s states)
  show ?case
  proof (cases "session_cipher_decrypt_from_state_and_signal_message context s m w")
    case (Pair res w1)
    show ?thesis
    proof (cases res)
      case (Inr x)
      then show ?thesis
        using Cons.prems Pair
        by (intro exI [of _ "0 :: nat"] exI [of _ s] exI [of _ "snd x"] exI [of _ w])
          (cases x, simp add: session_state_copy_id)
    next
      case (Inl e)
      then have "session_cipher_decrypt_previous context r m (Suc i) states w1 = (Inr (pt, r'), w')"
        using Cons.prems Pair by (auto simp: session_state_copy_id split: if_splits)
      then obtain j s0 s' w2 where "j < length states" "states ! j = s0"
        "session_cipher_decrypt_from_state_and_signal_message context s0 m w2 = (Inr (pt, s'), w')"
        "r' = session_record_promote_state (session_record_get_previous_states_remove r (Suc i + j)) s'"
        using Cons.IH [of "Suc i" w1] Cons.prems(1) by auto
      then show ?thesis
        by (intro exI [of _ "Suc j"]) auto
    qed
  qed
qed simp

text \<open>
  A record decrypts a message with its current state or with one of the archived ones;
  the state that did is the current state afterwards.
\<close>

lemma decrypt_from_record_steps:
  assumes "session_record_ok r"
    and "session_cipher_decrypt_from_record_and_signal_message context r m w = (Inr (pt, r'), w')"
  obtains s s' w1 where "s \<in> set (sr_state r # sr_previous_states r)"
    "session_cipher_decrypt_from_state_and_signal_message context s m w1 = (Inr (pt, s'), w')"
    "sr_state r' = s'"
    "r' = session_record_set_state r s' \<or>
     (\<exists>j. r' = session_record_promote_state (session_record_get_previous_states_remove r j) s')"
proof -
  have ok: "session_state_ok (sr_state r)" "list_all session_state_ok (sr_previous_states r)"
    using assms(1) by (simp_all add: session_record_ok_def)
  show ?thesis
  proof (cases "session_cipher_decrypt_from_state_and_signal_message context (sr_state r) m w")
    case (Pair res w1)
    show ?thesis
    proof (cases res)
      case (Inr x)
      then show ?thesis
        using assms(2) Pair ok(1) that [of "sr_state r" w "snd x"]
        by (cases x) (auto simp: session_cipher_decrypt_from_record_and_signal_message_def
            session_record_get_state_def session_state_copy_id session_record_set_state_def)
    next
      case (Inl e)
      then have "session_cipher_decrypt_previous context r m 0 (sr_previous_states r) w1 = (Inr (pt, r'), w')"
        using assms(2) Pair ok(1)
        by (auto simp: session_cipher_decrypt_from_record_and_signal_message_def
            session_record_get_state_def session_state_copy_id split: if_splits)
      then obtain j s s' w2 where "j < length (sr_previous_states r)" "sr_previous_states r ! j = s"
        "session_cipher_decrypt_from_state_and_signal_message context s m w2 = (Inr (pt, s'), w')"
        "r' = session_record_promote_state (session_record_get_previous_states_remove r j) s'"
        using decrypt_previous_steps [OF ok(2), of "context" r m 0 w1] by auto
      then show ?thesis
        by (intro that [of s w2 s']) (auto simp: session_record_promote_state_def)
    qed
  qed
qed

lemma decrypt_from_record_ok:
  assumes specs: "hmac_spec context mac" "dh_spec context dh" "random_spec context"
    and "session_record_ok r" "ec_public_key_ok (sm_sender_ratchet_key m)"
    and "session_cipher_decrypt_from_record_and_signal_message context r m w = (Inr (pt, r'), w')"
  shows "session_record_ok r'"
proof -
  obtain s s' w1 where s: "s \<in> set (sr_state r # sr_previous_states r)"
    "session_cipher_decrypt_from_state_and_signal_message context s m w1 = (Inr (pt, s'), w')"
    "r' = session_record_set_state r s' \<or>
     (\<exists>j. r' = session_record_promote_state (session_record_get_previous_states_remove r j) s')"
    by (rule decrypt_from_record_steps [OF assms(4,6)])
  have "session_state_ok s"
    using s(1) assms(4) by (auto simp: session_record_ok_def list_all_iff)
  then have "session_state_ok s'"
    using decrypt_from_state_ok [OF specs _ assms(5) s(2)] by blast
  then show ?thesis
    using s(3) assms(4) by (auto intro: set_state_ok promote_state_ok previous_states_remove_ok)
qed

definition record_counters_ok :: "session_record \<Rightarrow> bool" where
  "record_counters_ok r \<longleftrightarrow> list_all state_counters_ok (sr_state r # sr_previous_states r)"

lemma decrypt_from_record_twice:
  assumes specs: "hmac_spec context mac" "dh_spec context dh" "random_spec context"
    and "session_record_ok r" "record_counters_ok r"
    and "ec_public_key_ok (sm_sender_ratchet_key m)" "sm_counter m \<noteq> -1"
    and dec: "session_cipher_decrypt_from_record_and_signal_message context r m w = (Inr (pt, r'), w')"
  shows "session_cipher_decrypt_from_record_and_signal_message context r' m v =
    (Inl SG_ERR_DUPLICATE_MESSAGE, v)"
proof -
  obtain s s' w1 where s: "s \<in> set (sr_state r # sr_previous_states r)"
    "session_cipher_decrypt_from_state_and_signal_message context s m w1 = (Inr (pt, s'), w')"
    "sr_state r' = s'"
    by (rule decrypt_from_record_steps [OF assms(4) dec])
  have "session_state_ok s" "state_counters_ok s"
    using s(1) assms(4,5) by (auto simp: session_record_ok_def record_counters_ok_def list_all_iff)
  then have "session_cipher_decrypt_from_state_and_signal_message context s' m v =
      (Inl SG_ERR_DUPLICATE_MESSAGE, v)"
    by (rule decrypt_from_state_twice [OF specs _ _ assms(6,7) s(2)])
  moreover have "session_state_ok s'"
    using decrypt_from_record_ok [OF specs assms(4,6) dec] s(3) by (auto simp: session_record_ok_def)
  ultimately show ?thesis
    by (simp add: session_cipher_decrypt_from_record_and_signal_message_def session_record_get_state_def s(3)
        session_state_copy_id)
qed

end
