(* ===== verification/Conversation.thy ===== *)
theory Conversation
  imports Session_Cipher_Props
begin

text \<open>
  Two sessions talking to each other. A state that can send is described by its sending
  key pair and chain key. What it encrypts is decrypted by a state whose receiving chain for
  that key is in step, behind, or ahead with the skipped key stored; and by a state that has
  not seen the key yet but holds the root key it was derived from.

  The theorems at the end are about runs: messages of one chain delivered in any order
  and with losses, and conversations in both directions that start from the two sides of a
  session set-up.
\<close>

section \<open>Sending\<close>

definition can_send ::
  "session_state \<Rightarrow> ec_key_pair \<Rightarrow> ratchet_chain_key \<Rightarrow> ec_public_key \<Rightarrow> ec_public_key \<Rightarrow> bool" where
  "can_send s kp ck us them \<longleftrightarrow>
     session_state_ok s \<and> ss_session_version s = 3 \<and> ss_has_sender_chain s \<and>
     ss_sender_chain s = \<lparr>sender_ratchet_key_pair = Some kp, sender_chain_key = Some ck\<rparr> \<and>
     ss_local_identity_public s = Some us \<and> ss_remote_identity_public s = Some them \<and>
     (ss_has_pending_pre_key s \<longrightarrow> ppk_base_key (ss_pending_pre_key s) \<noteq> None)"

definition advance_sender :: "session_state \<Rightarrow> ratchet_chain_key \<Rightarrow> session_state" where
  "advance_sender s ck = s\<lparr>ss_sender_chain := ss_sender_chain s\<lparr>sender_chain_key := Some ck\<rparr>\<rparr>"

text \<open>The signal message inside an encrypted message.\<close>

fun carried_message :: "encrypted_message \<Rightarrow> signal_message" where
  "carried_message (Encrypted_signal m) = m"
| "carried_message (Encrypted_pre_key p) = pksm_message p"

text \<open>A message as a session in state \<open>ck\<close> sends it.\<close>

definition message_of ::
  "('h, 'd, 'w) signal_context \<Rightarrow> (bytes \<Rightarrow> bytes \<Rightarrow> bytes) \<Rightarrow> ec_public_key \<Rightarrow> ratchet_chain_key \<Rightarrow>
     ec_public_key \<Rightarrow> ec_public_key \<Rightarrow> bytes \<Rightarrow> signal_message \<Rightarrow> bool" where
  "message_of context mac e ck us them pt m \<longleftrightarrow>
     (\<exists>previous ct. session_cipher_get_ciphertext context 3 (chain_message_keys mac ck) pt = Inr ct \<and>
        signal_message_create context 3 (mk_mac_key (chain_message_keys mac ck)) e (ck_index ck) previous ct
          (Some us) (Some them) = Inr m)"

lemma can_send_chain_fits:
  assumes "can_send s kp ck us them"
  shows "chain_key_fits 3 ck" "ec_key_pair_ok kp" "hkdf_ok (ck_kdf ck)"
  using assms chain_key_fits_ok [of 3 ck]
  by (auto simp: can_send_def session_state_ok_def sender_chain_ok_def chain_key_ok_def)

lemma signal_message_create_total:
  assumes "hmac_spec context mac"
  shows "\<exists>m d. signal_message_create context 3 k e counter previous ct (Some us) (Some them) = Inr m \<and>
    serialized (sm_base_message m) = Some d"
  by (simp add: signal_message_create_def signal_message_serialize_eq signal_message_get_mac_eq [OF assms]
      Let_def)

lemma pre_key_signal_message_create_total:
  assumes "serialized (sm_base_message m) = Some d"
  shows "\<exists>p. pre_key_signal_message_create v reg pid sid base identity m = Inr p \<and> pksm_message p = m"
  using assms
  by (simp add: pre_key_signal_message_create_def pre_key_signal_message_serialize_def checked_pack_def Let_def
      ciphertext_message_get_serialized_def)

lemma get_ciphertext_total:
  assumes "cipher_spec context"
  shows "\<exists>ct. session_cipher_get_ciphertext context 3 mk pt = Inr ct \<and>
    session_cipher_get_plaintext context 3 mk ct = Inr pt"
  using assms by (auto simp: cipher_spec_def session_cipher_get_ciphertext_def session_cipher_get_plaintext_def)

lemma encrypt_state_sends:
  assumes specs: "hmac_spec context mac" "cipher_spec context"
    and s: "can_send s kp ck us them"
  shows "\<exists>em. session_cipher_encrypt_state context s pt = Inr (em, advance_sender s (chain_next mac ck)) \<and>
    message_of context mac (public_key kp) ck us them pt (carried_message em)"
proof -
  let ?mk = "chain_message_keys mac ck"
  obtain ct where ct: "session_cipher_get_ciphertext context 3 ?mk pt = Inr ct"
    using get_ciphertext_total [OF specs(2)] by blast
  obtain m d where m: "signal_message_create context 3 (mk_mac_key ?mk) (public_key kp) (ck_index ck)
      (ss_previous_counter s) ct (Some us) (Some them) = Inr m" "serialized (sm_base_message m) = Some d"
    using signal_message_create_total [OF specs(1)] by blast
  have sent: "message_of context mac (public_key kp) ck us them pt m"
    using ct m(1) unfolding message_of_def by blast
  note simps = session_cipher_encrypt_state_def session_getter_defs require_def Let_def
    get_message_keys_eq [OF specs(1) can_send_chain_fits(3) [OF s]] create_next_eq [OF specs(1)]
    ct ratchet_chain_key_get_index_def m(1) session_state_set_sender_chain_key_def advance_sender_def
    session_state_unacknowledged_pre_key_message_get_pre_key_id_def
  show ?thesis
  proof (cases "ss_has_pending_pre_key s")
    case True
    then obtain base where base: "ppk_base_key (ss_pending_pre_key s) = Some base"
      using s by (auto simp: can_send_def)
    define pid where "pid = (if ppk_has_pre_key_id (ss_pending_pre_key s)
      then Some (ppk_pre_key_id (ss_pending_pre_key s)) else None)"
    obtain p where p: "pre_key_signal_message_create 3 (ss_local_registration_id s) pid
        (ppk_signed_pre_key_id (ss_pending_pre_key s)) base us m = Inr p" "pksm_message p = m"
      using pre_key_signal_message_create_total [OF m(2)] by blast
    have "session_cipher_encrypt_state context s pt = Inr (Encrypted_pre_key p, advance_sender s (chain_next mac ck))"
      using s True base p(1) by (auto simp: simps can_send_def pid_def split: if_splits)
    then show ?thesis
      using sent p(2) by auto
  next
    case False
    then have "session_cipher_encrypt_state context s pt = Inr (Encrypted_signal m, advance_sender s (chain_next mac ck))"
      using s by (simp add: simps can_send_def)
    then show ?thesis
      using sent by auto
  qed
qed

lemma advance_sender_can_send:
  assumes "hmac_spec context mac" "can_send s kp ck us them"
  shows "can_send (advance_sender s (chain_next mac ck)) kp (chain_next mac ck) us them"
  using assms(2) chain_next_fits [OF assms(1) can_send_chain_fits(1) [OF assms(2)]]
  by (auto simp: can_send_def advance_sender_def session_state_ok_def sender_chain_ok_def)

section \<open>Receiving on a known chain\<close>

text \<open>Decryption once the message keys are found.\<close>

definition received :: "session_state \<Rightarrow> session_state" where
  "received s = session_state_clear_unacknowledged_pre_key_message s"

definition can_receive :: "session_state \<Rightarrow> ec_public_key \<Rightarrow> ec_public_key \<Rightarrow> bool" where
  "can_receive s us them \<longleftrightarrow>
     ss_session_version s = 3 \<and> ss_has_sender_chain s \<and>
     ss_local_identity_public s = Some us \<and> ss_remote_identity_public s = Some them"

lemma can_send_receive: "can_send s kp ck us them \<Longrightarrow> can_receive s us them"
  by (simp add: can_send_def can_receive_def)

lemma message_of_fields:
  assumes "message_of context mac e ck us them pt m"
  shows "sm_message_version m = 3" "sm_sender_ratchet_key m = e" "sm_counter m = ck_index ck"
  using assms
  by (auto simp: message_of_def signal_message_create_def Let_def rbind_eq_Inr)

lemma message_of_plaintext:
  assumes "cipher_spec context" "message_of context mac e ck us them pt m"
  shows "session_cipher_get_plaintext context 3 (chain_message_keys mac ck) (sm_ciphertext m) = Inr pt"
proof -
  obtain previous ct where ct: "session_cipher_get_ciphertext context 3 (chain_message_keys mac ck) pt = Inr ct"
    "signal_message_create context 3 (mk_mac_key (chain_message_keys mac ck)) e (ck_index ck) previous ct
       (Some us) (Some them) = Inr m"
    using assms(2) by (auto simp: message_of_def)
  have "sm_ciphertext m = ct"
    using ct(2) by (auto simp: signal_message_create_def Let_def rbind_eq_Inr)
  then show ?thesis
    using get_ciphertext_total [OF assms(1), of "chain_message_keys mac ck" pt] ct(1) by auto
qed

lemma message_of_mac:
  "message_of context mac e ck us them pt m \<Longrightarrow>
    signal_message_verify_mac context m (Some us) (Some them) (mk_mac_key (chain_message_keys mac ck)) = Inr True"
  by (auto simp: message_of_def intro: signal_message_verify_mac_created)

lemma decrypt_from_state_found:
  assumes "cipher_spec context" "can_receive s us them"
    and m: "message_of context mac e ck them us pt m"
    and chain_key: "session_cipher_get_or_create_chain_key context s e w = (Inr (rk, s1), w')"
    and keys: "session_cipher_get_or_create_message_keys context s1 e rk (ck_index ck) =
      Inr (chain_message_keys mac ck, put_receiver_chain s1 e c')"
  shows "session_cipher_decrypt_from_state_and_signal_message context s m w =
    (Inr (pt, received (put_receiver_chain s1 e c')), w')"
proof -
  have s: "ss_session_version s = 3" "ss_has_sender_chain s"
    "ss_local_identity_public s1 = Some us" "ss_remote_identity_public s1 = Some them"
    using assms(2) chain_key_keeps [OF chain_key] by (simp_all add: can_receive_def)
  show ?thesis
    using s keys message_of_fields [OF m] message_of_mac [OF m] message_of_plaintext [OF assms(1) m]
    by (simp add: session_cipher_decrypt_from_state_and_signal_message_def session_getter_defs Let_def
        signal_message_get_message_version_def signal_message_get_sender_ratchet_key_def
        signal_message_get_counter_def signal_message_get_body_def slift_def received_def
        require_def sbind_Inr [of "session_cipher_get_or_create_chain_key context s e", OF chain_key])
qed

section \<open>Messages of one chain in any order\<close>

abbreviation session_window where
  "session_window mac \<equiv> key_window (chain_next mac) (chain_message_keys mac) mk_counter"

text \<open>One message of the window, on a chain that is known or was just created.\<close>

lemma can_receive_put [simp]: "can_receive (put_receiver_chain s e c) us them = can_receive s us them"
  by (simp add: can_receive_def)

lemma can_receive_received [simp]: "can_receive (received s) us them = can_receive s us them"
  by (simp add: can_receive_def received_def session_state_clear_unacknowledged_pre_key_message_def)

lemma find_received [simp]:
  "session_state_find_receiver_chain (received s) e = session_state_find_receiver_chain s e"
  by (simp add: received_def)

lemma decrypt_window:
  assumes specs: "hmac_spec context mac" "cipher_spec context"
    and rk: "hkdf_ok (ck_kdf rk)" "unat (ck_index rk) + n < 2 ^ 32" "n \<le> 2000"
    and s: "can_receive s us them"
    and chain_key: "session_cipher_get_or_create_chain_key context s e w = (Inr (ck, s1), w')"
    and c: "session_state_find_receiver_chain s1 e = Some c" "receiver_chain_key c = Some ck"
      "session_window mac rk D h ck (message_keys c)" "h \<le> n"
    and m: "message_of context mac e ((chain_next mac ^^ i) rk) them us pt m" "i < n" "i \<notin> D"
  obtains s' c' ck' where "session_cipher_decrypt_from_state_and_signal_message context s m w = (Inr (pt, s'), w')"
    "can_receive s' us them" "session_state_find_receiver_chain s' e = Some c'" "receiver_chain_key c' = Some ck'"
    "session_window mac rk (insert i D) (max h (Suc i)) ck' (message_keys c')"
proof -
  have kdf: "hkdf_ok (ck_kdf ck)"
    using c(3) rk(1) by (simp add: key_window_def chain_next_iter)
  obtain ck' mks where fetch: "fetch_session_key mac (ck_index rk + word_of_nat i) ck (message_keys c) =
      Inr (chain_message_keys mac ((chain_next mac ^^ i) rk), ck', mks)"
    and w': "session_window mac rk (insert i D) (max h (Suc i)) ck' mks"
    using session_chain.window_fetch [OF rk(2,3) c(3,4) m(2,3)] by blast
  have "session_cipher_get_or_create_message_keys context s1 e ck (ck_index ((chain_next mac ^^ i) rk)) =
      Inr (chain_message_keys mac ((chain_next mac ^^ i) rk), put_receiver_chain s1 e (fetched_chain c ck' mks))"
    using fetch by (simp add: message_keys_refine [OF specs(1) c(1,2) kdf] chain_next_iter)
  then have "session_cipher_decrypt_from_state_and_signal_message context s m w =
      (Inr (pt, received (put_receiver_chain s1 e (fetched_chain c ck' mks))), w')"
    by (rule decrypt_from_state_found [OF specs(2) s m(1) chain_key])
  moreover have "can_receive s1 us them"
    using s chain_key_keeps [OF chain_key] by (simp add: can_receive_def)
  ultimately show ?thesis
    using that w' chain.get_put [OF c(1)] chain.get_fits [OF c(1)] by simp
qed

lemma known_chain_key:
  assumes "session_state_find_receiver_chain s e = Some c" "receiver_chain_key c = Some rk"
  shows "session_cipher_get_or_create_chain_key context s e w = (Inr (rk, s), w)"
  using assms by (simp add: session_cipher_get_or_create_chain_key_def session_state_get_receiver_chain_key_def)

text \<open>A list of messages encrypted or decrypted one after the other.\<close>

fun encrypt_all ::
  "('h, 'd, 'w) signal_context \<Rightarrow> session_state \<Rightarrow> bytes list \<Rightarrow> (encrypted_message list \<times> session_state) result" where
  "encrypt_all context s [] = Inr ([], s)"
| "encrypt_all context s (pt # pts) =
     rbind (session_cipher_encrypt_state context s pt) (\<lambda>(em, s).
     rbind (encrypt_all context s pts) (\<lambda>(ems, s).
     Inr (em # ems, s)))"

fun decrypt_all ::
  "('h, 'd, 'w) signal_context \<Rightarrow> session_state \<Rightarrow> signal_message list \<Rightarrow> ('w, bytes list \<times> session_state) act" where
  "decrypt_all context s [] = sreturn ([], s)"
| "decrypt_all context s (m # ms) =
     sbind (session_cipher_decrypt_from_state_and_signal_message context s m) (\<lambda>(pt, s).
     sbind (decrypt_all context s ms) (\<lambda>(pts, s).
     sreturn (pt # pts, s)))"

lemma encrypt_all_sends:
  assumes specs: "hmac_spec context mac" "cipher_spec context"
    and "can_send s kp ck us them"
  shows "\<exists>ems s'. encrypt_all context s pts = Inr (ems, s') \<and> length ems = length pts \<and>
    (\<forall>i < length pts. message_of context mac (public_key kp) ((chain_next mac ^^ i) ck) us them (pts ! i)
       (carried_message (ems ! i))) \<and>
    can_send s' kp ((chain_next mac ^^ length pts) ck) us them"
  using assms(3)
proof (induction pts arbitrary: s ck)
  case (Cons pt pts)
  obtain em where em: "session_cipher_encrypt_state context s pt = Inr (em, advance_sender s (chain_next mac ck))"
    "message_of context mac (public_key kp) ck us them pt (carried_message em)"
    using encrypt_state_sends [OF specs Cons.prems] by blast
  obtain ems s' where ems: "encrypt_all context (advance_sender s (chain_next mac ck)) pts = Inr (ems, s')"
    "length ems = length pts" "can_send s' kp ((chain_next mac ^^ length pts) (chain_next mac ck)) us them"
    "\<forall>i < length pts. message_of context mac (public_key kp) ((chain_next mac ^^ i) (chain_next mac ck)) us them
       (pts ! i) (carried_message (ems ! i))"
    using Cons.IH [OF advance_sender_can_send [OF specs(1) Cons.prems]] by blast
  have "message_of context mac (public_key kp) ((chain_next mac ^^ i) ck) us them ((pt # pts) ! i)
      (carried_message ((em # ems) ! i))" if "i < Suc (length pts)" for i
    using that em(2) ems(4) by (cases i) (simp_all add: funpow_swap1)
  then show ?case
    using em(1) ems(1-3) by (auto simp: funpow_swap1 intro!: exI [of _ "em # ems"])
qed simp

lemma decrypt_all_window:
  assumes specs: "hmac_spec context mac" "cipher_spec context"
    and rk: "hkdf_ok (ck_kdf rk)" "unat (ck_index rk) + n < 2 ^ 32" "n \<le> 2000"
    and ms: "\<And>i. i < n \<Longrightarrow> message_of context mac e ((chain_next mac ^^ i) rk) them us (pts ! i) (ms ! i)"
    and s: "can_receive s us them" "session_state_find_receiver_chain s e = Some c" "receiver_chain_key c = Some ck"
      "session_window mac rk D h ck (message_keys c)" "h \<le> n"
    and order: "distinct order" "set order \<subseteq> {..<n} - D"
  shows "\<exists>s'. decrypt_all context s (map ((!) ms) order) w = (Inr (map ((!) pts) order, s'), w)"
  using s order
proof (induction order arbitrary: s c ck D h)
  case (Cons i order)
  note chain_key = known_chain_key [OF Cons.prems(2,3)]
  have i: "i < n" "i \<notin> D"
    using Cons.prems(7) by auto
  obtain s' c' ck' where s': "session_cipher_decrypt_from_state_and_signal_message context s (ms ! i) w = (Inr (pts ! i, s'), w)"
    "can_receive s' us them" "session_state_find_receiver_chain s' e = Some c'" "receiver_chain_key c' = Some ck'"
    "session_window mac rk (insert i D) (max h (Suc i)) ck' (message_keys c')"
    by (rule decrypt_window [OF specs rk Cons.prems(1) chain_key Cons.prems(2-5) ms [OF i(1)] i])
  moreover have "max h (Suc i) \<le> n" "set order \<subseteq> {..<n} - insert i D" "distinct order"
    using Cons.prems(5-7) by auto
  ultimately obtain s'' where "decrypt_all context s' (map ((!) ms) order) w = (Inr (map ((!) pts) order, s''), w)"
    using Cons.IH by blast
  then show ?case
    by (auto simp: sbind_Inr [of "session_cipher_decrypt_from_state_and_signal_message context s (ms ! i)", OF s'(1)]
        sbind_Inr)
qed simp

section \<open>Turns of the double ratchet\<close>

text \<open>
  \<open>heard\<close>: the receiver knows the sender's chain and is \<open>g\<close> messages behind. \<open>unheard\<close>:
  the receiver does not know the sender's key yet, but its root key leads to the sender's root
  and chain key, which \<open>g\<close> messages were sent with.
\<close>

definition heard ::
  "(bytes \<Rightarrow> bytes \<Rightarrow> bytes) \<Rightarrow> ec_key_pair \<Rightarrow> ratchet_chain_key \<Rightarrow> session_state \<Rightarrow> nat \<Rightarrow> bool" where
  "heard mac kp ck R g \<longleftrightarrow>
     (\<exists>c rk. session_state_find_receiver_chain R (public_key kp) = Some c \<and> receiver_chain_key c = Some rk \<and>
        ck = (chain_next mac ^^ g) rk \<and> unat (ck_index rk) + g < 2 ^ 32)"

definition unheard ::
  "('h, 'd, 'w) signal_context \<Rightarrow> (bytes \<Rightarrow> bytes \<Rightarrow> bytes) \<Rightarrow> session_state \<Rightarrow> ec_key_pair \<Rightarrow> ratchet_chain_key \<Rightarrow>
     session_state \<Rightarrow> ec_key_pair \<Rightarrow> nat \<Rightarrow> bool" where
  "unheard context mac S kp ck R kpR g \<longleftrightarrow>
     session_state_find_receiver_chain R (public_key kp) = None \<and>
     (\<exists>root rootS ck0. ss_root_key R = Some root \<and> ss_root_key S = Some rootS \<and>
        ratchet_root_key_create_chain context root (Some (public_key kp)) (Some (private_key kpR)) = Inr (rootS, ck0) \<and>
        ck = (chain_next mac ^^ g) ck0 \<and> unat (ck_index ck0) + g < 2 ^ 32)"

lemma kdf_of_iter: "ck = (chain_next mac ^^ g) rk \<Longrightarrow> hkdf_ok (ck_kdf ck) = hkdf_ok (ck_kdf rk)"
  by (simp add: chain_next_iter)

lemma catch_up:
  assumes "hmac_spec context mac" "session_state_find_receiver_chain s (public_key kp) = Some c"
    "receiver_chain_key c = Some rk" "hkdf_ok (ck_kdf rk)"
    and ck: "ck = (chain_next mac ^^ g) rk" "unat (ck_index rk) + g < 2 ^ 32" "g \<le> 2000"
  obtains c' where "session_cipher_get_or_create_message_keys context s (public_key kp) rk (ck_index ck) =
      Inr (chain_message_keys mac ck, put_receiver_chain s (public_key kp) c')"
    "heard mac kp (chain_next mac ck) (received (put_receiver_chain s (public_key kp) c')) 0"
proof -
  let ?e = "public_key kp"
  obtain mks where "fetch_session_key mac (ck_index ck) rk (message_keys c) =
      Inr (chain_message_keys mac ck, chain_next mac ck, mks)"
    using session_chain.fetch_ahead [OF ck(2,3)] by (simp add: ck(1) chain_next_iter)
  then have keys: "session_cipher_get_or_create_message_keys context s ?e rk (ck_index ck) =
      Inr (chain_message_keys mac ck, put_receiver_chain s ?e (fetched_chain c (chain_next mac ck) mks))"
    by (simp add: message_keys_refine [OF assms(1-4)])
  have "session_state_find_receiver_chain (put_receiver_chain s ?e (fetched_chain c (chain_next mac ck) mks)) ?e =
      Some (fetched_chain c (chain_next mac ck) mks)"
    using chain.get_put [OF assms(2)] chain.get_fits [OF assms(2)] by simp
  then have "heard mac kp (chain_next mac ck) (received (put_receiver_chain s ?e (fetched_chain c (chain_next mac ck) mks))) 0"
    by (simp add: heard_def u32_bound)
  then show ?thesis
    by (rule that [OF keys])
qed

lemma decrypt_heard:
  assumes specs: "hmac_spec context mac" "cipher_spec context"
    and s: "can_receive s us them" "heard mac kp ck s g" "g \<le> 2000" "hkdf_ok (ck_kdf ck)"
    and m: "message_of context mac (public_key kp) ck them us pt m"
  obtains c' where "session_cipher_decrypt_from_state_and_signal_message context s m w =
      (Inr (pt, received (put_receiver_chain s (public_key kp) c')), w)"
    "heard mac kp (chain_next mac ck) (received (put_receiver_chain s (public_key kp) c')) 0"
proof -
  let ?e = "public_key kp"
  obtain c rk where c: "session_state_find_receiver_chain s ?e = Some c" "receiver_chain_key c = Some rk"
    and ck: "ck = (chain_next mac ^^ g) rk" "unat (ck_index rk) + g < 2 ^ 32"
    using s(2) by (auto simp: heard_def)
  have kdf: "hkdf_ok (ck_kdf rk)"
    using s(4) kdf_of_iter [OF ck(1)] by simp
  obtain c' where keys: "session_cipher_get_or_create_message_keys context s ?e rk (ck_index ck) =
      Inr (chain_message_keys mac ck, put_receiver_chain s ?e c')"
    and "heard mac kp (chain_next mac ck) (received (put_receiver_chain s ?e c')) 0"
    by (rule catch_up [OF specs(1) c kdf ck s(3)])
  then show ?thesis
    using that decrypt_from_state_found [OF specs(2) s(1) m known_chain_key [OF c] keys] by blast
qed

lemma find_new_chain:
  assumes "session_state_find_receiver_chain s e = None"
  shows "session_state_find_receiver_chain (new_chain_state s e ck kp sent previous) e =
    Some \<lparr>sender_ratchet_key = Some e, receiver_chain_key = Some ck, message_keys = []\<rparr>"
  using find_receiver_chain_added [OF assms, of ck]
  by (simp add: new_chain_state_def session_state_find_receiver_chain_def session_state_add_receiver_chain_def)

lemma unheard_chain_key:
  assumes specs: "hmac_spec context mac" "dh_spec context dh" "random_spec context"
    and s: "can_send s kpR ckR us them" "unheard context mac S kp ck s kpR g" and rootS: "ss_root_key S = Some rootS"
  obtains ck0 kp' root' ck' w' s1 c where
    "session_cipher_get_or_create_chain_key context s (public_key kp) w = (Inr (ck0, s1), w')"
    "s1 = new_chain_state s (public_key kp) ck0 kp' (root', ck') ckR"
    "session_state_find_receiver_chain s1 (public_key kp) = Some c" "receiver_chain_key c = Some ck0" "message_keys c = []"
    "matching_key_pair context kp'"
    "ratchet_root_key_create_chain context rootS (Some (public_key kp)) (Some (private_key kp')) = Inr (root', ck')"
    "ck = (chain_next mac ^^ g) ck0" "ck_index ck0 = 0" "unat (ck_index ck0) + g < 2 ^ 32"
proof -
  let ?e = "public_key kp"
  obtain root ck0 where root: "session_state_find_receiver_chain s ?e = None" "ss_root_key s = Some root"
    "ratchet_root_key_create_chain context root (Some ?e) (Some (private_key kpR)) = Inr (rootS, ck0)"
    and ck: "ck = (chain_next mac ^^ g) ck0" "unat (ck_index ck0) + g < 2 ^ 32"
    using s(2) rootS by (auto simp: unheard_def)
  obtain kp' w' where kp': "curve_generate_key_pair context w = (Inr kp', w')"
    using generate_key_pair_total [OF specs(2,3)] by blast
  have fits: "root_key_fits 3 root"
    using s(1) root(2) by (auto simp: can_send_def session_state_ok_def)
  then have "ck_index ck0 = 0"
    using root(3) create_chain_eq [OF specs(1,2) root_key_fits_ok] by (auto simp: root_next_def Let_def)
  have "hkdf_ok (rk_kdf rootS)"
    using create_chain_fits(1) [OF specs(1,2) fits root(3)] root_key_fits_ok by auto
  then obtain root' ck' where sent:
    "ratchet_root_key_create_chain context rootS (Some ?e) (Some (private_key kp')) = Inr (root', ck')"
    using create_chain_eq [OF specs(1,2)] by (metis prod.exhaust)
  have "session_state_get_receiver_chain_key s ?e = None"
    by (simp add: session_state_get_receiver_chain_key_def root(1))
  then have "session_cipher_get_or_create_chain_key context s ?e w =
      (Inr (ck0, new_chain_state s ?e ck0 kp' (root', ck') ckR), w')"
    using s(1) root(2,3) kp' sent by (subst new_chain_key_iff) (auto simp: can_send_def)
  then show ?thesis
    by (rule that [OF _ refl find_new_chain [OF root(1)] _ _ curve_generate_key_pair_matching [OF kp'] sent ck(1)
          \<open>ck_index ck0 = 0\<close> ck(2)]) simp_all
qed

lemma decrypt_unheard:
  assumes specs: "hmac_spec context mac" "cipher_spec context" "dh_spec context dh" "random_spec context"
    and s: "can_send s kpR ckR us them" "unheard context mac S kp ck s kpR g" "g \<le> 2000" "hkdf_ok (ck_kdf ck)"
    and m: "message_of context mac (public_key kp) ck them us pt m" and rootS: "ss_root_key S = Some rootS"
  obtains s' kp' root' ck' w' where
    "session_cipher_decrypt_from_state_and_signal_message context s m w = (Inr (pt, s'), w')"
    "heard mac kp (chain_next mac ck) s' 0"
    "matching_key_pair context kp'"
    "ratchet_root_key_create_chain context rootS (Some (public_key kp)) (Some (private_key kp')) = Inr (root', ck')"
    "ss_root_key s' = Some root'" "ss_sender_chain s' = \<lparr>sender_ratchet_key_pair = Some kp', sender_chain_key = Some ck'\<rparr>"
    "ss_has_sender_chain s'" "ss_session_version s' = 3" "ss_local_identity_public s' = Some us"
    "ss_remote_identity_public s' = Some them" "\<not> ss_has_pending_pre_key s'"
proof -
  let ?e = "public_key kp"
  obtain ck0 kp' root' ck' w' s1 c where
    chain_key: "session_cipher_get_or_create_chain_key context s ?e w = (Inr (ck0, s1), w')"
    and s1: "s1 = new_chain_state s ?e ck0 kp' (root', ck') ckR"
    and c: "session_state_find_receiver_chain s1 ?e = Some c" "receiver_chain_key c = Some ck0"
    and kp': "matching_key_pair context kp'"
    and sent: "ratchet_root_key_create_chain context rootS (Some ?e) (Some (private_key kp')) = Inr (root', ck')"
    and ck: "ck = (chain_next mac ^^ g) ck0" "unat (ck_index ck0) + g < 2 ^ 32"
    by (rule unheard_chain_key [OF specs(1,3,4) s(1,2) rootS])
  have kdf: "hkdf_ok (ck_kdf ck0)"
    using s(4) kdf_of_iter [OF ck(1)] by simp
  obtain c' where keys: "session_cipher_get_or_create_message_keys context s1 ?e ck0 (ck_index ck) =
      Inr (chain_message_keys mac ck, put_receiver_chain s1 ?e c')"
    and heard: "heard mac kp (chain_next mac ck) (received (put_receiver_chain s1 ?e c')) 0"
    by (rule catch_up [OF specs(1) c kdf ck s(3)])
  show ?thesis
    by (rule that [OF decrypt_from_state_found [OF specs(2) can_send_receive [OF s(1)] m chain_key keys] heard kp' sent])
      (use s(1) in \<open>simp_all add: s1 received_def session_state_clear_unacknowledged_pre_key_message_def
        can_send_def put_receiver_chain_def update_receiver_chain_def new_chain_state_def\<close>)
qed

text \<open>The messages of a chain that the receiver has not heard of, in any order.\<close>

lemma decrypt_all_unheard:
  assumes specs: "hmac_spec context mac" "cipher_spec context" "dh_spec context dh" "random_spec context"
    and s: "can_send s kpR ckR us them" "unheard context mac S kp ck s kpR 0" "ss_root_key S = Some rootS"
      "hkdf_ok (ck_kdf ck)"
    and ms: "\<And>i. i < n \<Longrightarrow> message_of context mac (public_key kp) ((chain_next mac ^^ i) ck) them us (pts ! i) (ms ! i)"
    and order: "n \<le> 2000" "distinct order" "set order \<subseteq> {..<n}"
  shows "\<exists>s' w'. decrypt_all context s (map ((!) ms) order) w = (Inr (map ((!) pts) order, s'), w')"
proof (cases order)
  case (Cons i rest)
  then have i: "i < n" "i \<notin> {}" and rest: "distinct rest" "set rest \<subseteq> {..<n} - insert i {}"
    using order by auto
  obtain w' s1 c where chain_key: "session_cipher_get_or_create_chain_key context s (public_key kp) w = (Inr (ck, s1), w')"
    and c: "session_state_find_receiver_chain s1 (public_key kp) = Some c" "receiver_chain_key c = Some ck"
      "message_keys c = []" and "ck_index ck = 0"
    using unheard_chain_key [OF specs(1,3,4) s(1-3), of w] by (metis funpow_0)
  then have room: "unat (ck_index ck) + n < 2 ^ 32" and window: "session_window mac ck {} 0 ck (message_keys c)"
    using order(1) by (simp_all add: key_window_def)
  obtain s2 c2 ck2 where s2: "session_cipher_decrypt_from_state_and_signal_message context s (ms ! i) w = (Inr (pts ! i, s2), w')"
    "can_receive s2 us them" "session_state_find_receiver_chain s2 (public_key kp) = Some c2" "receiver_chain_key c2 = Some ck2"
    "session_window mac ck (insert i {}) (max 0 (Suc i)) ck2 (message_keys c2)"
    by (rule decrypt_window [OF specs(1,2) s(4) room order(1) can_send_receive [OF s(1)] chain_key c(1,2) window _
          ms [OF i(1)] i]) auto
  obtain s' where "decrypt_all context s2 (map ((!) ms) rest) w' = (Inr (map ((!) pts) rest, s'), w')"
    using decrypt_all_window [OF specs(1,2) s(4) room order(1) ms s2(2-5) _ rest, where w = w'] i by auto
  then show ?thesis
    by (simp add: Cons sbind_Inr [of "session_cipher_decrypt_from_state_and_signal_message context s (ms ! i)", OF s2(1)]
        sbind_Inr)
qed simp

text \<open>
  \<open>leads\<close>: the first party's sending key is new to the second, and the second party's
  sending chain is known to the first.
\<close>

definition leads ::
  "('h, 'd, 'w) signal_context \<Rightarrow> (bytes \<Rightarrow> bytes \<Rightarrow> bytes) \<Rightarrow> session_state \<Rightarrow> session_state \<Rightarrow> nat \<Rightarrow> nat \<Rightarrow> bool" where
  "leads context mac A B ga gb \<longleftrightarrow>
     (\<exists>kpA ckA kpB ckB a b. can_send A kpA ckA a b \<and> can_send B kpB ckB b a \<and>
        matching_key_pair context kpA \<and> matching_key_pair context kpB \<and>
        unheard context mac A kpA ckA B kpB ga \<and> heard mac kpB ckB A gb)"

lemma find_advance [simp]:
  "session_state_find_receiver_chain (advance_sender s ck) e = session_state_find_receiver_chain s e"
  "ss_root_key (advance_sender s ck) = ss_root_key s"
  by (simp_all add: advance_sender_def session_state_find_receiver_chain_def)

lemma heard_advance [simp]: "heard mac kp ck (advance_sender s ck') g = heard mac kp ck s g"
  by (simp add: heard_def)

lemma unheard_advance [simp]:
  "unheard context mac (advance_sender S ck') kp ck R kpR g = unheard context mac S kp ck R kpR g"
  "unheard context mac S kp ck (advance_sender R ck') kpR g = unheard context mac S kp ck R kpR g"
  by (simp_all add: unheard_def)

lemma heard_lost:
  assumes "heard mac kp ck R g" "ck_index ck \<noteq> -1"
  shows "heard mac kp (chain_next mac ck) R (Suc g)"
  using assms by (auto simp: heard_def chain_next_iter intro: room_for_next)

lemma unheard_lost:
  assumes "unheard context mac S kp ck R kpR g" "ck_index ck \<noteq> -1"
  shows "unheard context mac S kp (chain_next mac ck) R kpR (Suc g)"
  using assms by (auto simp: unheard_def chain_next_iter intro: room_for_next)

lemma can_send_received:
  assumes "can_send s kp ck us them" "session_state_ok (received (put_receiver_chain s e c))"
  shows "can_send (received (put_receiver_chain s e c)) kp ck us them"
  using assms
  by (auto simp: can_send_def received_def session_state_clear_unacknowledged_pre_key_message_def)

lemma root_received [simp]: "ss_root_key (received (put_receiver_chain s e c)) = ss_root_key s"
  by (simp add: received_def session_state_clear_unacknowledged_pre_key_message_def)

lemma unheard_received [simp]:
  "unheard context mac (received (put_receiver_chain S e c)) kp ck R kpR g = unheard context mac S kp ck R kpR g"
  by (simp add: unheard_def)

text \<open>The leader sends: the other party answers with a new key, and leads.\<close>

lemma leader_delivers:
  assumes specs: "hmac_spec context mac" "cipher_spec context" "dh_spec context dh" "random_spec context"
    and "leads context mac A B ga gb" "ga \<le> 2000"
  obtains em A' B' w' k where "session_cipher_encrypt_state context A pt = Inr (em, A')"
    "session_cipher_decrypt_from_state_and_signal_message context B (carried_message em) w = (Inr (pt, B'), w')"
    "session_state_find_receiver_chain B (sm_sender_ratchet_key (carried_message em)) = None"
    "session_state_get_sender_ratchet_key B' = Some k"
    "session_state_find_receiver_chain A' k = None \<Longrightarrow> leads context mac B' A' 0 0"
proof -
  obtain kpA ckA kpB ckB a b where A: "can_send A kpA ckA a b" "matching_key_pair context kpA"
    and B: "can_send B kpB ckB b a" "unheard context mac A kpA ckA B kpB ga"
    using assms(5) by (auto simp: leads_def)
  obtain em where em: "session_cipher_encrypt_state context A pt = Inr (em, advance_sender A (chain_next mac ckA))"
    "message_of context mac (public_key kpA) ckA a b pt (carried_message em)"
    using encrypt_state_sends [OF specs(1,2) A(1)] by blast
  obtain rootA where rootA: "ss_root_key A = Some rootA"
    using B(2) by (auto simp: unheard_def)
  obtain B' kp' root' ck' w' where
    dec: "session_cipher_decrypt_from_state_and_signal_message context B (carried_message em) w = (Inr (pt, B'), w')"
    and heard: "heard mac kpA (chain_next mac ckA) B' 0"
    and kp': "matching_key_pair context kp'"
    and sent: "ratchet_root_key_create_chain context rootA (Some (public_key kpA)) (Some (private_key kp')) = Inr (root', ck')"
    and B': "ss_root_key B' = Some root'" "ss_sender_chain B' = \<lparr>sender_ratchet_key_pair = Some kp', sender_chain_key = Some ck'\<rparr>"
      "ss_has_sender_chain B'" "ss_session_version B' = 3" "ss_local_identity_public B' = Some b"
      "ss_remote_identity_public B' = Some a" "\<not> ss_has_pending_pre_key B'"
    by (rule decrypt_unheard [OF specs B assms(6) can_send_chain_fits(3) [OF A(1)] em(2) rootA])
  let ?A' = "advance_sender A (chain_next mac ckA)"
  have "session_state_ok B'"
    using decrypt_from_state_ok [OF specs(1,3,4) _ _ dec] B(1) can_send_chain_fits(2) [OF A(1)]
      message_of_fields(2) [OF em(2)] by (simp add: can_send_def ec_key_pair_ok_def)
  then have "can_send B' kp' ck' b a"
    using B' by (simp add: can_send_def)
  moreover have "unheard context mac B' kp' ck' ?A' kpA 0" if "session_state_find_receiver_chain ?A' (public_key kp') = None"
    using that sent rootA B'(1) create_chain_agree [OF specs(3) A(2) kp'] by (auto simp: unheard_def u32_bound)
  ultimately have "leads context mac B' ?A' 0 0" if "session_state_find_receiver_chain ?A' (public_key kp') = None"
    using that advance_sender_can_send [OF specs(1) A(1)] A(2) kp' heard unfolding leads_def by blast
  moreover have "session_state_get_sender_ratchet_key B' = Some (public_key kp')"
    using B'(2) by (simp add: session_state_get_sender_ratchet_key_def)
  moreover have "session_state_find_receiver_chain B (sm_sender_ratchet_key (carried_message em)) = None"
    using B(2) message_of_fields(2) [OF em(2)] by (simp add: unheard_def)
  ultimately show ?thesis
    by (intro that [OF em(1) dec])
qed

text \<open>The other party sends: the leader still leads.\<close>

lemma follower_delivers:
  assumes specs: "hmac_spec context mac" "cipher_spec context" "dh_spec context dh" "random_spec context"
    and "leads context mac B A gb ga" "ga \<le> 2000"
  obtains em A' B' where "session_cipher_encrypt_state context A pt = Inr (em, A')"
    "session_cipher_decrypt_from_state_and_signal_message context B (carried_message em) w = (Inr (pt, B'), w)"
    "session_state_find_receiver_chain B (sm_sender_ratchet_key (carried_message em)) \<noteq> None"
    "leads context mac B' A' gb 0"
proof -
  obtain kpA ckA kpB ckB a b where A: "can_send A kpA ckA a b" "matching_key_pair context kpA"
    and B: "can_send B kpB ckB b a" "matching_key_pair context kpB" "unheard context mac B kpB ckB A kpA gb"
      "heard mac kpA ckA B ga"
    using assms(5) by (auto simp: leads_def)
  obtain em where em: "session_cipher_encrypt_state context A pt = Inr (em, advance_sender A (chain_next mac ckA))"
    "message_of context mac (public_key kpA) ckA a b pt (carried_message em)"
    using encrypt_state_sends [OF specs(1,2) A(1)] by blast
  obtain c where dec: "session_cipher_decrypt_from_state_and_signal_message context B (carried_message em) w =
      (Inr (pt, received (put_receiver_chain B (public_key kpA) c)), w)"
    and heard: "heard mac kpA (chain_next mac ckA) (received (put_receiver_chain B (public_key kpA) c)) 0"
    using decrypt_heard [OF specs(1,2) can_send_receive [OF B(1)] B(4) assms(6) can_send_chain_fits(3) [OF A(1)] em(2)]
    by blast
  let ?A' = "advance_sender A (chain_next mac ckA)" and ?B' = "received (put_receiver_chain B (public_key kpA) c)"
  have "session_state_ok ?B'"
    using decrypt_from_state_ok [OF specs(1,3,4) _ _ dec] B(1) can_send_chain_fits(2) [OF A(1)]
      message_of_fields(2) [OF em(2)] by (simp add: can_send_def ec_key_pair_ok_def)
  then have "leads context mac ?B' ?A' gb 0"
    using can_send_received [OF B(1)] advance_sender_can_send [OF specs(1) A(1)] A(2) B(2,3) heard
    unfolding leads_def by (metis unheard_advance(2) unheard_received)
  moreover have "session_state_find_receiver_chain B (sm_sender_ratchet_key (carried_message em)) \<noteq> None"
    using B(4) message_of_fields(2) [OF em(2)] by (auto simp: heard_def)
  ultimately show ?thesis
    using that em(1) dec by blast
qed

section \<open>Conversations\<close>

text \<open>
  \<open>conversation context A B ga gb\<close>: two sessions that started from a set-up with
  corresponding keys, after messages in both directions that were delivered or lost;
  \<open>ga\<close> and \<open>gb\<close> count the messages of each party that the other has not seen since the last
  one delivered. A party that hears a new key answers with a key pair that its peer
  has not seen.
\<close>

inductive conversation ::
  "('h, 'd, 'w) signal_context \<Rightarrow> session_state \<Rightarrow> session_state \<Rightarrow> nat \<Rightarrow> nat \<Rightarrow> bool" for "context" where
  start: "parameters_correspond context a b \<Longrightarrow> ec_key_pair_ok (bob_our_ratchet_key b) \<Longrightarrow>
    ratcheting_session_alice_initialize context session_state_create a w = (Inr A, w') \<Longrightarrow>
    ratcheting_session_bob_initialize context session_state_create b = Inr B \<Longrightarrow>
    conversation context
      (alice_session A pid sid (public_key (alice_our_base_key a)) ida idb)
      (bob_session B (public_key (alice_our_base_key a)) idc idd) 0 0"
| swap: "conversation context A B ga gb \<Longrightarrow> conversation context B A gb ga"
| lost: "conversation context A B ga gb \<Longrightarrow>
    session_cipher_encrypt_state context A pt = Inr (em, A') \<Longrightarrow> sm_counter (carried_message em) \<noteq> -1 \<Longrightarrow>
    conversation context A' B (Suc ga) gb"
| delivered: "conversation context A B ga gb \<Longrightarrow> ga \<le> 2000 \<Longrightarrow>
    session_cipher_encrypt_state context A pt = Inr (em, A') \<Longrightarrow>
    session_cipher_decrypt_from_state_and_signal_message context B (carried_message em) w = (Inr (pt', B'), w') \<Longrightarrow>
    unknown = (session_state_find_receiver_chain B (sm_sender_ratchet_key (carried_message em)) = None) \<Longrightarrow>
    (unknown \<Longrightarrow> session_state_get_sender_ratchet_key B' = Some k \<and> session_state_find_receiver_chain A' k = None) \<Longrightarrow>
    conversation context A' B' 0 (if unknown then 0 else gb)"

lemma leads_lost:
  assumes specs: "hmac_spec context mac" "cipher_spec context"
    and "session_cipher_encrypt_state context A pt = Inr (em, A')" "sm_counter (carried_message em) \<noteq> -1"
  shows "leads context mac A B ga gb \<Longrightarrow> leads context mac A' B (Suc ga) gb"
    and "leads context mac B A gb ga \<Longrightarrow> leads context mac B A' gb (Suc ga)"
proof -
  have sent: "A' = advance_sender A (chain_next mac ck) \<and> ck_index ck \<noteq> -1" if "can_send A kp ck a b" for kp ck a b
    using encrypt_state_sends [OF specs that, of pt] assms(3,4) by (auto dest: message_of_fields)
  show "leads context mac A B ga gb \<Longrightarrow> leads context mac A' B (Suc ga) gb"
    unfolding leads_def using sent advance_sender_can_send [OF specs(1)]
    by (metis heard_advance unheard_advance(1) unheard_lost)
  show "leads context mac B A gb ga \<Longrightarrow> leads context mac B A' gb (Suc ga)"
    unfolding leads_def using sent advance_sender_can_send [OF specs(1)]
    by (metis unheard_advance(2) heard_lost)
qed

lemma session_fields [simp]:
  "session_state_find_receiver_chain (alice_session s pid sid base i j) e = session_state_find_receiver_chain s e"
  "session_state_find_receiver_chain (bob_session s base i j) e = session_state_find_receiver_chain s e"
  "ss_root_key (alice_session s pid sid base i j) = ss_root_key s"
  "ss_root_key (bob_session s base i j) = ss_root_key s"
  by (simp_all add: alice_session_def bob_session_def session_setter_defs session_state_find_receiver_chain_def)

lemma alice_session_can_send:
  assumes "session_state_ok s" "ec_public_key_ok base" "ss_session_version s = 3" "ss_has_sender_chain s"
    and "ss_sender_chain s = \<lparr>sender_ratchet_key_pair = Some kp, sender_chain_key = Some ck\<rparr>"
    and "ss_local_identity_public s = Some us" "ss_remote_identity_public s = Some them"
  shows "can_send (alice_session s pid sid base i j) kp ck us them"
    and "\<not> ss_has_pending_pre_key s \<Longrightarrow> can_send (bob_session s base i j) kp ck us them"
  using assms
  by (simp_all add: can_send_def alice_session_def bob_session_def session_setters_ok)
    (simp_all add: session_setter_defs)

lemma parameters_public_ok:
  assumes "dh_spec context dh" "parameters_correspond context a b"
  shows "ec_public_key_ok (alice_their_ratchet_key a)" "ec_public_key_ok (alice_their_identity_key a)"
    "ec_public_key_ok (identity_public_key (alice_our_identity_key a))"
    "ec_public_key_ok (public_key (alice_our_base_key a))" "ec_public_key_ok (bob_their_identity_key b)"
    "ec_public_key_ok (identity_public_key (bob_our_identity_key b))"
  using assms(2) matching_key_pair_public(2) [OF assms(1)]
  by (fastforce simp: parameters_correspond_def identity_pair_def)+

lemma setup_states:
  assumes specs: "hmac_spec context mac" "dh_spec context dh" "random_spec context"
    and pars: "parameters_correspond context a b"
    and A: "ratcheting_session_alice_initialize context session_state_create a w = (Inr A, w')"
    and B: "ratcheting_session_bob_initialize context session_state_create b = Inr B"
  obtains sending derived sent where "matching_key_pair context sending"
    "A = alice_state session_state_create a sending (snd derived) sent"
    "B = bob_state session_state_create b derived"
    "ratchet_root_key_create_chain context (fst derived) (Some (public_key sending))
       (Some (private_key (bob_our_ratchet_key b))) = Inr sent"
proof -
  obtain sending w1 where sending: "curve_generate_key_pair context w = (Inr sending, w1)"
    using generate_key_pair_total [OF specs(2,3)] by blast
  define derived where "derived = derived_keys mac (bob_secret dh b)"
  define sent where "sent = root_next mac (fst derived)
    (dh (ec_private_data (private_key sending)) (ec_public_data (alice_their_ratchet_key a)))"
  have "alice_secret dh a = bob_secret dh b"
    by (rule secrets_agree [OF specs(2) pars])
  then have A': "A = alice_state session_state_create a sending (snd derived) sent"
    using alice_initialize_eq [OF specs(1,2) sending, of session_state_create a] A
    by (simp add: Let_def derived_def sent_def)
  have B': "B = bob_state session_state_create b derived"
    using bob_initialize_eq [OF specs(1,2), of session_state_create b] B by (simp add: derived_def)
  have matching: "matching_key_pair context sending" "matching_key_pair context (bob_our_ratchet_key b)"
    "alice_their_ratchet_key a = public_key (bob_our_ratchet_key b)"
    using curve_generate_key_pair_matching [OF sending] pars by (simp_all add: parameters_correspond_def)
  have "hkdf_ok (rk_kdf (fst derived))"
    using derived_keys_fit(1) [OF specs(1)] root_key_fits_ok by (auto simp: derived_def)
  then have "ratchet_root_key_create_chain context (fst derived) (Some (public_key sending))
      (Some (private_key (bob_our_ratchet_key b))) = Inr sent"
    using create_chain_eq [OF specs(1,2)] create_chain_agree [OF specs(2) matching(1,2)]
    by (simp add: sent_def matching(3))
  then show ?thesis
    by (rule that [OF matching(1) A' B'])
qed

lemma leads_start:
  assumes specs: "hmac_spec context mac" "dh_spec context dh" "random_spec context"
    and pars: "parameters_correspond context a b" "ec_key_pair_ok (bob_our_ratchet_key b)"
    and A: "ratcheting_session_alice_initialize context session_state_create a w = (Inr A, w')"
    and B: "ratcheting_session_bob_initialize context session_state_create b = Inr B"
  shows "leads context mac (alice_session A pid sid (public_key (alice_our_base_key a)) ida idb)
    (bob_session B (public_key (alice_our_base_key a)) idc idd) 0 0"
proof -
  note ok = parameters_public_ok [OF specs(2) pars(1)]
  obtain sending derived sent where sending: "matching_key_pair context sending"
    and A': "A = alice_state session_state_create a sending (snd derived) sent"
    and B': "B = bob_state session_state_create b derived"
    and create: "ratchet_root_key_create_chain context (fst derived) (Some (public_key sending))
       (Some (private_key (bob_our_ratchet_key b))) = Inr sent"
    by (rule setup_states [OF specs pars(1) A B])
  have their: "matching_key_pair context (bob_our_ratchet_key b)"
    "alice_their_ratchet_key a = public_key (bob_our_ratchet_key b)"
    "alice_their_identity_key a = identity_public_key (bob_our_identity_key b)"
    "bob_their_identity_key b = identity_public_key (alice_our_identity_key a)"
    using pars(1) by (simp_all add: parameters_correspond_def)
  have fresh: "ss_session_version session_state_create = 3 \<or> ss_receiver_chains session_state_create = []"
    by (simp add: session_state_create_def)
  let ?us = "identity_public_key (alice_our_identity_key a)" and ?them = "identity_public_key (bob_our_identity_key b)"
  let ?base = "public_key (alice_our_base_key a)" and ?kp = "bob_our_ratchet_key b"
  have "can_send (alice_session A pid sid ?base ida idb) sending (snd sent) ?us ?them"
    using alice_initialize_ok [OF specs session_state_create_ok fresh ok(1-3) A]
    by (intro alice_session_can_send(1) ok(4)) (simp_all add: A' alice_state_def their)
  moreover have "can_send (bob_session B ?base idc idd) ?kp (snd derived) ?them ?us"
    using bob_initialize_ok [OF specs(1,2) session_state_create_ok fresh pars(2) ok(5,6) B]
    by (intro alice_session_can_send(2) ok(4)) (simp_all add: B' bob_state_def their session_state_create_def)
  moreover have "session_state_find_receiver_chain A (public_key ?kp) =
      Some \<lparr>sender_ratchet_key = Some (public_key ?kp), receiver_chain_key = Some (snd derived), message_keys = []\<rparr>"
    using find_receiver_chain_added [of session_state_create "public_key ?kp" "snd derived"]
    by (simp add: A' alice_state_def their session_state_find_receiver_chain_def session_state_create_def)
  then have "heard mac ?kp (snd derived) (alice_session A pid sid ?base ida idb) 0"
    by (simp add: heard_def u32_bound)
  moreover have "session_state_find_receiver_chain B (public_key sending) = None"
    by (simp add: B' bob_state_def session_state_find_receiver_chain_def session_state_create_def)
  then have "unheard context mac (alice_session A pid sid ?base ida idb) sending (snd sent)
      (bob_session B ?base idc idd) ?kp 0"
    using create by (simp add: unheard_def A' B' alice_state_def bob_state_def u32_bound)
  ultimately show ?thesis
    unfolding leads_def using sending their(1) by blast
qed

lemma conversation_leads:
  assumes specs: "hmac_spec ctx mac" "cipher_spec ctx" "dh_spec ctx dh" "random_spec ctx"
    and "conversation ctx A B ga gb"
  shows "leads ctx mac A B ga gb \<or> leads ctx mac B A gb ga"
  using assms(5)
proof induction
  case (start a b w A w' B pid sid ida idb idc idd)
  then show ?case
    using leads_start [OF specs(1,3,4)] by blast
next
  case (lost A B ga gb pt em A')
  then show ?case
    using leads_lost [OF specs(1,2)] by blast
next
  case (delivered A B ga gb pt em A' w pt' B' w' unknown k)
  show ?case
  proof (cases "leads ctx mac A B ga gb")
    case True
    show ?thesis
      by (rule leader_delivers [OF specs True delivered.hyps(2), of pt w]) (use delivered.hyps in auto)
  next
    case False
    then have "leads ctx mac B A gb ga"
      using delivered.IH by blast
    then show ?thesis
      by (rule follower_delivers [OF specs _ delivered.hyps(2), of _ _ _ pt w]) (use delivered.hyps in auto)
  qed
qed blast

lemma conversation_delivers:
  assumes specs: "hmac_spec context mac" "cipher_spec context" "dh_spec context dh" "random_spec context"
    and "conversation context A B ga gb" "ga \<le> 2000"
  shows "\<exists>em A' B' w'. session_cipher_encrypt_state context A pt = Inr (em, A') \<and>
    session_cipher_decrypt_from_state_and_signal_message context B (carried_message em) w = (Inr (pt, B'), w')"
  using conversation_leads [OF specs assms(5)]
proof
  assume "leads context mac A B ga gb"
  then show ?thesis
    by (rule leader_delivers [OF specs _ assms(6), of _ _ _ pt w]) blast
next
  assume "leads context mac B A gb ga"
  then show ?thesis
    by (rule follower_delivers [OF specs _ assms(6), of _ _ _ pt w]) blast
qed

text \<open>Messages under a key that the other party has not heard yet, delivered in any order.\<close>

lemma conversation_any_order:
  assumes specs: "hmac_spec context mac" "cipher_spec context" "dh_spec context dh" "random_spec context"
    and "conversation context A B 0 gb"
    and new: "session_state_get_sender_ratchet_key A = Some k" "session_state_find_receiver_chain B k = None"
    and order: "length pts \<le> 2000" "distinct order" "set order \<subseteq> {..<length pts}"
  shows "\<exists>ems A' B' w'. encrypt_all context A pts = Inr (ems, A') \<and>
    decrypt_all context B (map (\<lambda>i. carried_message (ems ! i)) order) w = (Inr (map ((!) pts) order, B'), w')"
proof -
  have "\<not> leads context mac B A gb 0"
    using new by (auto simp: leads_def heard_def can_send_def session_state_get_sender_ratchet_key_def)
  then obtain kpA ckA kpB ckB a b where A: "can_send A kpA ckA a b"
    and B: "can_send B kpB ckB b a" "unheard context mac A kpA ckA B kpB 0"
    using conversation_leads [OF specs assms(5)] by (auto simp: leads_def)
  obtain rootA where rootA: "ss_root_key A = Some rootA"
    using B(2) by (auto simp: unheard_def)
  obtain ems A' where ems: "encrypt_all context A pts = Inr (ems, A')" "length ems = length pts"
    "\<And>i. i < length pts \<Longrightarrow> message_of context mac (public_key kpA) ((chain_next mac ^^ i) ckA) a b (pts ! i)
       (map carried_message ems ! i)"
    using encrypt_all_sends [OF specs(1,2) A, of pts] by auto
  obtain B' w' where "decrypt_all context B (map ((!) (map carried_message ems)) order) w = (Inr (map ((!) pts) order, B'), w')"
    using decrypt_all_unheard [OF specs B rootA can_send_chain_fits(3) [OF A] ems(3) order] by blast
  moreover have "map ((!) (map carried_message ems)) order = map (\<lambda>i. carried_message (ems ! i)) order"
    using order(3) ems(2) by auto
  ultimately show ?thesis
    using ems(1) by auto
qed

end
