(* ===== verification/First_Message.thy ===== *)
theory First_Message
  imports Conversation
begin

text \<open>
  The first message of a session through the interface of the library: the initiator processes
  a bundle of the responder's keys (\<open>session_builder_process_pre_key_bundle\<close>) and encrypts
  (\<open>session_cipher_encrypt\<close>); the responder decrypts the pre-key message that comes out
  (\<open>session_cipher_decrypt_pre_key_signal_message\<close>) with the keys of its store.

  The lemmas: each call succeeds, and the responder reads the plaintext.
\<close>

section \<open>The two stores\<close>

text \<open>
  The responder's store: in worlds that satisfy \<open>P\<close> it has the keys of the bundle, trusts the
  initiator, and answers every call.
\<close>

definition responder_store ::
  "'w signal_protocol_store_context \<Rightarrow> signal_protocol_address \<Rightarrow> ('w \<Rightarrow> bool) \<Rightarrow>
     ratchet_identity_key_pair \<Rightarrow> session_signed_pre_key \<Rightarrow> session_pre_key option \<Rightarrow> bool" where
  "responder_store store address P ik spk otk \<longleftrightarrow>
     (\<forall>w. P w \<longrightarrow>
        (\<exists>w'. signal_protocol_identity_get_key_pair store w = (Inr ik, w') \<and> P w') \<and>
        (\<exists>i w'. signal_protocol_identity_get_local_registration_id store w = (Inr i, w') \<and> P w') \<and>
        (\<exists>w'. signal_protocol_signed_pre_key_load_key store (spk_id spk) w = (Inr spk, w') \<and> P w') \<and>
        (\<forall>k \<in> set_option otk. \<exists>w'. signal_protocol_pre_key_load_key store (pk_id k) w = (Inr k, w') \<and> P w') \<and>
        (\<forall>key. \<exists>n w'. signal_protocol_identity_is_trusted_identity store address (Some key) w = (Inr n, w') \<and>
           n \<noteq> 0 \<and> P w') \<and>
        (\<forall>key. \<exists>n w'. signal_protocol_identity_save_identity store address (Some key) w = (Inr n, w'))) \<and>
     (\<forall>i w. \<exists>n w'. signal_protocol_pre_key_remove_key store i w = (Inr n, w'))"

text \<open>Saving an identity does not change the stored sessions.\<close>

definition sessions_kept :: "'w signal_protocol_store_context \<Rightarrow> bool" where
  "sessions_kept store \<longleftrightarrow>
     (\<forall>address address' key x w w1 n w'.
        load_session_func store address w = (Inr x, w1) \<longrightarrow>
        save_identity store address' key w = (Inr n, w') \<longrightarrow>
        (\<exists>w''. load_session_func store address w' = (Inr x, w'')))"

definition bundle_of ::
  "('h, 'd, 'w) signal_context \<Rightarrow> ratchet_identity_key_pair \<Rightarrow> session_signed_pre_key \<Rightarrow> session_pre_key option \<Rightarrow> session_pre_key_bundle \<Rightarrow> bool" where
  "bundle_of context ik spk otk bundle \<longleftrightarrow>
     bundle_identity_key bundle = Some (identity_public_key ik) \<and>
     bundle_signed_pre_key_public bundle = Some (public_key (spk_key_pair spk)) \<and>
     bundle_signed_pre_key_signature bundle = Some (spk_signature spk) \<and>
     curve_verify_signature context (identity_public_key ik)
       (ec_public_key_serialize_protobuf (public_key (spk_key_pair spk))) (spk_signature spk) = Inr True \<and>
     bundle_signed_pre_key_id bundle = spk_id spk \<and>
     bundle_pre_key_public bundle = map_option (\<lambda>k. public_key (pk_key_pair k)) otk \<and>
     (\<forall>k \<in> set_option otk. bundle_pre_key_id bundle = pk_id k)"

text \<open>Private keys fit their public keys.\<close>

definition keys_match ::
  "('h, 'd, 'w) signal_context \<Rightarrow> ratchet_identity_key_pair \<Rightarrow> session_signed_pre_key \<Rightarrow> session_pre_key option \<Rightarrow> bool" where
  "keys_match context ik spk otk \<longleftrightarrow>
     matching_key_pair context (identity_pair ik) \<and> matching_key_pair context (spk_key_pair spk) \<and>
     pred_option (\<lambda>k. matching_key_pair context (pk_key_pair k)) otk"

lemma session_builder_created [simp]:
  "sb_store (session_builder_create store address) = store"
  "sb_remote_address (session_builder_create store address) = address"
  by (simp_all add: session_builder_create_def)

section \<open>The initiator\<close>

lemma session_load_after_identity:
  assumes "sessions_kept store"
    and "signal_protocol_session_load_session store address w = (Inr r, w1)"
    and "signal_protocol_identity_save_identity store address' key w = (Inr n, w')"
  shows "\<exists>w''. signal_protocol_session_load_session store address w' = (Inr r, w'')"
proof -
  obtain x w2 where x: "load_session_func store address w = (Inr x, w2)"
    using assms(2) by (auto simp: signal_protocol_session_load_session_def sbind_eq_Inr)
  obtain b where "save_identity store address' b w = (Inr n, w')"
    using assms(3) by (auto simp: signal_protocol_identity_save_identity_def ec_public_key_serialize_def split: option.splits)
  then obtain w3 where w3: "load_session_func store address w' = (Inr x, w3)"
    using assms(1) x unfolding sessions_kept_def by blast
  show ?thesis
    using assms(2) x w3
    by (cases x) (auto simp: signal_protocol_session_load_session_def sbind_Inr sbind_eq_Inr split: if_splits)
qed

lemma encrypt_state_pre_key:
  assumes enc: "session_cipher_encrypt_state context s pt = Inr (em, s')"
    and s: "ss_has_pending_pre_key s" "ppk_base_key (ss_pending_pre_key s) = Some base" "ss_session_version s = 3"
      "ss_local_identity_public s = Some us"
  obtains p where "em = Encrypted_pre_key p" "pksm_base_key p = base" "pksm_identity_key p = us"
    "pksm_signed_pre_key_id p = ppk_signed_pre_key_id (ss_pending_pre_key s)"
    "pksm_has_pre_key_id p = ppk_has_pre_key_id (ss_pending_pre_key s)"
    "ppk_has_pre_key_id (ss_pending_pre_key s) \<Longrightarrow> pksm_pre_key_id p = ppk_pre_key_id (ss_pending_pre_key s)"
    "pksm_version p = 3" "pksm_message p = carried_message em"
proof -
  have "\<exists>p pid m. em = Encrypted_pre_key p \<and>
      pre_key_signal_message_create 3 (ss_local_registration_id s) pid (ppk_signed_pre_key_id (ss_pending_pre_key s))
        base us m = Inr p \<and>
      pid = (if ppk_has_pre_key_id (ss_pending_pre_key s) then Some (ppk_pre_key_id (ss_pending_pre_key s)) else None)"
    using enc s
    by (auto simp: session_cipher_encrypt_state_def session_getter_defs require_def Let_def rbind_eq_Inr
        session_state_unacknowledged_pre_key_message_get_pre_key_id_def split: if_splits option.splits)
  then show ?thesis
    using that by (auto simp: pre_key_signal_message_create_def Let_def rbind_eq_Inr split: if_splits)
qed

lemma keys_match_ok:
  assumes "dh_spec context dh" "keys_match context ik spk otk"
  shows "ec_public_key_ok (identity_public_key ik)" "ec_public_key_ok (public_key (spk_key_pair spk))"
  using assms(2) matching_key_pair_public(2) [OF assms(1)]
  by (fastforce simp: keys_match_def identity_pair_def)+

text \<open>The parameters of both sides that go with the bundle.\<close>

definition initiator_parameters where
  "initiator_parameters our_identity our_base ik spk otk =
     \<lparr>alice_our_identity_key = our_identity, alice_our_base_key = our_base,
      alice_their_identity_key = identity_public_key ik, alice_their_signed_pre_key = public_key (spk_key_pair spk),
      alice_their_one_time_pre_key = map_option (\<lambda>k. public_key (pk_key_pair k)) otk,
      alice_their_ratchet_key = public_key (spk_key_pair spk)\<rparr>"

definition responder_parameters where
  "responder_parameters ik spk otk their_identity their_base =
     \<lparr>bob_our_identity_key = ik, bob_our_signed_pre_key = spk_key_pair spk,
      bob_our_one_time_pre_key = map_option pk_key_pair otk, bob_our_ratchet_key = spk_key_pair spk,
      bob_their_identity_key = their_identity, bob_their_base_key = their_base\<rparr>"

lemma parameters_match:
  assumes "keys_match context ik spk otk" "matching_key_pair context (identity_pair our_identity)"
    "matching_key_pair context our_base"
  shows "parameters_correspond context (initiator_parameters our_identity our_base ik spk otk)
    (responder_parameters ik spk otk (identity_public_key our_identity) (public_key our_base))"
  using assms
  by (simp add: keys_match_def parameters_correspond_def initiator_parameters_def responder_parameters_def
      option.pred_map o_def option.map_comp)

lemma initiator_session:
  assumes specs: "hmac_spec context mac" "dh_spec context dh" "random_spec context"
    and store: "session_store_spec store" "sessions_kept store" "initiator_store context store address P oik" "P w"
    and keys: "keys_match context ik spk otk" "bundle_of context ik spk otk bundle"
  obtains w' our_base v A v' r w'' lri where
    "session_builder_process_pre_key_bundle context (session_builder_create store address) bundle w = (Inr (), w')"
    "matching_key_pair context our_base"
    "ratcheting_session_alice_initialize context session_state_create
       (initiator_parameters oik our_base ik spk otk) v = (Inr A, v')"
    "signal_protocol_session_load_session store address w' = (Inr r, w'')" "session_record_ok r"
    "sr_state r = alice_session A (map_option pk_id otk) (spk_id spk) (public_key our_base) lri
       (bundle_registration_id bundle)"
proof -
  let ?builder = "session_builder_create store address"
  have b: "bundle_identity_key bundle = Some (identity_public_key ik)"
    "bundle_signed_pre_key_public bundle = Some (public_key (spk_key_pair spk))"
    "bundle_signed_pre_key_signature bundle = Some (spk_signature spk)"
    "curve_verify_signature context (identity_public_key ik) (ec_public_key_serialize_protobuf (public_key (spk_key_pair spk)))
       (spk_signature spk) = Inr True"
    "bundle_signed_pre_key_id bundle = spk_id spk" "bundle_pre_key_public bundle = map_option (\<lambda>k. public_key (pk_key_pair k)) otk"
    "map_option (\<lambda>_. bundle_pre_key_id bundle) (bundle_pre_key_public bundle) = map_option pk_id otk"
    using keys(2) by (auto simp: bundle_of_def option.map_comp o_def intro!: option.map_cong0)
  note ok = keys_match_ok [OF specs(2) keys(1)]
  have builder: "session_store_spec (sb_store ?builder)"
    "initiator_store context (sb_store ?builder) (sb_remote_address ?builder) P oik"
    using store(1,3) by simp_all
  obtain w' bk v4 A v5 r lri v6 n v7 k where
    proc: "session_builder_process_pre_key_bundle context ?builder bundle w = (Inr (), w')"
    and bk: "matching_key_pair context bk"
    and init: "ratcheting_session_alice_initialize context session_state_create (initiator_parameters oik bk ik spk otk) v4 = (Inr A, v5)"
    and r: "sr_state r = alice_session A (map_option pk_id otk) (spk_id spk) (public_key bk) lri (bundle_registration_id bundle)"
      "session_record_ok r"
    and stored: "signal_protocol_session_store_session store address r v6 = (Inr n, v7)"
      "signal_protocol_identity_save_identity store address (Some (identity_public_key ik)) v7 = (Inr k, w')"
    by (rule bundle_session_ok [OF specs builder store(4) b(1-3) ok b(4)])
      (simp add: initiator_parameters_def b flip: b(6))
  obtain w1 where "signal_protocol_session_load_session store address v7 = (Inr (r\<lparr>sr_is_fresh := False\<rparr>), w1)"
    using session_load_stored [OF store(1) r(2), of address v6] stored(1) by auto
  then obtain w'' where "signal_protocol_session_load_session store address w' = (Inr (r\<lparr>sr_is_fresh := False\<rparr>), w'')"
    using session_load_after_identity [OF store(2)] stored(2) by blast
  then show ?thesis
    by (rule that [OF proc bk init]) (use r in \<open>simp_all add: session_record_ok_def\<close>)
qed

section \<open>The responder\<close>

text \<open>The step of the builder that loads the one-time pre-key, if the message names one.\<close>

abbreviation load_one_time_pre_key where
  "load_one_time_pre_key store m \<equiv>
     (if pre_key_signal_message_has_pre_key_id m then
        sbind (slift (pre_key_signal_message_get_pre_key_id m)) (\<lambda>pre_key_id.
        sbind (signal_protocol_pre_key_load_key store pre_key_id) (\<lambda>k.
        sreturn (Some (session_pre_key_get_key_pair k))))
      else sreturn None)"

definition names_pre_keys where
  "names_pre_keys m spk otk \<longleftrightarrow>
     pksm_signed_pre_key_id m = spk_id spk \<and> pksm_has_pre_key_id m = (otk \<noteq> None) \<and>
     (\<forall>k. otk = Some k \<longrightarrow> pksm_pre_key_id m = pk_id k)"

lemma responder_one_time:
  assumes store: "responder_store store address P ik spk otk" "P w" and m: "names_pre_keys m spk otk"
  obtains w' where "load_one_time_pre_key store m w = (Inr (map_option pk_key_pair otk), w')" "P w'"
proof (cases otk)
  case None
  then show ?thesis
    using that [of w] store(2) m by (simp add: pre_key_signal_message_has_pre_key_id_def names_pre_keys_def)
next
  case (Some k)
  then obtain w' where "signal_protocol_pre_key_load_key store (pk_id k) w = (Inr k, w')" "P w'"
    using store by (auto simp: responder_store_def)
  then show ?thesis
    using that [of w'] Some m
    by (simp add: pre_key_signal_message_has_pre_key_id_def pre_key_signal_message_get_pre_key_id_def sbind_Inr
        session_pre_key_get_key_pair_def names_pre_keys_def)
qed

lemma responder_v3:
  assumes store: "responder_store store address P ik spk otk" "P w"
    and new: "\<not> session_record_has_session_state r (ucast (pksm_version m)) (Some (pksm_base_key m))"
    and m: "names_pre_keys m spk otk"
    and init: "ratcheting_session_bob_initialize context (sr_state (record_for_new_state r))
      (responder_parameters ik spk otk (pksm_identity_key m) (pksm_base_key m)) = Inr B"
  obtains i lri w' where "session_builder_process_pre_key_signal_message_v3 context (session_builder_create store address) r m w =
    (Inr (i, session_record_set_state (record_for_new_state r)
       (bob_session B (pksm_base_key m) lri (pksm_registration_id m))), w')" "P w'"
proof -
  note answers = store(1) [unfolded responder_store_def, THEN conjunct1, rule_format]
  obtain w2 where spk: "signal_protocol_signed_pre_key_load_key store (spk_id spk) w = (Inr spk, w2)" "P w2"
    using answers [OF store(2)] by blast
  obtain w3 where ik: "signal_protocol_identity_get_key_pair store w2 = (Inr ik, w3)" "P w3"
    using answers [OF spk(2)] by blast
  obtain w4 where otk: "load_one_time_pre_key store m w3 = (Inr (map_option pk_key_pair otk), w4)" "P w4"
    by (rule responder_one_time [OF store(1) ik(2) m])
  obtain lri w5 where reg: "signal_protocol_identity_get_local_registration_id store w4 = (Inr lri, w5)" "P w5"
    using answers [OF otk(2)] by blast
  have params: "bob_signal_protocol_parameters_create (Some ik) (Some (spk_key_pair spk)) (map_option pk_key_pair otk)
      (Some (spk_key_pair spk)) (Some (pksm_identity_key m)) (Some (pksm_base_key m)) =
    Inr (responder_parameters ik spk otk (pksm_identity_key m) (pksm_base_key m))"
    by (simp add: bob_signal_protocol_parameters_create_def responder_parameters_def)
  let ?r = "session_record_set_state (record_for_new_state r) (bob_session B (pksm_base_key m) lri (pksm_registration_id m))"
  have "\<exists>i. session_builder_process_pre_key_signal_message_v3 context (session_builder_create store address) r m w =
      (Inr (i, ?r), w5)"
    using new m init params
    unfolding session_builder_process_pre_key_signal_message_v3_def session_builder_created
    by (simp add: Let_def
        pre_key_signal_message_get_identity_key_def pre_key_signal_message_get_base_key_def
        pre_key_signal_message_get_signed_pre_key_id_def pre_key_signal_message_get_registration_id_def
        pre_key_signal_message_get_message_version_def session_signed_pre_key_get_key_pair_def
        session_record_get_state_def names_pre_keys_def
        sbind_Inr [of "signal_protocol_signed_pre_key_load_key store (spk_id spk)", OF spk(1)]
        sbind_Inr [of "signal_protocol_identity_get_key_pair store", OF ik(1)]
        sbind_Inr [of "load_one_time_pre_key store m", OF otk(1)]
        sbind_Inr [of "signal_protocol_identity_get_local_registration_id store", OF reg(1)]
        flip: record_for_new_state_def)
      (simp add: pre_key_signal_message_get_pre_key_id_def pre_key_signal_message_has_pre_key_id_def bob_session_def)
  then show ?thesis
    using that reg(2) by blast
qed

lemma responder_session:
  assumes store: "responder_store store address P ik spk otk" "P w"
    and new: "\<not> session_record_has_session_state r (ucast (pksm_version m)) (Some (pksm_base_key m))"
    and m: "names_pre_keys m spk otk"
    and init: "ratcheting_session_bob_initialize context (sr_state (record_for_new_state r))
      (responder_parameters ik spk otk (pksm_identity_key m) (pksm_base_key m)) = Inr B"
  obtains i lri w' where "session_builder_process_pre_key_signal_message context (session_builder_create store address) r m w =
    (Inr (i, session_record_set_state (record_for_new_state r)
       (bob_session B (pksm_base_key m) lri (pksm_registration_id m))), w')"
proof -
  note answers = store(1) [unfolded responder_store_def, THEN conjunct1, rule_format]
  obtain n w1 where trusted: "signal_protocol_identity_is_trusted_identity store address (Some (pksm_identity_key m)) w = (Inr n, w1)"
    "n \<noteq> 0" "P w1"
    using answers [OF store(2)] by blast
  obtain i lri w2 where v3: "session_builder_process_pre_key_signal_message_v3 context (session_builder_create store address) r m w1 =
    (Inr (i, session_record_set_state (record_for_new_state r)
       (bob_session B (pksm_base_key m) lri (pksm_registration_id m))), w2)" "P w2"
    by (rule responder_v3 [OF store(1) trusted(3) new m init])
  obtain n' w3 where save: "signal_protocol_identity_save_identity store address (Some (pksm_identity_key m)) w2 = (Inr n', w3)"
    using answers [OF v3(2)] by blast
  show ?thesis
    by (rule that [of i lri w3])
      (use trusted(2) v3(1) in \<open>simp add: session_builder_process_pre_key_signal_message_def session_builder_create_def
        Let_def pre_key_signal_message_get_identity_key_def
        sbind_Inr [of "signal_protocol_identity_is_trusted_identity store address (Some (pksm_identity_key m))", OF trusted(1)]
        sbind_Inr [of "signal_protocol_identity_save_identity store address (Some (pksm_identity_key m))", OF save] sbind_Inr\<close>)
qed

section \<open>Delivery\<close>

lemma decrypt_record_current:
  assumes "session_state_ok (sr_state r)"
    and "session_cipher_decrypt_from_state_and_signal_message context (sr_state r) m w = (Inr (pt, s'), w')"
  shows "session_cipher_decrypt_from_record_and_signal_message context r m w =
    (Inr (pt, session_record_set_state r s'), w')"
  using assms
  by (simp add: session_cipher_decrypt_from_record_and_signal_message_def session_record_get_state_def
      session_state_copy_id)

lemma session_cipher_created [simp]:
  "sc_store (session_cipher_create store address) = store"
  "sc_remote_address (session_cipher_create store address) = address"
  "sc_builder (session_cipher_create store address) = session_builder_create store address"
  "\<not> sc_inside_callback (session_cipher_create store address)"
  "sc_decrypt_callback (session_cipher_create store address) = None"
  by (simp_all add: session_cipher_create_def)

text \<open>Loading, encrypting and storing.\<close>

lemma encrypt_through_store:
  assumes "session_store_spec store" "session_record_ok r" "session_state_ok s'"
    and "signal_protocol_session_load_session store address w = (Inr r, w1)"
    and "session_cipher_encrypt_state context (sr_state r) pt = Inr (em, s')"
  shows "\<exists>w'. session_cipher_encrypt context (session_cipher_create store address) pt w = (Inr em, w')"
proof -
  obtain n w' where store: "signal_protocol_session_store_session store address (session_record_set_state r s') w1 = (Inr n, w')"
    using session_load_stored [OF assms(1) set_state_ok [OF assms(2,3)]] by blast
  have "session_cipher_encrypt context (session_cipher_create store address) pt w = (Inr em, w')"
    using assms(5)
    by (simp add: session_cipher_encrypt_def session_record_get_state_def
        sbind_Inr [of "signal_protocol_session_load_session store address", OF assms(4)]
        sbind_Inr [of "signal_protocol_session_store_session store address (session_record_set_state r s')", OF store])
  then show ?thesis
    by blast
qed

text \<open>Loading, starting the session, decrypting, storing, and removing the one-time pre-key.\<close>

lemma decrypt_through_store:
  assumes "session_store_spec store" "\<And>i w. \<exists>n w'. signal_protocol_pre_key_remove_key store i w = (Inr n, w')"
    and load: "signal_protocol_session_load_session store address w = (Inr r0, w1)"
    and proc: "session_builder_process_pre_key_signal_message context (session_builder_create store address) r0 m w1 =
      (Inr (i, r), w2)"
    and dec: "session_cipher_decrypt_from_record_and_signal_message context r (pksm_message m) w2 = (Inr (pt, r'), w3)"
      "session_record_ok r'"
  shows "\<exists>w'. session_cipher_decrypt_pre_key_signal_message context (session_cipher_create store address) m w = (Inr pt, w')"
proof -
  obtain n w4 where store: "signal_protocol_session_store_session store address r' w3 = (Inr n, w4)"
    using session_load_stored [OF assms(1) dec(2)] by blast
  obtain k w5 where remove: "(case i of None \<Rightarrow> sreturn 0
      | Some i \<Rightarrow> signal_protocol_pre_key_remove_key (sc_store (session_cipher_create store address)) i) w4 = (Inr k, w5)"
    using assms(2) [of "the i" w4] by (cases i) (auto simp: session_cipher_create_def)
  have "session_cipher_decrypt_pre_key_signal_message context (session_cipher_create store address) m w = (Inr pt, w5)"
    by (simp add: session_cipher_decrypt_pre_key_signal_message_def session_cipher_decrypt_callback_def
        pre_key_signal_message_get_signal_message_def
        sbind_Inr [of "signal_protocol_session_load_session store address", OF load]
        sbind_Inr [of "session_builder_process_pre_key_signal_message context (session_builder_create store address) r0 m", OF proc]
        sbind_Inr [of "session_cipher_decrypt_from_record_and_signal_message context r (pksm_message m)", OF dec(1)]
        sbind_Inr [of "signal_protocol_session_store_session store address r'", OF store]
        sbind_Inr [of "case i of None \<Rightarrow> sreturn 0
          | Some i \<Rightarrow> signal_protocol_pre_key_remove_key (sc_store (session_cipher_create store address)) i", OF remove])
  then show ?thesis
    by blast
qed

lemma leads_ok:
  assumes "hmac_spec context mac" "cipher_spec context" "leads context mac A B ga gb"
  shows "session_state_ok A" "session_state_ok B"
    and "session_cipher_encrypt_state context A pt = Inr (em, A') \<Longrightarrow> session_state_ok A'"
    and "session_cipher_encrypt_state context A pt = Inr (em, A') \<Longrightarrow>
      ec_public_key_ok (sm_sender_ratchet_key (carried_message em))"
proof -
  obtain kp ck kp' ck' a b where A: "can_send A kp ck a b" and B: "can_send B kp' ck' b a"
    using assms(3) by (auto simp: leads_def)
  show "session_state_ok A" "session_state_ok B"
    using A B by (simp_all add: can_send_def)
  show "session_state_ok A'" if "session_cipher_encrypt_state context A pt = Inr (em, A')"
    using that encrypt_state_sends [OF assms(1,2) A, of pt] advance_sender_can_send [OF assms(1) A]
    by (auto simp: can_send_def)
  show "ec_public_key_ok (sm_sender_ratchet_key (carried_message em))"
    if "session_cipher_encrypt_state context A pt = Inr (em, A')"
    using that encrypt_state_sends [OF assms(1,2) A, of pt] can_send_chain_fits(2) [OF A]
    by (auto simp: message_of_fields(2) ec_key_pair_ok_def)
qed

lemma initiator_message:
  assumes enc: "session_cipher_encrypt_state context (alice_session A (map_option pk_id otk) (spk_id spk) base i j) pt = Inr (em, s')"
    and A: "ss_local_identity_public A = Some us" "ss_session_version A = 3"
  obtains p where "em = Encrypted_pre_key p" "pksm_base_key p = base" "pksm_identity_key p = us"
    "names_pre_keys p spk otk" "pksm_message p = carried_message em"
proof -
  let ?s = "alice_session A (map_option pk_id otk) (spk_id spk) base i j"
  have s: "ss_has_pending_pre_key ?s" "ppk_base_key (ss_pending_pre_key ?s) = Some base" "ss_session_version ?s = 3"
    "ss_local_identity_public ?s = Some us" "ppk_signed_pre_key_id (ss_pending_pre_key ?s) = spk_id spk"
    "ppk_has_pre_key_id (ss_pending_pre_key ?s) = (otk \<noteq> None)"
    "\<And>k. otk = Some k \<Longrightarrow> ppk_pre_key_id (ss_pending_pre_key ?s) = pk_id k"
    using A by (simp_all add: alice_session_def session_setter_defs)
  show ?thesis
    by (rule encrypt_state_pre_key [OF enc s(1-4)]) (use s(5-7) in \<open>auto simp: names_pre_keys_def intro!: that\<close>)
qed

lemma no_session_in_new_record:
  "\<not> session_record_has_session_state (session_record_create None) v (Some k)"
  "record_for_new_state (session_record_create None) = session_record_create None"
  "sr_state (session_record_create None) = session_state_create"
  by (simp_all add: session_record_has_session_state_def session_record_create_def state_is_def session_getter_defs
      session_state_create_def record_for_new_state_def session_record_is_fresh_def)

text \<open>
  The responder, with the keys of the bundle and no session with the initiator, decrypts a
  pre-key message with which the initiator's side of the conversation starts.
\<close>

lemma responder_decrypts:
  assumes specs: "hmac_spec context mac" "cipher_spec context" "dh_spec context dh" "random_spec context"
    and b: "session_store_spec store" "responder_store store address P ik spk otk"
      "load_session_func store address v = (Inr (0, None, None), v1)" "P v1"
    and B: "ratcheting_session_bob_initialize context session_state_create
      (responder_parameters ik spk otk (pksm_identity_key p) (pksm_base_key p)) = Inr B"
    and p: "names_pre_keys p spk otk" "pksm_message p = carried_message em"
    and lead: "\<And>i j. leads context mac A (bob_session B (pksm_base_key p) i j) 0 0"
    and conv: "\<And>i j. conversation context A (bob_session B (pksm_base_key p) i j) 0 0"
    and em: "session_cipher_encrypt_state context A pt = Inr (em, A')"
  shows "\<exists>v2. session_cipher_decrypt_pre_key_signal_message context (session_cipher_create store address) p v = (Inr pt, v2)"
proof -
  let ?r0 = "session_record_create None"
  have "signal_protocol_session_load_session store address v = (Inr ?r0, v1)"
    using b(3) by (simp add: signal_protocol_session_load_session_def sbind_Inr)
  moreover obtain i k v2 where v2: "session_builder_process_pre_key_signal_message context (session_builder_create store address) ?r0 p v1 =
      (Inr (i, session_record_set_state ?r0 (bob_session B (pksm_base_key p) k (pksm_registration_id p))), v2)"
    using responder_session [OF b(2,4) _ p(1), of ?r0 "context" B] B by (auto simp: no_session_in_new_record)
  let ?r = "session_record_set_state ?r0 (bob_session B (pksm_base_key p) k (pksm_registration_id p))"
  obtain B' v3 where "session_cipher_decrypt_from_state_and_signal_message context (sr_state ?r) (carried_message em) v2 = (Inr (pt, B'), v3)"
    using conversation_delivers [OF specs conv [of k "pksm_registration_id p"], where w = v2 and pt = pt] em
    by (auto simp: session_record_set_state_def)
  then have dec: "session_cipher_decrypt_from_record_and_signal_message context ?r (pksm_message p) v2 =
      (Inr (pt, session_record_set_state ?r B'), v3)"
    using leads_ok(2) [OF specs(1,2) lead] by (simp add: p(2) decrypt_record_current session_record_set_state_def)
  moreover have "session_record_ok ?r"
    using leads_ok(2) [OF specs(1,2) lead] session_record_create_ok [of None] by (intro set_state_ok) simp_all
  then have "session_record_ok (session_record_set_state ?r B')"
    using decrypt_from_record_ok [OF specs(1,3,4) _ _ dec] leads_ok(4) [OF specs(1,2) lead em] by (simp add: p(2))
  ultimately show ?thesis
    using v2 b(2) by (intro decrypt_through_store [OF b(1)]) (auto simp: responder_store_def)
qed

text \<open>
  An initiator that has processed a bundle encrypts a message; a responder that has the keys of
  the bundle and no session with the initiator decrypts it.
\<close>

lemma first_message_delivered:
  assumes specs: "hmac_spec context mac" "cipher_spec context" "dh_spec context dh" "random_spec context"
    and a: "session_store_spec store_a" "sessions_kept store_a" "initiator_store context store_a address_b Q oi" "Q w"
      "matching_key_pair context (identity_pair oi)"
    and keys: "keys_match context ik spk otk" "ec_key_pair_ok (spk_key_pair spk)" "bundle_of context ik spk otk bundle"
    and b: "session_store_spec store_b" "responder_store store_b address_a P ik spk otk"
      "load_session_func store_b address_a v = (Inr (0, None, None), v1)" "P v1"
  shows "\<exists>w1 m w2 v2.
    session_builder_process_pre_key_bundle context (session_builder_create store_a address_b) bundle w = (Inr (), w1) \<and>
    session_cipher_encrypt context (session_cipher_create store_a address_b) pt w1 = (Inr (Encrypted_pre_key m), w2) \<and>
    session_cipher_decrypt_pre_key_signal_message context (session_cipher_create store_b address_a) m v = (Inr pt, v2)"
proof -
  obtain w1 ob x A x' r w'' lri where
    proc: "session_builder_process_pre_key_bundle context (session_builder_create store_a address_b) bundle w = (Inr (), w1)"
    and ob: "matching_key_pair context ob"
    and A: "ratcheting_session_alice_initialize context session_state_create (initiator_parameters oi ob ik spk otk) x = (Inr A, x')"
    and load: "signal_protocol_session_load_session store_a address_b w1 = (Inr r, w'')" "session_record_ok r"
    and r: "sr_state r = alice_session A (map_option pk_id otk) (spk_id spk) (public_key ob) lri (bundle_registration_id bundle)"
    by (rule initiator_session [OF specs(1,3,4) a(1-4) keys(1,3)])
  let ?a = "initiator_parameters oi ob ik spk otk"
    and ?b = "responder_parameters ik spk otk (identity_public_key oi) (public_key ob)"
  have pars: "parameters_correspond context ?a ?b"
    by (rule parameters_match [OF keys(1) a(5) ob])
  obtain B where B: "ratcheting_session_bob_initialize context session_state_create ?b = Inr B"
    using bob_initialize_eq [OF specs(1,3)] by blast
  have conv: "conversation context (sr_state r) (bob_session B (public_key ob) i j) 0 0" for i j
    using conversation.start [OF pars _ A B] keys(2) by (simp add: r responder_parameters_def initiator_parameters_def)
  have lead: "leads context mac (sr_state r) (bob_session B (public_key ob) i j) 0 0" for i j
    using leads_start [OF specs(1,3,4) pars _ A B] keys(2) by (simp add: r responder_parameters_def initiator_parameters_def)
  obtain em s' where em: "session_cipher_encrypt_state context (sr_state r) pt = Inr (em, s')"
    using conversation_delivers [OF specs conv] by blast
  have "\<exists>sending receiving sent. A = alice_state session_state_create ?a sending receiving sent"
    by (rule setup_states [OF specs(1,3,4) pars A B]) blast
  then have "ss_local_identity_public A = Some (identity_public_key oi)" "ss_session_version A = 3"
    by (auto simp: alice_state_def initiator_parameters_def)
  then obtain p where p: "em = Encrypted_pre_key p" "pksm_base_key p = public_key ob" "pksm_identity_key p = identity_public_key oi"
    "names_pre_keys p spk otk" "pksm_message p = carried_message em"
    by (rule initiator_message [OF em [unfolded r]])
  have "\<exists>w2. session_cipher_encrypt context (session_cipher_create store_a address_b) pt w1 = (Inr em, w2)"
    using encrypt_through_store [OF a(1) load(2) leads_ok(3) [OF specs(1,2) lead em] load(1) em] .
  moreover have "\<exists>v2. session_cipher_decrypt_pre_key_signal_message context (session_cipher_create store_b address_a) p v = (Inr pt, v2)"
    by (rule responder_decrypts [OF specs b _ p(4,5) _ _ em, unfolded p(2,3), OF B lead conv])
  ultimately show ?thesis
    using proc p(1) by auto
qed

end
