(* ===== verification/Group_Cipher.thy ===== *)
theory Group_Cipher
  imports Store Protocol
begin

text \<open>
  \<open>group_cipher.c\<close>: encryption and decryption of group messages with a sender key. The parts
  between loading the record and storing it are \<open>group_cipher_encrypt_record\<close> and
  \<open>group_cipher_decrypt_record\<close>.

  The lemmas: the loop over skipped messages ends; finding a message key refines
  \<open>fetch_key\<close>; messages of a sender key are decrypted in every order; none is decrypted
  twice; messages with a bad signature are refused; the record invariant is kept.
\<close>

record 'w group_cipher =
  gc_store :: "'w signal_protocol_store_context"
  gc_sender_key_id :: signal_protocol_sender_key_name
  gc_decrypt_callback :: "(bytes \<Rightarrow> ('w, int) act) option"
  gc_inside_callback :: bool

definition group_cipher_create ::
  "'w signal_protocol_store_context \<Rightarrow> signal_protocol_sender_key_name \<Rightarrow> 'w group_cipher" where
  "group_cipher_create store sender_key_id =
     \<lparr>gc_store = store, gc_sender_key_id = sender_key_id, gc_decrypt_callback = None,
      gc_inside_callback = False\<rparr>"

definition group_cipher_set_decryption_callback ::
  "'w group_cipher \<Rightarrow> (bytes \<Rightarrow> ('w, int) act) option \<Rightarrow> 'w group_cipher" where
  "group_cipher_set_decryption_callback cipher callback = cipher\<lparr>gc_decrypt_callback := callback\<rparr>"

text \<open>The error code of a failed call, as it is translated before returning.\<close>

definition with_error :: "(sg_error \<Rightarrow> sg_error) \<Rightarrow> ('w, 'a) act \<Rightarrow> ('w, 'a) act" where
  "with_error f m w = (case m w of (Inl e, w') \<Rightarrow> (Inl (f e), w') | (Inr x, w') \<Rightarrow> (Inr x, w'))"

section \<open>Encryption\<close>

definition group_cipher_encrypt_record ::
  "('h, 'd, 'w) signal_context \<Rightarrow> sender_key_record \<Rightarrow> bytes \<Rightarrow>
     ('w, sender_key_message \<times> sender_key_record) act" where
  "group_cipher_encrypt_record context r padded_plaintext =
     sbind (slift (sender_key_record_get_sender_key_state r)) (\<lambda>state.
     case sender_key_state_get_signing_key_private state of
       None \<Rightarrow> sfail SG_ERR_INVALID_KEY
     | Some signing_key_private \<Rightarrow>
         sbind (slift (sender_chain_key_create_message_key context (sender_key_state_get_chain_key state)))
           (\<lambda>sender_key.
         sbind (slift (signal_encrypt context SG_CIPHER_AES_CBC_PKCS5 (sender_message_key_get_cipher_key sender_key)
                  (sender_message_key_get_iv sender_key) padded_plaintext)) (\<lambda>ciphertext.
         sbind (sender_key_message_create context (sender_key_state_get_key_id state)
                  (sender_message_key_get_iteration sender_key) ciphertext signing_key_private)
           (\<lambda>result_message.
         sbind (slift (sender_chain_key_create_next context (sender_key_state_get_chain_key state)))
           (\<lambda>next_chain_key.
         sreturn (result_message,
           sender_key_record_put_state r (sender_key_state_set_chain_key state next_chain_key)))))))"

definition group_cipher_encrypt ::
  "('h, 'd, 'w) signal_context \<Rightarrow> 'w group_cipher \<Rightarrow> bytes \<Rightarrow> ('w, sender_key_message) act" where
  "group_cipher_encrypt context cipher padded_plaintext =
     with_error (\<lambda>e. if e = SG_ERR_INVALID_KEY_ID then SG_ERR_NO_SESSION else e)
       (if gc_inside_callback cipher then sfail SG_ERR_INVAL
        else
          sbind (signal_protocol_sender_key_load_key context (gc_store cipher) (gc_sender_key_id cipher)) (\<lambda>r.
          sbind (group_cipher_encrypt_record context r padded_plaintext) (\<lambda>(result_message, r).
          sbind (signal_protocol_sender_key_store_key (gc_store cipher) (gc_sender_key_id cipher) r) (\<lambda>_.
          sreturn result_message))))"

section \<open>Decryption\<close>

lemma sender_create_next_iteration:
  "sender_chain_key_create_next context ck = Inr nxt \<Longrightarrow> sck_iteration nxt = sck_iteration ck + 1"
  by (auto simp: sender_chain_key_create_next_def sender_chain_key_create_def rbind_eq_Inr)

lemma group_skip_decreases:
  assumes "sck_iteration ck < iteration" "sender_chain_key_create_next context ck = Inr nxt"
  shows "unat iteration - unat (sck_iteration nxt) < unat iteration - unat (sck_iteration ck)"
  using assms(1) unat_add_1 [OF assms(1)]
  by (simp add: sender_create_next_iteration [OF assms(2)] word_less_nat_alt)

text \<open>The loop that stores the keys of the messages before \<open>iteration\<close>.\<close>

function group_skip_message_keys ::
  "('h, 'd, 'w) signal_context \<Rightarrow> u32 \<Rightarrow> sender_key_state \<Rightarrow> sender_chain_key \<Rightarrow>
     (sender_key_state \<times> sender_chain_key) result" where
  "group_skip_message_keys context iteration state chain_key =
     (if sender_chain_key_get_iteration chain_key < iteration then
        rbind (sender_chain_key_create_message_key context chain_key) (\<lambda>message_key.
        rbind (sender_chain_key_create_next context chain_key) (\<lambda>next_chain_key.
        group_skip_message_keys context iteration
          (sender_key_state_add_sender_message_key state message_key) next_chain_key))
      else Inr (state, chain_key))"
  by pat_completeness auto
termination
  by (relation "measure (\<lambda>(context, iteration, s, ck). unat iteration - unat (sck_iteration ck))")
    (auto simp: sender_chain_key_get_iteration_def intro: group_skip_decreases)

declare group_skip_message_keys.simps [simp del]

definition group_cipher_get_sender_key ::
  "('h, 'd, 'w) signal_context \<Rightarrow> sender_key_state \<Rightarrow> u32 \<Rightarrow> (sender_message_key \<times> sender_key_state) result" where
  "group_cipher_get_sender_key context state iteration =
     (let chain_key = sender_key_state_get_chain_key state in
      if sender_chain_key_get_iteration chain_key > iteration then
        if sender_key_state_has_sender_message_key state iteration then
          (case sender_key_state_remove_sender_message_key state iteration of
             (Some result_key, state) \<Rightarrow> Inr (result_key, state)
           | (None, state) \<Rightarrow> Inl SG_ERR_UNKNOWN)
        else Inl SG_ERR_DUPLICATE_MESSAGE
      else if iteration - sender_chain_key_get_iteration chain_key > 2000 then Inl SG_ERR_INVALID_MESSAGE
      else
        rbind (group_skip_message_keys context iteration state chain_key) (\<lambda>(state, chain_key).
        rbind (sender_chain_key_create_next context chain_key) (\<lambda>next_chain_key.
        let state = sender_key_state_set_chain_key state next_chain_key in
        rbind (sender_chain_key_create_message_key context chain_key) (\<lambda>result_key.
        Inr (result_key, state)))))"

definition group_cipher_decrypt_record ::
  "('h, 'd, 'w) signal_context \<Rightarrow> sender_key_record \<Rightarrow> sender_key_message \<Rightarrow>
     (bytes \<times> sender_key_record) result" where
  "group_cipher_decrypt_record context r ciphertext =
     (if sender_key_record_is_empty r then Inl SG_ERR_NO_SESSION
      else
        rbind (sender_key_record_get_sender_key_state_by_id r (sender_key_message_get_key_id ciphertext)) (\<lambda>state.
        rbind (sender_key_message_verify_signature context ciphertext
                 (sender_key_state_get_signing_key_public state)) (\<lambda>_.
        rbind (group_cipher_get_sender_key context state (sender_key_message_get_iteration ciphertext))
          (\<lambda>(sender_key, state).
        rbind (signal_decrypt context SG_CIPHER_AES_CBC_PKCS5 (sender_message_key_get_cipher_key sender_key)
                 (sender_message_key_get_iv sender_key) (sender_key_message_get_ciphertext ciphertext)) (\<lambda>result_buf.
        Inr (result_buf, sender_key_record_put_state r state))))))"

definition group_cipher_decrypt_callback :: "'w group_cipher \<Rightarrow> bytes \<Rightarrow> ('w, int) act" where
  "group_cipher_decrypt_callback cipher plaintext =
     (case gc_decrypt_callback cipher of
        None \<Rightarrow> sreturn 0
      | Some callback \<Rightarrow> callback plaintext)"

definition group_cipher_decrypt ::
  "('h, 'd, 'w) signal_context \<Rightarrow> 'w group_cipher \<Rightarrow> sender_key_message \<Rightarrow> ('w, bytes) act" where
  "group_cipher_decrypt context cipher ciphertext =
     with_error (\<lambda>e. if e = SG_ERR_INVALID_KEY \<or> e = SG_ERR_INVALID_KEY_ID then SG_ERR_INVALID_MESSAGE else e)
       (if gc_inside_callback cipher then sfail SG_ERR_INVAL
        else
          sbind (signal_protocol_sender_key_load_key context (gc_store cipher) (gc_sender_key_id cipher)) (\<lambda>r.
          sbind (slift (group_cipher_decrypt_record context r ciphertext)) (\<lambda>(result_buf, r).
          sbind (group_cipher_decrypt_callback cipher result_buf) (\<lambda>_.
          sbind (signal_protocol_sender_key_store_key (gc_store cipher) (gc_sender_key_id cipher) r) (\<lambda>_.
          sreturn result_buf)))))"

section \<open>Finding the key of a message\<close>

lemma group_skip_message_keys_eq:
  assumes "hmac_spec ctx mac" "unat (sck_iteration ck) + n < 2 ^ 32"
  shows "group_skip_message_keys ctx (sck_iteration ck + word_of_nat n) s ck =
    Inr (s\<lparr>sks_message_keys := foldl sender_message_keys_append (sks_message_keys s)
           (map (\<lambda>i. sender_message_keys mac ((sender_chain_next mac ^^ i) ck)) [0..<n])\<rparr>,
         (sender_chain_next mac ^^ n) ck)"
  using assms(2)
proof (induction n arbitrary: s ck)
  case 0
  then show ?case
    by (subst group_skip_message_keys.simps) (simp add: sender_chain_key_get_iteration_def)
next
  case (Suc n)
  let ?next = "sender_chain_next mac ck"
  have less: "sck_iteration ck < sck_iteration ck + word_of_nat (Suc n)"
    using index_add_less [OF Suc.prems] by (simp add: word_less_nat_alt)
  have room: "unat (sck_iteration ?next) + n < 2 ^ 32"
    using Suc.prems index_add_less [of "sck_iteration ck" 1] by (simp add: sender_chain_next_def)
  have index: "sck_iteration ck + word_of_nat (Suc n) = sck_iteration ?next + word_of_nat n"
    by (simp add: sender_chain_next_def)
  have upt: "[0..<Suc n] = 0 # map Suc [0..<n]"
    by (simp add: map_Suc_upt upt_conv_Cons del: upt_Suc)
  have "group_skip_message_keys ctx (sck_iteration ck + word_of_nat (Suc n))
      (sender_key_state_add_sender_message_key s (sender_message_keys mac ck)) ?next =
    Inr (s\<lparr>sks_message_keys := foldl sender_message_keys_append (sks_message_keys s)
           (map (\<lambda>i. sender_message_keys mac ((sender_chain_next mac ^^ i) ck)) [0..<Suc n])\<rparr>,
         (sender_chain_next mac ^^ Suc n) ck)"
    unfolding index Suc.IH [OF room]
    by (simp add: upt o_def funpow_swap1 sender_key_state_add_sender_message_key_def del: upt_Suc)
  then show ?case
    using less
    by (subst group_skip_message_keys.simps)
      (simp add: create_message_key_eq [OF assms(1)] sender_create_next_eq [OF assms(1)]
        sender_chain_key_get_iteration_def)
qed

abbreviation fetch_sender_key where
  "fetch_sender_key mac \<equiv> fetch_key sck_iteration (sender_chain_next mac) (sender_message_keys mac)
     smk_iteration sender_message_keys_append"

text \<open>\<open>group_cipher_get_sender_key\<close> refines the reference routine.\<close>

lemma group_sender_key_refine:
  assumes mac: "hmac_spec context mac"
  shows "group_cipher_get_sender_key context s n =
    rbind (fetch_sender_key mac n (sks_chain_key s) (sks_message_keys s)) (\<lambda>(k, ck, ks).
    Inr (k, s\<lparr>sks_chain_key := ck, sks_message_keys := ks\<rparr>))"
proof (cases "n < sck_iteration (sks_chain_key s)")
  case True
  have "remove_first (\<lambda>k. smk_iteration k = n) (sks_message_keys s) = None \<longleftrightarrow>
      \<not> list_ex (\<lambda>k. smk_iteration k = n) (sks_message_keys s)"
    by (auto simp: remove_first_None list_ex_iff)
  then show ?thesis
    using True
    by (auto simp: group_cipher_get_sender_key_def fetch_key_def sender_chain_key_get_iteration_def
        sender_key_state_get_chain_key_def sender_key_state_has_sender_message_key_def
        sender_key_state_remove_sender_message_key_def sender_get_iteration_eq split: option.splits)
next
  case False
  let ?ck = "sks_chain_key s"
  define g where "g = unat (n - sck_iteration ?ck)"
  have n: "n = sck_iteration ?ck + word_of_nat g"
    by (simp add: g_def)
  have "unat (sck_iteration ?ck) + g = unat n"
    using False by (simp add: g_def unat_sub word_le_nat_alt not_less)
  then have room: "unat (sck_iteration ?ck) + g < 2 ^ 32"
    by (simp add: u32_bound)
  note skip = group_skip_message_keys_eq [OF mac room, of s, folded n]
  show ?thesis
    using False
    by (simp add: group_cipher_get_sender_key_def fetch_key_def sender_chain_key_get_iteration_def
        sender_key_state_get_chain_key_def skip create_message_key_eq [OF mac] sender_create_next_eq [OF mac]
        sender_key_state_set_chain_key_def Let_def flip: g_def)
qed

lemma group_sender_key_ok:
  assumes "hmac_spec context mac" "sender_key_state_ok mac s"
    and "group_cipher_get_sender_key context s n = Inr (k, s')"
  shows "sender_key_state_ok mac s'"
proof -
  obtain ck ks where f: "fetch_sender_key mac n (sks_chain_key s) (sks_message_keys s) = Inr (k, ck, ks)"
    and s': "s' = s\<lparr>sks_chain_key := ck, sks_message_keys := ks\<rparr>"
    using assms(3) by (auto simp: group_sender_key_refine [OF assms(1)] rbind_eq_Inr)
  have keys: "list_all (\<lambda>k. k = sender_keys_of mac (smk_iteration k) (smk_seed k) \<and> length (smk_seed k) = 32)
      (map (\<lambda>i. sender_message_keys mac ((sender_chain_next mac ^^ i) c)) is)" for c "is"
    using sender_message_keys_ok [OF assms(1)] by (simp add: list_all_iff)
  from f show ?thesis
  proof (cases rule: group_chain.fetch_cases)
    case stored
    then show ?thesis
      using assms(2) remove_first_Some [OF stored(2)] by (auto simp: s' sender_key_state_ok_def list_all_iff)
  next
    case (ahead g)
    let ?new = "map (\<lambda>i. sender_message_keys mac ((sender_chain_next mac ^^ i) (sks_chain_key s))) [0..<g]"
    have len: "length (sks_message_keys s) \<le> MAX_SENDER_MESSAGE_KEYS"
      using assms(2) by (simp add: sender_key_state_ok_def)
    have "ks = drop (length (sks_message_keys s) + length ?new - MAX_SENDER_MESSAGE_KEYS) (sks_message_keys s @ ?new)"
      using smkq.pushes_window [OF len] ahead(6) by simp
    then have "set ks \<subseteq> set (sks_message_keys s) \<union> set ?new" "length ks \<le> MAX_SENDER_MESSAGE_KEYS"
      using set_drop_subset by (fastforce, simp)
    then show ?thesis
      using assms(2) keys [of "sks_chain_key s" "[0..<g]"] ahead(5)
      by (auto simp: s' sender_key_state_ok_def list_all_iff sender_chain_next_def hmac_specD [OF assms(1)])
  qed
qed

section \<open>The record between loading and storing\<close>

lemma group_decrypt_record_steps:
  assumes "group_cipher_decrypt_record context r m = Inr (pt, r')"
  obtains s k s' where "sender_key_record_get_sender_key_state_by_id r (skm_key_id m) = Inr s"
    "sender_key_message_verify_signature context m (sks_signature_public_key s) = Inr ()"
    "group_cipher_get_sender_key context s (skm_iteration m) = Inr (k, s')"
    "r' = sender_key_record_put_state r s'"
proof -
  have "\<exists>s k s'. sender_key_record_get_sender_key_state_by_id r (skm_key_id m) = Inr s \<and>
      sender_key_message_verify_signature context m (sks_signature_public_key s) = Inr () \<and>
      group_cipher_get_sender_key context s (skm_iteration m) = Inr (k, s') \<and>
      r' = sender_key_record_put_state r s'"
    using assms
    by (fastforce simp: group_cipher_decrypt_record_def rbind_eq_Inr sender_key_message_get_key_id_def
        sender_key_message_get_iteration_def sender_key_state_get_signing_key_public_def split: if_splits)
  then show ?thesis
    using that by blast
qed

lemma group_decrypt_record_ok:
  assumes "hmac_spec context mac" "sender_key_record_ok mac r"
    and "group_cipher_decrypt_record context r m = Inr (pt, r')"
  shows "sender_key_record_ok mac r'"
proof -
  obtain s k s' where s: "sender_key_record_get_sender_key_state_by_id r (skm_key_id m) = Inr s"
    and key: "group_cipher_get_sender_key context s (skm_iteration m) = Inr (k, s')"
    and r': "r' = sender_key_record_put_state r s'"
    by (rule group_decrypt_record_steps [OF assms(3)])
  have "sender_key_state_ok mac s'"
    using group_sender_key_ok [OF assms(1) _ key] state_by_id_ok(1) [OF assms(2) s] .
  then show ?thesis
    using put_state_ok [OF assms(2)] by (simp add: r')
qed

text \<open>A message that no key of the record signed is refused, and so is one for an unknown key.\<close>

lemma group_decrypt_record_forged:
  assumes "sender_key_record_get_sender_key_state_by_id r (skm_key_id m) = Inr s"
    and "sender_key_message_verify_signature context m (sks_signature_public_key s) = Inl e"
  shows "group_cipher_decrypt_record context r m = Inl e"
proof -
  have "\<not> sender_key_record_is_empty r"
    using assms(1) by (auto simp: sender_key_record_is_empty_def state_by_id_Inr)
  then show ?thesis
    using assms by (simp add: group_cipher_decrypt_record_def sender_key_message_get_key_id_def
        sender_key_state_get_signing_key_public_def)
qed

definition group_counters_ok :: "sender_key_record \<Rightarrow> bool" where
  "group_counters_ok r \<longleftrightarrow>
     list_all (\<lambda>s. counters_ok sck_iteration smk_iteration (sks_chain_key s) (sks_message_keys s))
       (skr_sender_key_states r)"

lemma group_sender_key_id:
  assumes "hmac_spec context mac" "group_cipher_get_sender_key context s n = Inr (k, s')"
  shows "sks_key_id s' = sks_key_id s" "sks_signature_public_key s' = sks_signature_public_key s"
proof -
  obtain ck ks where "s' = s\<lparr>sks_chain_key := ck, sks_message_keys := ks\<rparr>"
    using assms(2) by (auto simp: group_sender_key_refine [OF assms(1)] rbind_eq_Inr)
  then show "sks_key_id s' = sks_key_id s" "sks_signature_public_key s' = sks_signature_public_key s"
    by simp_all
qed

lemma group_decrypt_record_counters:
  assumes mac: "hmac_spec context mac" and r: "group_counters_ok r" "skm_iteration m \<noteq> -1"
    and dec: "group_cipher_decrypt_record context r m = Inr (pt, r')"
  obtains s where "group_counters_ok r'"
    "sender_key_record_get_sender_key_state_by_id r' (skm_key_id m) = Inr s"
    "skm_iteration m < sck_iteration (sks_chain_key s)"
    "skm_iteration m \<notin> smk_iteration ` set (sks_message_keys s)"
    "sender_key_message_verify_signature context m (sks_signature_public_key s) = Inr ()"
proof -
  obtain s k s' where s: "sender_key_record_get_sender_key_state_by_id r (skm_key_id m) = Inr s"
      "sender_key_message_verify_signature context m (sks_signature_public_key s) = Inr ()"
    and key: "group_cipher_get_sender_key context s (skm_iteration m) = Inr (k, s')"
    and r': "r' = sender_key_record_put_state r s'"
    by (rule group_decrypt_record_steps [OF dec])
  have id: "sks_key_id s = skm_key_id m" "s \<in> set (skr_sender_key_states r)"
    using s(1) by (auto simp: state_by_id_Inr dest: find_set)
  obtain ck ks where f: "fetch_sender_key mac (skm_iteration m) (sks_chain_key s) (sks_message_keys s) = Inr (k, ck, ks)"
    and s': "s' = s\<lparr>sks_chain_key := ck, sks_message_keys := ks\<rparr>"
    using key by (auto simp: group_sender_key_refine [OF mac] rbind_eq_Inr)
  have "counters_ok sck_iteration smk_iteration (sks_chain_key s) (sks_message_keys s)"
    using r(1) id(2) by (auto simp: group_counters_ok_def list_all_iff)
  note used = group_chain.fetch_counters [OF this r(2) f]
  have "group_counters_ok r'"
    using r(1) used(1) unfolding r' group_counters_ok_def sender_key_record_put_state_def
    by (simp add: update_first_list_all s')
  moreover have "sender_key_record_get_sender_key_state_by_id r' (skm_key_id m) = Inr s'"
    unfolding r' by (rule put_state_found [OF s(1)]) (simp add: s' id)
  ultimately show ?thesis
    using that [of s'] used(2,3) s(2) by (simp add: s')
qed

text \<open>A message that was decrypted is refused when it comes again.\<close>

lemma group_decrypt_record_twice:
  assumes mac: "hmac_spec context mac" and r: "group_counters_ok r" "skm_iteration m \<noteq> -1"
    and dec: "group_cipher_decrypt_record context r m = Inr (pt, r')"
  shows "group_cipher_decrypt_record context r' m = Inl SG_ERR_DUPLICATE_MESSAGE"
proof -
  obtain s where s: "sender_key_record_get_sender_key_state_by_id r' (skm_key_id m) = Inr s"
    "skm_iteration m < sck_iteration (sks_chain_key s)"
    "skm_iteration m \<notin> smk_iteration ` set (sks_message_keys s)"
    "sender_key_message_verify_signature context m (sks_signature_public_key s) = Inr ()"
    by (rule group_decrypt_record_counters [OF assms])
  have "\<not> sender_key_record_is_empty r'"
    using s(1) by (auto simp: sender_key_record_is_empty_def state_by_id_Inr)
  then show ?thesis
    using s by (simp add: group_cipher_decrypt_record_def sender_key_message_get_key_id_def
        sender_key_state_get_signing_key_public_def sender_key_message_get_iteration_def
        group_sender_key_refine [OF mac] group_chain.fetch_used)
qed

section \<open>Messages in every order\<close>

text \<open>
  \<open>m\<close> is the message with plaintext \<open>pt\<close> under the chain value \<open>ck\<close> of sender key \<open>i\<close>, signed
  for \<open>pub\<close>.
\<close>

definition group_message_of ::
  "('h, 'd, 'w) signal_context \<Rightarrow> (bytes \<Rightarrow> bytes \<Rightarrow> bytes) \<Rightarrow> u32 \<Rightarrow> ec_public_key \<Rightarrow> sender_chain_key \<Rightarrow> bytes \<Rightarrow>
     sender_key_message \<Rightarrow> bool" where
  "group_message_of context mac i pub ck pt m \<longleftrightarrow>
     skm_key_id m = i \<and> skm_iteration m = sck_iteration ck \<and>
     sender_key_message_verify_signature context m pub = Inr () \<and>
     signal_decrypt context SG_CIPHER_AES_CBC_PKCS5 (smk_cipher_key (sender_message_keys mac ck))
       (smk_iv (sender_message_keys mac ck)) (skm_ciphertext m) = Inr pt"

definition signs :: "('h, 'd, 'w) signal_context \<Rightarrow> sender_key_state \<Rightarrow> bool" where
  "signs context s \<longleftrightarrow>
     (case sks_signature_private_key s of
        None \<Rightarrow> False
      | Some key \<Rightarrow> curve_generate_public_key context key = Inr (sks_signature_public_key s))"

abbreviation group_window where
  "group_window mac \<equiv> key_window (sender_chain_next mac) (sender_message_keys mac) smk_iteration"

lemma head_put_state:
  assumes "sender_key_record_get_sender_key_state r = Inr s" "sks_key_id s' = sks_key_id s"
  shows "sender_key_record_get_sender_key_state (sender_key_record_put_state r s') = Inr s'"
  using assms
  by (auto simp: sender_key_record_get_sender_key_state_def sender_key_record_put_state_def split: list.splits)

lemma group_encrypt_record_sends:
  assumes specs: "hmac_spec context mac" "cipher_spec context" "signature_spec context" "random_spec context"
    and s: "sender_key_record_get_sender_key_state r = Inr s" "signs context s"
  shows "\<exists>m w'. group_cipher_encrypt_record context r pt w =
      (Inr (m, sender_key_record_put_state r (s\<lparr>sks_chain_key := sender_chain_next mac (sks_chain_key s)\<rparr>)), w') \<and>
    group_message_of context mac (sks_key_id s) (sks_signature_public_key s) (sks_chain_key s) pt m"
proof -
  let ?k = "sender_message_keys mac (sks_chain_key s)"
  obtain key where key: "sks_signature_private_key s = Some key"
    "curve_generate_public_key context key = Inr (sks_signature_public_key s)"
    using s(2) by (auto simp: signs_def split: option.splits)
  obtain ct where ct: "signal_encrypt context SG_CIPHER_AES_CBC_PKCS5 (smk_cipher_key ?k) (smk_iv ?k) pt = Inr ct"
    "signal_decrypt context SG_CIPHER_AES_CBC_PKCS5 (smk_cipher_key ?k) (smk_iv ?k) ct = Inr pt"
    using specs(2) unfolding cipher_spec_def by blast
  obtain m w' where m: "sender_key_message_create context (sks_key_id s) (sck_iteration (sks_chain_key s)) ct key w = (Inr m, w')"
    using sender_key_message_create_total [OF specs(3,4)] by blast
  have verified: "sender_key_message_verify_signature context m (sks_signature_public_key s) = Inr ()"
    by (rule sender_key_message_verify_created [OF specs(3) m key(2)])
  have "group_message_of context mac (sks_key_id s) (sks_signature_public_key s) (sks_chain_key s) pt m"
    by (rule sender_key_message_create_wire [OF m]) (use ct(2) verified in \<open>simp add: group_message_of_def\<close>)
  moreover have "group_cipher_encrypt_record context r pt w =
      (Inr (m, sender_key_record_put_state r (s\<lparr>sks_chain_key := sender_chain_next mac (sks_chain_key s)\<rparr>)), w')"
    using s(1) key(1) ct(1)
    by (simp add: group_cipher_encrypt_record_def sender_key_state_get_signing_key_private_def
        sender_key_state_get_chain_key_def create_message_key_eq [OF specs(1)] sender_create_next_eq [OF specs(1)]
        sender_message_key_get_cipher_key_def sender_message_key_get_iv_def sender_key_state_get_key_id_def
        sender_message_key_get_iteration_def sender_key_state_set_chain_key_def
        sbind_Inr [of "sender_key_message_create context (sks_key_id s) (sck_iteration (sks_chain_key s)) ct key", OF m])
  ultimately show ?thesis
    by blast
qed

lemma group_decrypt_window:
  assumes specs: "hmac_spec context mac"
    and c0: "unat (sck_iteration c0) + n < 2 ^ 32" "n \<le> 2000"
    and s: "sender_key_record_get_sender_key_state_by_id r i = Inr s" "sks_signature_public_key s = pub"
      "group_window mac c0 D h (sks_chain_key s) (sks_message_keys s)" "h \<le> n"
    and m: "group_message_of context mac i pub ((sender_chain_next mac ^^ j) c0) pt m" "j < n" "j \<notin> D"
  obtains r' s' where "group_cipher_decrypt_record context r m = Inr (pt, r')"
    "sender_key_record_get_sender_key_state_by_id r' i = Inr s'" "sks_signature_public_key s' = pub"
    "group_window mac c0 (insert j D) (max h (Suc j)) (sks_chain_key s') (sks_message_keys s')"
proof -
  let ?k = "sender_message_keys mac ((sender_chain_next mac ^^ j) c0)"
  obtain ck ks where f: "fetch_sender_key mac (sck_iteration c0 + word_of_nat j) (sks_chain_key s) (sks_message_keys s) =
      Inr (?k, ck, ks)" and w: "group_window mac c0 (insert j D) (max h (Suc j)) ck ks"
    using group_chain.window_fetch [OF c0 s(3,4) m(2,3)] by blast
  let ?s = "s\<lparr>sks_chain_key := ck, sks_message_keys := ks\<rparr>"
  have key: "group_cipher_get_sender_key context s (skm_iteration m) = Inr (?k, ?s)"
    using m(1) f by (simp add: group_message_of_def group_chain.index_iter group_sender_key_refine [OF specs])
  have "sender_key_record_get_sender_key_state_by_id (sender_key_record_put_state r ?s) i = Inr ?s"
    using s(1) find_set by (intro put_state_found [OF s(1)]) (fastforce simp: state_by_id_Inr)
  moreover have "\<not> sender_key_record_is_empty r"
    using s(1) by (auto simp: sender_key_record_is_empty_def state_by_id_Inr)
  then have "group_cipher_decrypt_record context r m = Inr (pt, sender_key_record_put_state r ?s)"
    using s(1,2) m(1) key
    by (simp add: group_cipher_decrypt_record_def group_message_of_def sender_key_message_get_key_id_def
        sender_key_state_get_signing_key_public_def sender_key_message_get_iteration_def
        sender_message_key_get_cipher_key_def sender_message_key_get_iv_def sender_key_message_get_ciphertext_def)
  ultimately show ?thesis
    using that w s(2) by simp
qed

section \<open>Through the store\<close>

lemma with_error_Inr: "with_error f m w = (Inr x, w') \<longleftrightarrow> m w = (Inr x, w')"
  by (auto simp: with_error_def split: prod.splits sum.splits)

text \<open>In the world \<open>w\<close> the store holds the record \<open>r\<close> for the name.\<close>

definition sender_key_loads ::
  "('h, 'd, 'w) signal_context \<Rightarrow> 'w signal_protocol_store_context \<Rightarrow> signal_protocol_sender_key_name \<Rightarrow>
     sender_key_record \<Rightarrow> 'w \<Rightarrow> bool" where
  "sender_key_loads context store name r w \<longleftrightarrow>
     (\<exists>w'. signal_protocol_sender_key_load_key context store name w = (Inr r, w'))"

lemma sender_key_loads_stored:
  assumes "hmac_spec context mac" "sender_key_store_spec store" "sender_key_record_ok mac r"
    and "signal_protocol_sender_key_store_key store name r w = (Inr n, w')"
  shows "sender_key_loads context store name r w'"
  using sender_key_load_stored [OF assms(1-3), of name w] assms(4) by (auto simp: sender_key_loads_def)

lemma group_encrypt_steps:
  assumes specs: "hmac_spec context mac" "cipher_spec context" "signature_spec context" "random_spec context"
      "sender_key_store_spec (gc_store cipher)"
    and cipher: "\<not> gc_inside_callback cipher"
    and r: "sender_key_loads context (gc_store cipher) (gc_sender_key_id cipher) r w" "sender_key_record_ok mac r"
    and s: "sender_key_record_get_sender_key_state r = Inr s" "signs context s"
  obtains m w' r' s' where "group_cipher_encrypt context cipher pt w = (Inr m, w')"
    "group_message_of context mac (sks_key_id s) (sks_signature_public_key s) (sks_chain_key s) pt m"
    "sender_key_loads context (gc_store cipher) (gc_sender_key_id cipher) r' w'" "sender_key_record_ok mac r'"
    "sender_key_record_get_sender_key_state r' = Inr s'" "signs context s'"
    "s' = s\<lparr>sks_chain_key := sender_chain_next mac (sks_chain_key s)\<rparr>"
proof -
  let ?s = "s\<lparr>sks_chain_key := sender_chain_next mac (sks_chain_key s)\<rparr>"
  let ?r = "sender_key_record_put_state r ?s"
  obtain w1 where load: "signal_protocol_sender_key_load_key context (gc_store cipher) (gc_sender_key_id cipher) w = (Inr r, w1)"
    using r(1) by (auto simp: sender_key_loads_def)
  obtain m w2 where e: "group_cipher_encrypt_record context r pt w1 = (Inr (m, ?r), w2)"
    and sent: "group_message_of context mac (sks_key_id s) (sks_signature_public_key s) (sks_chain_key s) pt m"
    using group_encrypt_record_sends [OF specs(1-4) s] by blast
  have "sender_key_state_ok mac s"
    using s(1) r(2)
    by (auto simp: sender_key_record_get_sender_key_state_def sender_key_record_ok_def split: list.splits)
  then have ok: "sender_key_record_ok mac ?r"
    using put_state_ok [OF r(2)] set_chain_key_ok [OF specs(1)] by (simp add: sender_key_state_set_chain_key_def)
  obtain n w' where store: "signal_protocol_sender_key_store_key (gc_store cipher) (gc_sender_key_id cipher) ?r w2 = (Inr n, w')"
    using sender_key_load_stored [OF specs(1,5) ok] by blast
  have "group_cipher_encrypt context cipher pt w = (Inr m, w')"
    using cipher
    by (simp add: group_cipher_encrypt_def with_error_Inr
        sbind_Inr [of "signal_protocol_sender_key_load_key context (gc_store cipher) (gc_sender_key_id cipher)", OF load]
        sbind_Inr [of "group_cipher_encrypt_record context r pt", OF e]
        sbind_Inr [of "signal_protocol_sender_key_store_key (gc_store cipher) (gc_sender_key_id cipher) ?r", OF store])
  then show ?thesis
    by (rule that [OF _ sent sender_key_loads_stored [OF specs(1,5) ok store] ok head_put_state [OF s(1)]])
      (use s(2) in \<open>simp_all add: signs_def cong: option.case_cong\<close>)
qed

lemma group_decrypt_steps:
  assumes specs: "hmac_spec context mac" "sender_key_store_spec (gc_store cipher)"
    and cipher: "\<not> gc_inside_callback cipher" "gc_decrypt_callback cipher = None"
    and r: "sender_key_loads context (gc_store cipher) (gc_sender_key_id cipher) r w" "sender_key_record_ok mac r"
    and dec: "group_cipher_decrypt_record context r m = Inr (pt, r')"
  shows "\<exists>w'. group_cipher_decrypt context cipher m w = (Inr pt, w') \<and>
    sender_key_loads context (gc_store cipher) (gc_sender_key_id cipher) r' w'"
proof -
  obtain w1 where load: "signal_protocol_sender_key_load_key context (gc_store cipher) (gc_sender_key_id cipher) w = (Inr r, w1)"
    using r(1) by (auto simp: sender_key_loads_def)
  have ok: "sender_key_record_ok mac r'"
    using group_decrypt_record_ok [OF specs(1) r(2) dec] .
  obtain n w' where store:
    "signal_protocol_sender_key_store_key (gc_store cipher) (gc_sender_key_id cipher) r' w1 = (Inr n, w')"
    using sender_key_load_stored [OF specs ok] by blast
  have "group_cipher_decrypt context cipher m w = (Inr pt, w')"
    using cipher
    by (simp add: group_cipher_decrypt_def with_error_Inr dec group_cipher_decrypt_callback_def
        sbind_Inr [of "signal_protocol_sender_key_load_key context (gc_store cipher) (gc_sender_key_id cipher)", OF load]
        sbind_Inr [of "signal_protocol_sender_key_store_key (gc_store cipher) (gc_sender_key_id cipher) r'", OF store])
  then show ?thesis
    using sender_key_loads_stored [OF specs ok store] by blast
qed

text \<open>A list of messages encrypted or decrypted one after the other.\<close>

fun group_encrypt_all ::
  "('h, 'd, 'w) signal_context \<Rightarrow> 'w group_cipher \<Rightarrow> bytes list \<Rightarrow> ('w, sender_key_message list) act" where
  "group_encrypt_all context cipher [] = sreturn []"
| "group_encrypt_all context cipher (pt # pts) =
     sbind (group_cipher_encrypt context cipher pt) (\<lambda>m.
     sbind (group_encrypt_all context cipher pts) (\<lambda>ms.
     sreturn (m # ms)))"

fun group_decrypt_all ::
  "('h, 'd, 'w) signal_context \<Rightarrow> 'w group_cipher \<Rightarrow> sender_key_message list \<Rightarrow> ('w, bytes list) act" where
  "group_decrypt_all context cipher [] = sreturn []"
| "group_decrypt_all context cipher (m # ms) =
     sbind (group_cipher_decrypt context cipher m) (\<lambda>pt.
     sbind (group_decrypt_all context cipher ms) (\<lambda>pts.
     sreturn (pt # pts)))"

lemma group_encrypt_all_sends:
  assumes specs: "hmac_spec context mac" "cipher_spec context" "signature_spec context" "random_spec context"
      "sender_key_store_spec (gc_store cipher)"
    and cipher: "\<not> gc_inside_callback cipher"
    and "sender_key_loads context (gc_store cipher) (gc_sender_key_id cipher) r w" "sender_key_record_ok mac r"
    and "sender_key_record_get_sender_key_state r = Inr s" "signs context s"
  shows "\<exists>ms w'. group_encrypt_all context cipher pts w = (Inr ms, w') \<and> length ms = length pts \<and>
    (\<forall>i < length pts. group_message_of context mac (sks_key_id s)
       (sks_signature_public_key s) ((sender_chain_next mac ^^ i) (sks_chain_key s)) (pts ! i) (ms ! i))"
  using assms(7-10)
proof (induction pts arbitrary: r s w)
  case (Cons pt pts)
  obtain m w1 r' s' where m: "group_cipher_encrypt context cipher pt w = (Inr m, w1)"
    and sent: "group_message_of context mac (sks_key_id s) (sks_signature_public_key s) (sks_chain_key s) pt m"
    and r': "sender_key_loads context (gc_store cipher) (gc_sender_key_id cipher) r' w1" "sender_key_record_ok mac r'"
      "sender_key_record_get_sender_key_state r' = Inr s'" "signs context s'"
    and s': "s' = s\<lparr>sks_chain_key := sender_chain_next mac (sks_chain_key s)\<rparr>"
    by (rule group_encrypt_steps [OF specs cipher Cons.prems])
  obtain ms w' where ms: "group_encrypt_all context cipher pts w1 = (Inr ms, w')" "length ms = length pts"
    and rest: "\<And>i. i < length pts \<Longrightarrow> group_message_of context mac (sks_key_id s) (sks_signature_public_key s)
      ((sender_chain_next mac ^^ Suc i) (sks_chain_key s)) (pts ! i) (ms ! i)"
    using Cons.IH [OF r'] by (auto simp: s' funpow_swap1)
  have "group_encrypt_all context cipher (pt # pts) w = (Inr (m # ms), w')"
    by (simp add: sbind_Inr [of "group_cipher_encrypt context cipher pt", OF m]
        sbind_Inr [of "group_encrypt_all context cipher pts", OF ms(1)])
  moreover have "group_message_of context mac (sks_key_id s) (sks_signature_public_key s)
      ((sender_chain_next mac ^^ i) (sks_chain_key s)) ((pt # pts) ! i) ((m # ms) ! i)" if "i < Suc (length pts)" for i
    using that sent rest by (cases i) simp_all
  ultimately show ?case
    using ms(2) by (intro exI [of _ "m # ms"]) simp
qed simp

lemma group_decrypt_all_window:
  assumes specs: "hmac_spec context mac" "sender_key_store_spec (gc_store cipher)"
    and cipher: "\<not> gc_inside_callback cipher" "gc_decrypt_callback cipher = None"
    and c0: "unat (sck_iteration c0) + n < 2 ^ 32" "n \<le> 2000"
    and ms: "\<And>j. j < n \<Longrightarrow> group_message_of context mac i pub ((sender_chain_next mac ^^ j) c0) (pts ! j) (ms ! j)"
    and r: "sender_key_loads context (gc_store cipher) (gc_sender_key_id cipher) r w" "sender_key_record_ok mac r"
    and s: "sender_key_record_get_sender_key_state_by_id r i = Inr s" "sks_signature_public_key s = pub"
      "group_window mac c0 D h (sks_chain_key s) (sks_message_keys s)" "h \<le> n"
    and order: "distinct order" "set order \<subseteq> {..<n} - D"
  shows "\<exists>w'. group_decrypt_all context cipher (map ((!) ms) order) w = (Inr (map ((!) pts) order), w')"
  using r s order
proof (induction order arbitrary: r s D h w)
  case (Cons j order)
  have j: "j < n" "j \<notin> D"
    using Cons.prems(8) by auto
  obtain r' s' where dec: "group_cipher_decrypt_record context r (ms ! j) = Inr (pts ! j, r')"
    and s': "sender_key_record_get_sender_key_state_by_id r' i = Inr s'" "sks_signature_public_key s' = pub"
      "group_window mac c0 (insert j D) (max h (Suc j)) (sks_chain_key s') (sks_message_keys s')"
    by (rule group_decrypt_window [OF specs(1) c0 Cons.prems(3-6) ms [OF j(1)] j])
  obtain w1 where w1: "group_cipher_decrypt context cipher (ms ! j) w = (Inr (pts ! j), w1)"
    "sender_key_loads context (gc_store cipher) (gc_sender_key_id cipher) r' w1"
    using group_decrypt_steps [OF specs cipher Cons.prems(1,2) dec] by blast
  have "max h (Suc j) \<le> n" "distinct order" "set order \<subseteq> {..<n} - insert j D"
    using Cons.prems(6-8) j(1) by auto
  then obtain w' where "group_decrypt_all context cipher (map ((!) ms) order) w1 = (Inr (map ((!) pts) order), w')"
    using Cons.IH [OF w1(2) group_decrypt_record_ok [OF specs(1) Cons.prems(2) dec] s'] by blast
  then show ?case
    by (auto simp: sbind_Inr [of "group_cipher_decrypt context cipher (ms ! j)", OF w1(1)] sbind_Inr)
qed simp

end
