(* ===== verification/Key_Helper.thy ===== *)
theory Key_Helper
  imports Session_Pre_Key Ratchet
begin

text \<open>
  \<open>key_helper.c\<close>: generation of identity keys, registration ids, pre-keys, signed pre-keys
  and the keys of a group sender. An integer that the random callback fills is read in the
  little-endian order of the platforms the library is built for.

  The lemmas: ids lie in their documented ranges, a batch of pre-keys has different ids and
  never the id of the last-resort key, and a generated signed pre-key verifies.
\<close>

unbundle bit_operations_syntax

fun u32_of_bytes :: "bytes \<Rightarrow> u32" where
  "u32_of_bytes [] = 0"
| "u32_of_bytes (b # bs) = ucast b OR push_bit 8 (u32_of_bytes bs)"

definition signal_protocol_key_helper_generate_identity_key_pair ::
  "('h, 'd, 'w) signal_context \<Rightarrow> ('w, ratchet_identity_key_pair) act" where
  "signal_protocol_key_helper_generate_identity_key_pair context =
     sbind (curve_generate_key_pair context) (\<lambda>ec_pair.
     sreturn (ratchet_identity_key_pair_create (public_key ec_pair) (private_key ec_pair)))"

definition signal_protocol_key_helper_generate_registration_id ::
  "('h, 'd, 'w) signal_context \<Rightarrow> int \<Rightarrow> ('w, u32) act" where
  "signal_protocol_key_helper_generate_registration_id context extended_range =
     (if extended_range \<noteq> 0 \<and> extended_range \<noteq> 1 then sfail SG_ERR_INVAL
      else
        let range = (if extended_range = 0 then 16380 else 2147483646) in
        sbind (random_func context 4) (\<lambda>id_value.
        sreturn (u32_of_bytes id_value mod range + 1)))"

text \<open>The remainder of a non-negative number; a remainder by zero is undefined.\<close>

definition signal_protocol_key_helper_get_random_sequence ::
  "('h, 'd, 'w) signal_context \<Rightarrow> int \<Rightarrow> ('w, int) act" where
  "signal_protocol_key_helper_get_random_sequence context max_value =
     sbind (random_func context 4) (\<lambda>result_value.
     if max_value = 0 then sfail SG_ABORT
     else sreturn (uint (u32_of_bytes result_value AND 0x7FFFFFFF) mod \<bar>max_value\<bar>))"

fun generate_pre_keys_from ::
  "('h, 'd, 'w) signal_context \<Rightarrow> u32 \<Rightarrow> u32 \<Rightarrow> nat \<Rightarrow> ('w, session_pre_key list) act" where
  "generate_pre_keys_from context start_index i 0 = sreturn []"
| "generate_pre_keys_from context start_index i (Suc n) =
     sbind (curve_generate_key_pair context) (\<lambda>ec_pair.
     let pre_key = session_pre_key_create
           ((start_index + i) mod (PRE_KEY_MEDIUM_MAX_VALUE - 1) + 1) ec_pair in
     sbind (generate_pre_keys_from context start_index (i + 1) n) (\<lambda>pre_keys.
     sreturn (pre_key # pre_keys)))"

definition signal_protocol_key_helper_generate_pre_keys ::
  "('h, 'd, 'w) signal_context \<Rightarrow> u32 \<Rightarrow> u32 \<Rightarrow> ('w, session_pre_key list) act" where
  "signal_protocol_key_helper_generate_pre_keys context start count_keys =
     generate_pre_keys_from context (start - 1) 0 (unat count_keys)"

definition signal_protocol_key_helper_generate_signed_pre_key ::
  "('h, 'd, 'w) signal_context \<Rightarrow> ratchet_identity_key_pair \<Rightarrow> u32 \<Rightarrow> u64 \<Rightarrow> ('w, session_signed_pre_key) act" where
  "signal_protocol_key_helper_generate_signed_pre_key context identity_key_pair signed_pre_key_id timestamp =
     sbind (curve_generate_key_pair context) (\<lambda>ec_pair.
     sbind (slift (ec_public_key_serialize (Some (public_key ec_pair)))) (\<lambda>public_buf.
     sbind (curve_calculate_signature context (identity_private_key identity_key_pair) public_buf)
       (\<lambda>signature_buf.
     slift (session_signed_pre_key_create signed_pre_key_id timestamp ec_pair signature_buf))))"

definition signal_protocol_key_helper_generate_sender_signing_key ::
  "('h, 'd, 'w) signal_context \<Rightarrow> ('w, ec_key_pair) act" where
  "signal_protocol_key_helper_generate_sender_signing_key context = curve_generate_key_pair context"

definition signal_protocol_key_helper_generate_sender_key ::
  "('h, 'd, 'w) signal_context \<Rightarrow> ('w, bytes) act" where
  "signal_protocol_key_helper_generate_sender_key context = signal_crypto_random context 32"

definition signal_protocol_key_helper_generate_sender_key_id ::
  "('h, 'd, 'w) signal_context \<Rightarrow> ('w, u32) act" where
  "signal_protocol_key_helper_generate_sender_key_id context =
     sbind (signal_protocol_key_helper_get_random_sequence context 2147483647) (\<lambda>value.
     sreturn (word_of_int value))"

section \<open>Ranges\<close>

lemma mod_plus_1_range:
  assumes "0 < r" "r < (-1 :: u32)"
  shows "1 \<le> x mod r + 1 \<and> x mod r + 1 \<le> r"
proof -
  have "x mod r < r"
    using assms(1) by (simp add: word_mod_less_divisor)
  then have "unat (x mod r + 1) = Suc (unat (x mod r))" "unat (x mod r) < unat r"
    by (rule unat_add_1) (use \<open>x mod r < r\<close> in \<open>simp add: word_less_nat_alt\<close>)
  then show ?thesis
    by (simp add: word_le_nat_alt)
qed

lemma registration_id_range:
  assumes "signal_protocol_key_helper_generate_registration_id context extended w = (Inr i, w')"
  shows "1 \<le> i \<and> i \<le> (if extended = 0 then 16380 else 2147483646)"
  using assms mod_plus_1_range [of 16380] mod_plus_1_range [of 2147483646]
  by (auto simp: signal_protocol_key_helper_generate_registration_id_def Let_def sbind_eq_Inr split: if_splits)

lemma word_of_int_mod_less:
  assumes "0 < m" "m < 2 ^ 32"
  shows "(word_of_int (x mod m) :: u32) < word_of_int m"
proof -
  have "0 \<le> x mod m" "x mod m < m"
    using assms(1) by simp_all
  moreover from this have "take_bit 32 (x mod m) = x mod m"
    using assms(2) by (intro take_bit_int_eq_self) simp_all
  ultimately show ?thesis
    using assms by (simp add: word_of_int_less_iff take_bit_int_eq_self)
qed

lemma sender_key_id_range:
  assumes "signal_protocol_key_helper_generate_sender_key_id context w = (Inr i, w')"
  shows "i < 2147483647"
  using assms word_of_int_mod_less [of 2147483647]
  by (auto simp: signal_protocol_key_helper_generate_sender_key_id_def
      signal_protocol_key_helper_get_random_sequence_def sbind_eq_Inr)

section \<open>Pre-keys\<close>

lemma generate_pre_keys_ids:
  assumes "generate_pre_keys_from context s i n w = (Inr ks, w')"
  shows "map pk_id ks = map (\<lambda>j. (s + i + word_of_nat j) mod 0xFFFFFE + 1) [0..<n]"
  using assms
proof (induction n arbitrary: i w ks)
  case (Suc n)
  obtain kp w1 ks' where step: "curve_generate_key_pair context w = (Inr kp, w1)"
    "generate_pre_keys_from context s (i + 1) n w1 = (Inr ks', w')"
    "ks = session_pre_key_create ((s + i) mod (PRE_KEY_MEDIUM_MAX_VALUE - 1) + 1) kp # ks'"
    using Suc.prems by (auto simp: sbind_eq_Inr Let_def)
  have "[0..<Suc n] = 0 # map Suc [0..<n]"
    by (simp add: map_Suc_upt upt_conv_Cons del: upt_Suc)
  then show ?case
    using Suc.IH [OF step(2)]
    by (simp add: step(3) session_pre_key_create_def PRE_KEY_MEDIUM_MAX_VALUE_def o_def add.assoc del: upt_Suc)
qed simp

lemma generate_pre_keys_range:
  assumes "signal_protocol_key_helper_generate_pre_keys context start n w = (Inr ks, w')" "k \<in> set ks"
  shows "1 \<le> pk_id k \<and> pk_id k \<le> 0xFFFFFE"
proof -
  have "map pk_id ks = map (\<lambda>j. (start - 1 + word_of_nat j) mod 0xFFFFFE + 1) [0..<unat n]"
    using generate_pre_keys_ids [of "context" "start - 1" 0 "unat n" w ks w'] assms(1)
    by (simp add: signal_protocol_key_helper_generate_pre_keys_def)
  moreover have "pk_id k \<in> set (map pk_id ks)"
    using assms(2) by simp
  ultimately obtain j where "pk_id k = (start - 1 + word_of_nat j) mod 0xFFFFFE + 1"
    by auto
  then show ?thesis
    using mod_plus_1_range [of "0xFFFFFE"] by simp
qed

lemma pre_key_id_unat:
  assumes "unat (s :: u32) + j < 2 ^ 32"
  shows "unat ((s + word_of_nat j) mod 0xFFFFFE + 1) = (unat s + j) mod 0xFFFFFE + 1"
proof -
  have "unat ((s + word_of_nat j) mod 0xFFFFFE) = (unat s + j) mod 0xFFFFFE"
    using index_add_less [OF assms] by (simp add: unat_mod)
  moreover have "(s + word_of_nat j) mod 0xFFFFFE < 0xFFFFFE"
    by (rule word_mod_less_divisor) simp
  ultimately show ?thesis
    using unat_add_1 [of "(s + word_of_nat j) mod 0xFFFFFE" "0xFFFFFE"] by simp
qed

lemma mod_window_inj:
  assumes "(a + i) mod m = (a + j) mod (m :: nat)" "i < m" "j < m"
  shows "i = j"
proof -
  have "(int a + int i) mod int m = (int a + int j) mod int m"
    using arg_cong [OF assms(1), of int] by (simp add: zmod_int)
  then have "int m dvd int i - int j"
    by (simp add: mod_eq_dvd_iff)
  then show ?thesis
    using zdvd_not_zless [of "int i - int j" "int m"] zdvd_not_zless [of "int j - int i" "int m"] assms(2,3)
    by (cases i j rule: linorder_cases) (auto simp: dvd_diff_commute)
qed

lemma generate_pre_keys_distinct:
  assumes "signal_protocol_key_helper_generate_pre_keys context start n w = (Inr ks, w')"
    and "unat (start - 1) + unat n \<le> 2 ^ 32" "n \<le> 0xFFFFFE"
  shows "distinct (map pk_id ks)"
proof -
  let ?id = "\<lambda>j. (start - 1 + word_of_nat j) mod 0xFFFFFE + (1 :: u32)"
  have "map pk_id ks = map ?id [0..<unat n]"
    using generate_pre_keys_ids [of "context" "start - 1" 0 "unat n" w ks w'] assms(1)
    by (simp add: signal_protocol_key_helper_generate_pre_keys_def)
  moreover have "inj_on ?id (set [0..<unat n])"
  proof (rule inj_onI)
    fix i j assume ij: "i \<in> set [0..<unat n]" "j \<in> set [0..<unat n]" "?id i = ?id j"
    have "unat (?id i) = (unat (start - 1) + i) mod 0xFFFFFE + 1" "unat (?id j) = (unat (start - 1) + j) mod 0xFFFFFE + 1"
      using ij(1,2) assms(2) by (intro pre_key_id_unat; simp)+
    then have "(unat (start - 1) + i) mod 0xFFFFFE = (unat (start - 1) + j) mod 0xFFFFFE"
      using arg_cong [OF ij(3), of unat] by (simp only: add_right_cancel)
    moreover have "unat n \<le> 0xFFFFFE"
      using assms(3) by (simp add: word_le_nat_alt)
    ultimately show "i = j"
      using ij(1,2) by (intro mod_window_inj [of "unat (start - 1)" i "0xFFFFFE" j]) simp_all
  qed
  ultimately show ?thesis
    by (simp add: distinct_map)
qed

lemma generate_pre_keys_matching:
  assumes "generate_pre_keys_from context s i n w = (Inr ks, w')"
  shows "list_all (\<lambda>k. matching_key_pair context (pk_key_pair k)) ks \<and> length ks = n"
  using assms
proof (induction n arbitrary: i w ks)
  case (Suc n)
  then show ?case
    by (auto simp: sbind_eq_Inr Let_def session_pre_key_create_def intro: curve_generate_key_pair_matching)
qed simp

lemma generate_pre_keys_total:
  assumes "dh_spec context dh" "random_spec context"
  shows "\<exists>ks w'. generate_pre_keys_from context s i n w = (Inr ks, w')"
proof (induction n arbitrary: i w)
  case (Suc n)
  obtain kp w1 where kp: "curve_generate_key_pair context w = (Inr kp, w1)"
    using generate_key_pair_total [OF assms] by blast
  obtain ks w' where "generate_pre_keys_from context s (i + 1) n w1 = (Inr ks, w')"
    using Suc.IH by blast
  then show ?case
    by (simp add: sbind_Inr [of "curve_generate_key_pair context", OF kp] session_pre_key_create_def Let_def
        sbind_Inr [of "generate_pre_keys_from context s (i + 1) n"])
qed simp

lemma generate_pre_keys_ok:
  assumes "dh_spec context dh" "random_spec context"
    and "unat (start - 1) + unat n \<le> 2 ^ 32" "n \<le> 0xFFFFFE"
  obtains ks w' where "signal_protocol_key_helper_generate_pre_keys context start n w = (Inr ks, w')"
    "length ks = unat n" "distinct (map pk_id ks)" "list_all (\<lambda>k. 1 \<le> pk_id k \<and> pk_id k \<le> 0xFFFFFE) ks"
    "list_all (\<lambda>k. matching_key_pair context (pk_key_pair k)) ks"
proof -
  obtain ks w' where ks: "signal_protocol_key_helper_generate_pre_keys context start n w = (Inr ks, w')"
    using generate_pre_keys_total [OF assms(1,2)] unfolding signal_protocol_key_helper_generate_pre_keys_def by blast
  then show ?thesis
    using that [OF ks _ generate_pre_keys_distinct [OF ks assms(3,4)]] generate_pre_keys_range [OF ks]
      generate_pre_keys_matching [OF ks [unfolded signal_protocol_key_helper_generate_pre_keys_def]]
    by (simp add: list_all_iff)
qed

section \<open>Signed pre-keys\<close>

lemma generated_signed_pre_key_verifies:
  assumes "signature_spec context"
    and "curve_generate_public_key context (identity_private_key ik) = Inr (identity_public_key ik)"
    and "signal_protocol_key_helper_generate_signed_pre_key context ik i t w = (Inr k, w')"
  shows "curve_verify_signature context (identity_public_key ik)
      (ec_public_key_serialize_protobuf (public_key (spk_key_pair k))) (spk_signature k) = Inr True"
    and "matching_key_pair context (spk_key_pair k)" "spk_id k = i" "spk_timestamp k = t"
proof -
  obtain kp w1 sig where steps: "curve_generate_key_pair context w = (Inr kp, w1)"
    "curve_calculate_signature context (identity_private_key ik) (ec_public_key_serialize_protobuf (public_key kp)) w1 =
       (Inr sig, w')"
    "session_signed_pre_key_create i t kp sig = Inr k"
    using assms(3)
    by (auto simp: signal_protocol_key_helper_generate_signed_pre_key_def sbind_eq_Inr
        ec_public_key_serialize_protobuf_eq slift_eq_Inr simp del: slift_eq)
  then have k: "k = \<lparr>spk_id = i, spk_key_pair = kp, spk_timestamp = t, spk_signature = sig\<rparr>"
    by (simp add: session_signed_pre_key_create_def split: if_splits)
  show "curve_verify_signature context (identity_public_key ik)
      (ec_public_key_serialize_protobuf (public_key (spk_key_pair k))) (spk_signature k) = Inr True"
    using curve_verify_calculated [OF assms(1,2) steps(2)] by (simp add: k)
  show "matching_key_pair context (spk_key_pair k)" "spk_id k = i" "spk_timestamp k = t"
    using curve_generate_key_pair_matching [OF steps(1)] by (simp_all add: k)
qed

lemma generate_signed_pre_key_total:
  assumes "dh_spec context dh" "random_spec context" "signature_spec context"
  shows "\<exists>k w'. signal_protocol_key_helper_generate_signed_pre_key context ik i t w = (Inr k, w')"
proof -
  obtain kp w1 where kp: "curve_generate_key_pair context w = (Inr kp, w1)"
    using generate_key_pair_total [OF assms(1,2)] by blast
  obtain sig w2 where sig: "curve_calculate_signature context (identity_private_key ik)
      (ec_public_key_serialize_protobuf (public_key kp)) w1 = (Inr sig, w2)" "length sig = CURVE_SIGNATURE_LEN"
    using curve_calculate_signature_total [OF assms(3,2)] by blast
  then have "sig \<noteq> []"
    by (auto simp: curve_constants)
  then show ?thesis
    by (simp add: signal_protocol_key_helper_generate_signed_pre_key_def ec_public_key_serialize_protobuf_eq
        sbind_Inr [of "curve_generate_key_pair context", OF kp] session_signed_pre_key_create_def
        sbind_Inr [of "curve_calculate_signature context (identity_private_key ik)
          (ec_public_key_serialize_protobuf (public_key kp))", OF sig(1)])
qed

end
