(* ===== verification/Group_Session_Builder.thy ===== *)
theory Group_Session_Builder
  imports Group_Cipher Key_Helper
begin

text \<open>
  \<open>group_session_builder.c\<close>: a sender makes its sender key and hands it out in a distribution
  message; the other members of the group enter it into their records.

  The lemmas: both operations keep the record invariant, a created session can sign, and members
  that processed the distribution message decrypt the messages sent from then on in every order.
\<close>

record 'w group_session_builder =
  gsb_store :: "'w signal_protocol_store_context"

definition group_session_builder_create :: "'w signal_protocol_store_context \<Rightarrow> 'w group_session_builder" where
  "group_session_builder_create store = \<lparr>gsb_store = store\<rparr>"

definition group_session_builder_process_session ::
  "('h, 'd, 'w) signal_context \<Rightarrow> 'w group_session_builder \<Rightarrow> signal_protocol_sender_key_name \<Rightarrow>
     sender_key_distribution_message \<Rightarrow> ('w, int) act" where
  "group_session_builder_process_session context builder sender_key_name distribution_message =
     sbind (signal_protocol_sender_key_load_key context (gsb_store builder) sender_key_name) (\<lambda>r.
     sbind (slift (sender_key_record_add_sender_key_state r
              (sender_key_distribution_message_get_id distribution_message)
              (sender_key_distribution_message_get_iteration distribution_message)
              (Some (sender_key_distribution_message_get_chain_key distribution_message))
              (Some (sender_key_distribution_message_get_signature_key distribution_message)))) (\<lambda>r.
     signal_protocol_sender_key_store_key (gsb_store builder) sender_key_name r))"

text \<open>The sender's record, made when there is none.\<close>

definition group_session_builder_sender_record ::
  "('h, 'd, 'w) signal_context \<Rightarrow> 'w group_session_builder \<Rightarrow> signal_protocol_sender_key_name \<Rightarrow>
     ('w, sender_key_record) act" where
  "group_session_builder_sender_record context builder sender_key_name =
     sbind (signal_protocol_sender_key_load_key context (gsb_store builder) sender_key_name) (\<lambda>r.
     if sender_key_record_is_empty r then
       sbind (signal_protocol_key_helper_generate_sender_key_id context) (\<lambda>sender_key_id.
       sbind (signal_protocol_key_helper_generate_sender_key context) (\<lambda>sender_key.
       sbind (signal_protocol_key_helper_generate_sender_signing_key context) (\<lambda>sender_signing_key.
       sbind (slift (sender_key_record_set_sender_key_state r sender_key_id 0 (Some sender_key)
                sender_signing_key)) (\<lambda>r.
       sbind (signal_protocol_sender_key_store_key (gsb_store builder) sender_key_name r) (\<lambda>_.
       sreturn r)))))
     else sreturn r)"

definition group_session_builder_create_session ::
  "('h, 'd, 'w) signal_context \<Rightarrow> 'w group_session_builder \<Rightarrow> signal_protocol_sender_key_name \<Rightarrow>
     ('w, sender_key_distribution_message) act" where
  "group_session_builder_create_session context builder sender_key_name =
     sbind (group_session_builder_sender_record context builder sender_key_name) (\<lambda>r.
     sbind (slift (sender_key_record_get_sender_key_state r)) (\<lambda>state.
     let chain_key = sender_key_state_get_chain_key state;
         seed = sender_chain_key_get_seed chain_key in
     slift (sender_key_distribution_message_create (sender_key_state_get_key_id state)
              (sender_chain_key_get_iteration chain_key) seed
              (sender_key_state_get_signing_key_public state))))"

section \<open>What the operations leave in the store\<close>

lemma process_session_joins:
  assumes specs: "hmac_spec context mac" "sender_key_store_spec (gsb_store builder)"
    and r: "sender_key_loads context (gsb_store builder) name r w" "sender_key_record_ok mac r"
    and dist: "length (skdm_chain_key d) < 2 ^ 24" "ec_public_key_ok (skdm_signature_key d)"
  obtains n w' r' s where "group_session_builder_process_session context builder name d w = (Inr n, w')"
    "sender_key_loads context (gsb_store builder) name r' w'" "sender_key_record_ok mac r'"
    "sender_key_record_get_sender_key_state_by_id r' (skdm_id d) = Inr s"
    "sks_chain_key s = \<lparr>sck_iteration = skdm_iteration d, sck_chain_key = skdm_chain_key d\<rparr>"
    "sks_signature_public_key s = skdm_signature_key d" "sks_message_keys s = []"
proof -
  obtain w1 where load: "signal_protocol_sender_key_load_key context (gsb_store builder) name w = (Inr r, w1)"
    using r(1) by (auto simp: sender_key_loads_def)
  obtain r' where add: "sender_key_record_add_sender_key_state_impl r (skdm_id d) (skdm_iteration d)
      (Some (skdm_chain_key d)) (Some (skdm_signature_key d)) None = Inr r'"
    by (auto simp: sender_key_record_add_sender_key_state_impl_def sender_chain_key_create_def
        sender_key_state_create_def)
  have ok: "sender_key_record_ok mac r'"
    using add_sender_key_state_ok [OF r(2) dist _ add] by simp
  obtain n w' where store: "signal_protocol_sender_key_store_key (gsb_store builder) name r' w1 = (Inr n, w')"
    using sender_key_load_stored [OF specs ok] by blast
  have "group_session_builder_process_session context builder name d w = (Inr n, w')"
    using add store
    by (simp add: group_session_builder_process_session_def sender_key_record_add_sender_key_state_def
        sender_key_distribution_message_get_id_def sender_key_distribution_message_get_iteration_def
        sender_key_distribution_message_get_chain_key_def sender_key_distribution_message_get_signature_key_def
        sbind_Inr [of "signal_protocol_sender_key_load_key context (gsb_store builder) name", OF load])
  then show ?thesis
    using that sender_key_loads_stored [OF specs ok store] ok add_sender_key_state_found [OF add]
    by (simp add: sender_key_state_create_def)
qed

lemma distribution_message_fields:
  assumes "sender_key_distribution_message_create key_id iteration chain_key signature_key = Inr d"
  shows "skdm_id d = key_id" "skdm_iteration d = iteration" "skdm_chain_key d = chain_key"
    "skdm_signature_key d = signature_key"
  using assms by (auto simp: sender_key_distribution_message_create_def Let_def rbind_eq_Inr)

text \<open>The head of a record, if it has one, can sign.\<close>

definition record_signs :: "('h, 'd, 'w) signal_context \<Rightarrow> sender_key_record \<Rightarrow> bool" where
  "record_signs context r \<longleftrightarrow>
     (case sender_key_record_get_sender_key_state r of Inl _ \<Rightarrow> True | Inr s \<Rightarrow> signs context s)"

lemma new_sender_record:
  assumes specs: "hmac_spec context mac" "dh_spec context dh" "random_spec context"
    and key: "signal_crypto_random context 32 w = (Inr key, w1)" "curve_generate_key_pair context w1 = (Inr kp, w2)"
    and new: "sender_key_record_set_sender_key_state r i 0 (Some key) kp = Inr r'"
  shows "sender_key_record_ok mac r'" "record_signs context r'"
proof -
  have pair: "matching_key_pair context kp"
    by (rule curve_generate_key_pair_matching [OF key(2)])
  have "length key = 32"
    using specs(3) key(1) unfolding random_spec_def by (metis Inr_inject prod.inject)
  moreover have "sender_key_record_ok mac (r\<lparr>skr_sender_key_states := []\<rparr>)"
    by (simp add: sender_key_record_ok_def)
  ultimately show "sender_key_record_ok mac r'"
    using add_sender_key_state_ok [of mac "r\<lparr>skr_sender_key_states := []\<rparr>" key "public_key kp" "Some (private_key kp)"]
      generated_key_pair_ok [OF specs(2,3) key(2)] new
    by (simp add: sender_key_record_set_sender_key_state_def ec_key_pair_ok_def)
  show "record_signs context r'"
    using new pair
    by (auto simp: sender_key_record_set_sender_key_state_def sender_key_record_add_sender_key_state_impl_def
        sender_chain_key_create_def sender_key_state_create_def record_signs_def signs_def
        sender_key_record_get_sender_key_state_def MAX_STATES_def matching_key_pair_def)
qed

lemma sender_key_generated:
  assumes "dh_spec context dh" "random_spec context"
  shows "\<exists>i w'. signal_protocol_key_helper_generate_sender_key_id context w = (Inr i, w')"
    and "\<exists>key w'. signal_protocol_key_helper_generate_sender_key context w = (Inr key, w') \<and>
      signal_crypto_random context 32 w = (Inr key, w')"
    and "\<exists>kp w'. signal_protocol_key_helper_generate_sender_signing_key context w = (Inr kp, w') \<and>
      curve_generate_key_pair context w = (Inr kp, w')"
proof -
  have random: "\<exists>bs w'. signal_crypto_random context n w = (Inr bs, w') \<and> length bs = n" for n
    using assms(2) unfolding random_spec_def by blast
  show "\<exists>i w'. signal_protocol_key_helper_generate_sender_key_id context w = (Inr i, w')"
    using random [of 4] by (auto simp: signal_protocol_key_helper_generate_sender_key_id_def
        signal_protocol_key_helper_get_random_sequence_def signal_crypto_random_def sbind_def sreturn_def)
  show "\<exists>key w'. signal_protocol_key_helper_generate_sender_key context w = (Inr key, w') \<and>
      signal_crypto_random context 32 w = (Inr key, w')"
    using random [of 32] by (auto simp: signal_protocol_key_helper_generate_sender_key_def)
  show "\<exists>kp w'. signal_protocol_key_helper_generate_sender_signing_key context w = (Inr kp, w') \<and>
      curve_generate_key_pair context w = (Inr kp, w')"
    using generate_key_pair_total [OF assms] by (simp add: signal_protocol_key_helper_generate_sender_signing_key_def)
qed

text \<open>The sender's record after \<open>create_session\<close>: the one it had, or a new one at iteration 0.\<close>

lemma sender_record_kept:
  assumes specs: "hmac_spec context mac" "dh_spec context dh" "random_spec context"
      "sender_key_store_spec (gsb_store builder)"
    and r: "sender_key_loads context (gsb_store builder) name r w" "sender_key_record_ok mac r" "record_signs context r"
  obtains r' w' s where "group_session_builder_sender_record context builder name w = (Inr r', w')"
    "sender_key_loads context (gsb_store builder) name r' w'" "sender_key_record_ok mac r'" "record_signs context r'"
    "sender_key_record_get_sender_key_state r' = Inr s"
    "sender_key_record_get_sender_key_state r = Inr s \<or> sck_iteration (sks_chain_key s) = 0"
proof -
  obtain w1 where load: "signal_protocol_sender_key_load_key context (gsb_store builder) name w = (Inr r, w1)"
    using r(1) by (auto simp: sender_key_loads_def)
  note loaded = sbind_Inr [of "signal_protocol_sender_key_load_key context (gsb_store builder) name", OF load]
  show ?thesis
  proof (cases "sender_key_record_is_empty r")
    case True
    obtain i w2 where i: "signal_protocol_key_helper_generate_sender_key_id context w1 = (Inr i, w2)"
      using sender_key_generated(1) [OF specs(2,3)] by blast
    obtain key w3 where key: "signal_protocol_key_helper_generate_sender_key context w2 = (Inr key, w3)"
      "signal_crypto_random context 32 w2 = (Inr key, w3)"
      using sender_key_generated(2) [OF specs(2,3)] by blast
    obtain kp w4 where kp: "signal_protocol_key_helper_generate_sender_signing_key context w3 = (Inr kp, w4)"
      "curve_generate_key_pair context w3 = (Inr kp, w4)"
      using sender_key_generated(3) [OF specs(2,3)] by blast
    obtain r' s where new: "sender_key_record_set_sender_key_state r i 0 (Some key) kp = Inr r'"
      "sender_key_record_get_sender_key_state r' = Inr s" "sck_iteration (sks_chain_key s) = 0"
      by (simp add: sender_key_record_set_sender_key_state_def sender_key_record_add_sender_key_state_impl_def
          sender_chain_key_create_def sender_key_state_create_def sender_key_record_get_sender_key_state_def MAX_STATES_def)
    note ok = new_sender_record [OF specs(1-3) key(2) kp(2) new(1)]
    obtain n w' where store: "signal_protocol_sender_key_store_key (gsb_store builder) name r' w4 = (Inr n, w')"
      using sender_key_load_stored [OF specs(1,4) ok(1)] by blast
    have "group_session_builder_sender_record context builder name w = (Inr r', w')"
      using True new(1)
      by (simp add: group_session_builder_sender_record_def loaded
          sbind_Inr [of "signal_protocol_key_helper_generate_sender_key_id context", OF i]
          sbind_Inr [of "signal_protocol_key_helper_generate_sender_key context", OF key(1)]
          sbind_Inr [of "signal_protocol_key_helper_generate_sender_signing_key context", OF kp(1)]
          sbind_Inr [of "signal_protocol_sender_key_store_key (gsb_store builder) name r'", OF store])
    then show ?thesis
      by (rule that [OF _ sender_key_loads_stored [OF specs(1,4) ok(1) store] ok new(2)]) (simp add: new(3))
  next
    case False
    then obtain s where s: "sender_key_record_get_sender_key_state r = Inr s"
      by (cases "skr_sender_key_states r")
        (simp_all add: sender_key_record_is_empty_def sender_key_record_get_sender_key_state_def)
    have "group_session_builder_sender_record context builder name w = (Inr r, w1)"
      using False by (simp add: group_session_builder_sender_record_def loaded)
    moreover have "sender_key_loads context (gsb_store builder) name r w1"
      using sender_key_load_again [OF specs(4) load] by (simp add: sender_key_loads_def)
    ultimately show ?thesis
      using that r(2,3) s by blast
  qed
qed

text \<open>
  \<open>create_session\<close> succeeds. The record that it leaves in the store has at its head the key that the
  distribution message carries, and the key signs if that of a previous record did.
\<close>

lemma create_session_distributes:
  assumes specs: "hmac_spec context mac" "dh_spec context dh" "random_spec context"
      "sender_key_store_spec (gsb_store builder)"
    and r: "sender_key_loads context (gsb_store builder) name r w" "sender_key_record_ok mac r" "record_signs context r"
  obtains d w' r' s where "group_session_builder_create_session context builder name w = (Inr d, w')"
    "sender_key_loads context (gsb_store builder) name r' w'" "sender_key_record_ok mac r'"
    "sender_key_record_get_sender_key_state r' = Inr s" "signs context s"
    "skdm_id d = sks_key_id s" "skdm_iteration d = sck_iteration (sks_chain_key s)"
    "skdm_chain_key d = sck_chain_key (sks_chain_key s)" "skdm_signature_key d = sks_signature_public_key s"
    "sender_key_record_get_sender_key_state r = Inr s \<or> sck_iteration (sks_chain_key s) = 0"
proof -
  obtain r' w' s where r': "group_session_builder_sender_record context builder name w = (Inr r', w')"
    "sender_key_loads context (gsb_store builder) name r' w'" "sender_key_record_ok mac r'" "record_signs context r'"
    "sender_key_record_get_sender_key_state r' = Inr s"
    "sender_key_record_get_sender_key_state r = Inr s \<or> sck_iteration (sks_chain_key s) = 0"
    by (rule sender_record_kept [OF specs r])
  obtain d where d: "sender_key_distribution_message_create (sks_key_id s) (sck_iteration (sks_chain_key s))
      (sck_chain_key (sks_chain_key s)) (sks_signature_public_key s) = Inr d"
    by (simp add: sender_key_distribution_message_create_def sender_key_distribution_message_serialize_def checked_pack_def Let_def)
  have "group_session_builder_create_session context builder name w = (Inr d, w')"
    using d r'(5)
    by (simp add: group_session_builder_create_session_def Let_def sender_key_state_get_chain_key_def
        sender_chain_key_get_seed_def sender_key_state_get_key_id_def sender_chain_key_get_iteration_def
        sender_key_state_get_signing_key_public_def
        sbind_Inr [of "group_session_builder_sender_record context builder name", OF r'(1)])
  then show ?thesis
    by (rule that [OF _ r'(2,3,5) _ distribution_message_fields [OF d] r'(6)])
      (use r'(4,5) in \<open>simp add: record_signs_def\<close>)
qed

section \<open>Delivery to the group\<close>

lemma group_created [simp]:
  "gsb_store (group_session_builder_create store) = store"
  "gc_store (group_cipher_create store name) = store" "gc_sender_key_id (group_cipher_create store name) = name"
  "\<not> gc_inside_callback (group_cipher_create store name)" "gc_decrypt_callback (group_cipher_create store name) = None"
  by (simp_all add: group_session_builder_create_def group_cipher_create_def)

text \<open>
  A sender creates its session and sends up to 2000 messages. A member that processes the
  distribution message decrypts them in every order, each once.
\<close>

lemma group_delivers_all:
  assumes specs: "hmac_spec context mac" "dh_spec context dh" "random_spec context" "cipher_spec context"
      "signature_spec context" "sender_key_store_spec sender_store" "sender_key_store_spec member_store"
    and sender: "sender_key_loads context sender_store name r w" "sender_key_record_ok mac r" "record_signs context r"
    and member: "sender_key_loads context member_store name' r' v" "sender_key_record_ok mac r'"
    and window: "length pts \<le> 2000" "\<And>s. sender_key_record_get_sender_key_state r = Inr s \<Longrightarrow>
      unat (sck_iteration (sks_chain_key s)) + length pts < 2 ^ 32"
    and order: "distinct order" "set order \<subseteq> {..<length pts}"
  shows "\<exists>d w1 ms w2 n v1 v2.
    group_session_builder_create_session context (group_session_builder_create sender_store) name w = (Inr d, w1) \<and>
    group_encrypt_all context (group_cipher_create sender_store name) pts w1 = (Inr ms, w2) \<and>
    group_session_builder_process_session context (group_session_builder_create member_store) name' d v = (Inr n, v1) \<and>
    group_decrypt_all context (group_cipher_create member_store name') (map ((!) ms) order) v1 =
      (Inr (map ((!) pts) order), v2)"
proof -
  obtain d w1 r1 s where w1: "group_session_builder_create_session context (group_session_builder_create sender_store) name w = (Inr d, w1)"
    and r1: "sender_key_loads context sender_store name r1 w1" "sender_key_record_ok mac r1"
      "sender_key_record_get_sender_key_state r1 = Inr s" "signs context s"
    and d: "skdm_id d = sks_key_id s" "skdm_iteration d = sck_iteration (sks_chain_key s)"
      "skdm_chain_key d = sck_chain_key (sks_chain_key s)" "skdm_signature_key d = sks_signature_public_key s"
    and s: "sender_key_record_get_sender_key_state r = Inr s \<or> sck_iteration (sks_chain_key s) = 0"
    using create_session_distributes [of "context" mac dh "group_session_builder_create sender_store", unfolded group_created,
        OF specs(1-3,6) sender] .
  obtain ms w2 where w2: "group_encrypt_all context (group_cipher_create sender_store name) pts w1 = (Inr ms, w2)"
    and sent: "\<And>i. i < length pts \<Longrightarrow> group_message_of context mac (skdm_id d) (skdm_signature_key d)
      ((sender_chain_next mac ^^ i) (sks_chain_key s)) (pts ! i) (ms ! i)"
    using group_encrypt_all_sends [of "context" mac "group_cipher_create sender_store name", unfolded group_created,
        OF specs(1,4,5,3,6) _ r1, of pts] by (auto simp: d)
  have "sender_key_state_ok mac s"
    using r1(2,3) by (auto simp: sender_key_record_get_sender_key_state_def sender_key_record_ok_def split: list.splits)
  then have dist: "length (skdm_chain_key d) < 2 ^ 24" "ec_public_key_ok (skdm_signature_key d)"
    by (simp_all add: d sender_key_state_ok_def)
  have chain_key: "\<lparr>sck_iteration = skdm_iteration d, sck_chain_key = skdm_chain_key d\<rparr> = sks_chain_key s"
    by (simp add: d sender_chain_key_collapse)
  obtain n v1 r2 s2 where v1: "group_session_builder_process_session context (group_session_builder_create member_store)
      name' d v = (Inr n, v1)"
    and r2: "sender_key_loads context member_store name' r2 v1" "sender_key_record_ok mac r2"
      "sender_key_record_get_sender_key_state_by_id r2 (skdm_id d) = Inr s2"
    and s2: "sks_chain_key s2 = sks_chain_key s" "sks_signature_public_key s2 = skdm_signature_key d"
      "sks_message_keys s2 = []"
    by (rule process_session_joins [of "context" mac "group_session_builder_create member_store",
          unfolded group_created, OF specs(1,7) member dist, unfolded chain_key])
  have room: "unat (sck_iteration (sks_chain_key s)) + length pts < 2 ^ 32"
    using s window by auto
  have "group_window mac (sks_chain_key s) {} 0 (sks_chain_key s2) (sks_message_keys s2)"
    by (simp add: key_window_def s2)
  then have "\<exists>v2. group_decrypt_all context (group_cipher_create member_store name') (map ((!) ms) order) v1 =
      (Inr (map ((!) pts) order), v2)"
    using group_decrypt_all_window [of "context" mac "group_cipher_create member_store name'", unfolded group_created,
        OF specs(1,7) _ _ room window(1) sent r2] s2(2) order by simp
  then show ?thesis
    using w1 w2 v1 by blast
qed

end
