(* ===== verification/Digest_Codes.thy ===== *)
theory Digest_Codes
  imports Curve Vpool
begin

text \<open>
  What \<open>fingerprint.c\<close> and \<open>device_consistency.c\<close> share: the SHA-512 callbacks of the crypto
  provider (\<open>signal_protocol.c\<close>), the conversion of a digest to decimal digits that both write
  out, and C strings as byte strings without a zero byte.

  The lemmas: five bytes become five digits, so the codes have a fixed length; a pool that
  the serialised keys are appended to holds their concatenation.
\<close>

section \<open>SHA-512\<close>

definition signal_sha512_digest_init :: "('h, 'd, 'w) signal_context \<Rightarrow> 'd result" where
  "signal_sha512_digest_init context = sha512_digest_init_func context"

definition signal_sha512_digest_update :: "('h, 'd, 'w) signal_context \<Rightarrow> 'd \<Rightarrow> bytes \<Rightarrow> 'd result" where
  "signal_sha512_digest_update context digest_context data = sha512_digest_update_func context digest_context data"

definition signal_sha512_digest_final :: "('h, 'd, 'w) signal_context \<Rightarrow> 'd \<Rightarrow> (bytes \<times> 'd) result" where
  "signal_sha512_digest_final context digest_context = sha512_digest_final_func context digest_context"

text \<open>A sequence of updates.\<close>

fun sha512_updates :: "('h, 'd, 'w) signal_context \<Rightarrow> 'd \<Rightarrow> bytes list \<Rightarrow> 'd result" where
  "sha512_updates context digest_context [] = Inr digest_context"
| "sha512_updates context digest_context (data # rest) =
     rbind (signal_sha512_digest_update context digest_context data) (\<lambda>digest_context.
     sha512_updates context digest_context rest)"

text \<open>
  What the header asks of the provider: the digest is that of the bytes of all updates,
  64 bytes long, and the final call leaves the context ready for the next digest.
\<close>

definition sha512_spec :: "('h, 'd, 'w) signal_context \<Rightarrow> (bytes \<Rightarrow> bytes) \<Rightarrow> ('d \<Rightarrow> bool) \<Rightarrow> bool" where
  "sha512_spec context sha fresh \<longleftrightarrow>
     (\<exists>d. signal_sha512_digest_init context = Inr d \<and> fresh d) \<and>
     (\<forall>d parts. fresh d \<longrightarrow>
        (\<exists>d'. rbind (sha512_updates context d parts) (signal_sha512_digest_final context) =
              Inr (sha (concat parts), d') \<and> fresh d')) \<and>
     (\<forall>data. length (sha data) = 64)"

lemma sha512_specE:
  assumes "sha512_spec context sha fresh" "fresh d"
  obtains d1 d2 where "sha512_updates context d parts = Inr d1"
    "signal_sha512_digest_final context d1 = Inr (sha (concat parts), d2)" "fresh d2"
proof -
  obtain d2 where "rbind (sha512_updates context d parts) (signal_sha512_digest_final context) =
      Inr (sha (concat parts), d2)" "fresh d2"
    using assms unfolding sha512_spec_def by blast
  then show ?thesis
    using that by (auto simp: rbind_eq_Inr)
qed

lemma sha512_initE:
  assumes "sha512_spec context sha fresh"
  obtains d where "signal_sha512_digest_init context = Inr d" "fresh d"
  using assms by (auto simp: sha512_spec_def)

lemma length_sha512: "sha512_spec context sha fresh \<Longrightarrow> length (sha data) = 64"
  by (simp add: sha512_spec_def)

section \<open>Decimal codes\<close>

text \<open>The number in the five bytes from \<open>i\<close> on, and its last five decimal digits as \<open>"%05d"\<close> prints them.\<close>

definition digest_chunk :: "bytes \<Rightarrow> nat \<Rightarrow> u64" where
  "digest_chunk data i =
     push_bit 32 (ucast (data ! i) AND 0xFF) OR push_bit 24 (ucast (data ! (i + 1)) AND 0xFF) OR
     push_bit 16 (ucast (data ! (i + 2)) AND 0xFF) OR push_bit 8 (ucast (data ! (i + 3)) AND 0xFF) OR
     (ucast (data ! (i + 4)) AND 0xFF)"

definition digit :: "nat \<Rightarrow> byte" where
  "digit n = word_of_nat (48 + n)"

definition print_05d :: "nat \<Rightarrow> bytes" where
  "print_05d n = [digit (n div 10000 mod 10), digit (n div 1000 mod 10), digit (n div 100 mod 10),
     digit (n div 10 mod 10), digit (n mod 10)]"

definition digest_digits :: "bytes \<Rightarrow> nat \<Rightarrow> bytes" where
  "digest_digits data n = concat (map (\<lambda>i. print_05d (unat (digest_chunk data (5 * i) mod 100000))) [0..<n div 5])"

definition is_digit :: "byte \<Rightarrow> bool" where
  "is_digit b \<longleftrightarrow> 48 \<le> b \<and> b \<le> 57"

lemma unat_digit: "n < 10 \<Longrightarrow> unat (digit n) = 48 + n"
  unfolding digit_def unat_of_nat by (simp add: take_bit_nat_eq_self)

lemma is_digit_digit: "n < 10 \<Longrightarrow> is_digit (digit n)"
  by (simp add: is_digit_def word_le_nat_alt unat_digit)

lemma length_print_05d [simp]: "length (print_05d n) = 5"
  by (simp add: print_05d_def)

lemma print_05d_digits: "list_all is_digit (print_05d n)"
  by (simp add: print_05d_def is_digit_digit)

lemma decimal_digits:
  assumes "n < (100000 :: nat)"
  shows "n = 10000 * (n div 10000 mod 10) + 1000 * (n div 1000 mod 10) + 100 * (n div 100 mod 10) +
    10 * (n div 10 mod 10) + n mod 10"
proof -
  have "n div 100 = n div 10 div 10" "n div 1000 = n div 100 div 10" "n div 10000 = n div 1000 div 10"
    by (simp_all flip: div_mult2_eq)
  moreover have "n div 10000 mod 10 = n div 10000"
    using assms by (simp add: div_less_iff_less_mult)
  ultimately show ?thesis
    using div_mult_mod_eq [of n 10] div_mult_mod_eq [of "n div 10" 10] div_mult_mod_eq [of "n div 100" 10]
      div_mult_mod_eq [of "n div 1000" 10] by linarith
qed

lemma print_05d_inj:
  assumes "m < 100000" "n < 100000" "print_05d m = print_05d n"
  shows "m = n"
proof -
  have inj: "a = b" if "digit a = digit b" "a < 10" "b < 10" for a b
    using arg_cong [OF that(1), of unat] that(2,3) by (simp add: unat_digit)
  have "m div 10000 mod 10 = n div 10000 mod 10" "m div 1000 mod 10 = n div 1000 mod 10"
    "m div 100 mod 10 = n div 100 mod 10" "m div 10 mod 10 = n div 10 mod 10" "m mod 10 = n mod 10"
    using assms(3) by (auto simp: print_05d_def intro: inj)
  then show ?thesis
    using decimal_digits [OF assms(1)] decimal_digits [OF assms(2)] by simp
qed

lemma length_digest_digits: "length (digest_digits data n) = 5 * (n div 5)"
  by (simp add: digest_digits_def length_concat o_def sum_list_triv)

lemma digest_digits_digits: "list_all is_digit (digest_digits data n)"
  using print_05d_digits by (simp add: digest_digits_def list_all_iff)

section \<open>C strings\<close>

definition c_string :: "bytes \<Rightarrow> bytes" where
  "c_string data = takeWhile (\<lambda>b. b \<noteq> 0) data"

definition c_string_ok :: "bytes \<Rightarrow> bool" where
  "c_string_ok s \<longleftrightarrow> 0 \<notin> set s"

definition signal_protocol_str_serialize_protobuf :: "bytes \<Rightarrow> bytes" where
  "signal_protocol_str_serialize_protobuf str = str"

definition signal_protocol_str_deserialize_protobuf :: "bytes \<Rightarrow> bytes" where
  "signal_protocol_str_deserialize_protobuf buffer = c_string buffer"

lemma c_string_id [simp]: "c_string_ok s \<Longrightarrow> c_string s = s"
  by (auto simp: c_string_ok_def c_string_def takeWhile_eq_all_conv)

section \<open>Serialised keys\<close>

fun vpool_insert_keys :: "vpool \<Rightarrow> ec_public_key list \<Rightarrow> vpool result" where
  "vpool_insert_keys vp [] = Inr vp"
| "vpool_insert_keys vp (key_element # rest) =
     rbind (ec_public_key_serialize (Some key_element)) (\<lambda>buffer.
     rbind (vpool_insert vp (vpool_get_length vp) buffer) (\<lambda>(inserted, vp).
     if inserted then vpool_insert_keys vp rest else Inl SG_ERR_NOMEM))"

definition key_bytes :: "ec_public_key list \<Rightarrow> bytes" where
  "key_bytes ks = concat (map (\<lambda>k. DJB_TYPE # ec_public_data k) ks)"

lemma vpool_insert_keys_eq:
  assumes "vpool_ok vp" "v_off vp + length (key_bytes ks) + v_blksize vp \<le> SIZE_MAX"
    "v_off vp + length (key_bytes ks) \<le> v_limit vp"
  shows "\<exists>vp'. vpool_insert_keys vp ks = Inr vp' \<and> vpool_get_buf vp' = vpool_get_buf vp @ key_bytes ks"
  using assms
proof (induction ks arbitrary: vp)
  case (Cons k ks)
  let ?data = "DJB_TYPE # ec_public_data k"
  have len: "length (key_bytes (k # ks)) = length ?data + length (key_bytes ks)"
    by (simp add: key_bytes_def)
  obtain vp' where vp': "vpool_insert vp (vpool_get_length vp) ?data = Inr (True, vp')" "vpool_ok vp'"
    "vpool_get_buf vp' = vpool_get_buf vp @ ?data" "v_blksize vp' = v_blksize vp" "v_limit vp' = v_limit vp"
    "v_off vp' = v_off vp + length ?data"
    using vpool_append [OF Cons.prems(1), of ?data] Cons.prems(2,3) unfolding len by auto
  moreover obtain vp'' where "vpool_insert_keys vp' ks = Inr vp''"
      "vpool_get_buf vp'' = vpool_get_buf vp' @ key_bytes ks"
    using Cons.IH [OF vp'(2)] Cons.prems(2,3) vp'(4-6) unfolding len by auto
  ultimately show ?case
    by (simp add: ec_public_key_serialize_def key_bytes_def)
qed (simp add: key_bytes_def)

lemma ec_public_key_list_copy_eq: "ec_public_key_list_copy l = l"
proof -
  have "foldl ec_public_key_list_push_back xs l = xs @ l" for xs
    by (induction l arbitrary: xs) (simp_all add: ec_public_key_list_push_back_def)
  then show ?thesis
    by (simp add: ec_public_key_list_copy_def)
qed

end
