(* ===== verification/FingerprintProtocol.thy ===== *)
theory FingerprintProtocol
  imports Pb_Codec
begin

text \<open>
  The messages of \<open>FingerprintProtocol.pb-c.c\<close>: the payload of scannable fingerprints.
  A structure of the generated header is a record with an optional value per optional
  field and a list per repeated field; its descriptor holds the field numbers, types and
  number ranges of the generated table; \<open>_to_msg\<close> and \<open>_of_msg\<close> relate the structure to
  the generic message that \<open>protobuf-c\<close> reads and writes through the field offsets. Each
  structure is an instance of the locale \<open>pb_codec\<close>, so that unpacking its packed bytes
  gives it back.
\<close>

subsection \<open>\<open>Textsecure__LogicalFingerprint\<close>\<close>

record Textsecure__LogicalFingerprint =
  LogicalFingerprint_content :: "bytes option"
  LogicalFingerprint_identifier :: "bytes option"

definition textsecure__logical_fingerprint__init :: Textsecure__LogicalFingerprint where
  "textsecure__logical_fingerprint__init =
     \<lparr>LogicalFingerprint_content = None, LogicalFingerprint_identifier = None\<rparr>"

definition textsecure__logical_fingerprint__descriptor :: pb_desc where
  "textsecure__logical_fingerprint__descriptor = Desc
     [Optional_field 1 TYPE_BYTES,
      Optional_field 2 TYPE_BYTES]
     [(1, 0), (0, 2)]"

definition LogicalFingerprint_to_msg :: "Textsecure__LogicalFingerprint \<Rightarrow> pb_message" where
  "LogicalFingerprint_to_msg m = Message textsecure__logical_fingerprint__descriptor
     [bytes_slot (LogicalFingerprint_content m),
      bytes_slot (LogicalFingerprint_identifier m)] []"

definition LogicalFingerprint_of_msg :: "pb_message \<Rightarrow> Textsecure__LogicalFingerprint" where
  "LogicalFingerprint_of_msg m =
     \<lparr>LogicalFingerprint_content = slot_bytes (msg_slots m ! 0),
      LogicalFingerprint_identifier = slot_bytes (msg_slots m ! 1)\<rparr>"

definition textsecure__logical_fingerprint__get_packed_size :: "Textsecure__LogicalFingerprint \<Rightarrow> nat" where
  "textsecure__logical_fingerprint__get_packed_size m = protobuf_c_message_get_packed_size (LogicalFingerprint_to_msg m)"

definition textsecure__logical_fingerprint__pack :: "Textsecure__LogicalFingerprint \<Rightarrow> bytes" where
  "textsecure__logical_fingerprint__pack m = protobuf_c_message_pack (LogicalFingerprint_to_msg m)"

definition textsecure__logical_fingerprint__unpack :: "bytes \<Rightarrow> pb_error + Textsecure__LogicalFingerprint" where
  "textsecure__logical_fingerprint__unpack data =
     map_sum id LogicalFingerprint_of_msg (protobuf_c_message_unpack textsecure__logical_fingerprint__descriptor data)"

interpretation LogicalFingerprint: pb_codec textsecure__logical_fingerprint__descriptor LogicalFingerprint_to_msg LogicalFingerprint_of_msg
  by unfold_locales
    (simp_all add: textsecure__logical_fingerprint__descriptor_def LogicalFingerprint_to_msg_def LogicalFingerprint_of_msg_def
      range_simps upt_conv_Cons)

lemma LogicalFingerprint_size:
  "protobuf_c_message_get_packed_size (LogicalFingerprint_to_msg m) \<le>
     (10 + bytes_len (LogicalFingerprint_content m)) +
      ((10 + bytes_len (LogicalFingerprint_identifier m)))"
  unfolding LogicalFingerprint_to_msg_def textsecure__logical_fingerprint__descriptor_def message_size_unfold
  by (intro add_mono slot_size_bounds)

lemma textsecure__logical_fingerprint__roundtrip:
  "textsecure__logical_fingerprint__get_packed_size m < 2 ^ 27 \<Longrightarrow>
     textsecure__logical_fingerprint__unpack (textsecure__logical_fingerprint__pack m) = Inr m"
  unfolding textsecure__logical_fingerprint__get_packed_size_def textsecure__logical_fingerprint__pack_def textsecure__logical_fingerprint__unpack_def
  by (rule LogicalFingerprint.unpack_pack_msg)

lemma length_textsecure__logical_fingerprint__pack [simp]:
  "length (textsecure__logical_fingerprint__pack m) = textsecure__logical_fingerprint__get_packed_size m"
  by (simp add: textsecure__logical_fingerprint__pack_def textsecure__logical_fingerprint__get_packed_size_def pack_length)

subsection \<open>\<open>Textsecure__CombinedFingerprints\<close>\<close>

record Textsecure__CombinedFingerprints =
  CombinedFingerprints_version :: "u32 option"
  CombinedFingerprints_localfingerprint :: "Textsecure__LogicalFingerprint option"
  CombinedFingerprints_remotefingerprint :: "Textsecure__LogicalFingerprint option"

definition textsecure__combined_fingerprints__init :: Textsecure__CombinedFingerprints where
  "textsecure__combined_fingerprints__init =
     \<lparr>CombinedFingerprints_version = None, CombinedFingerprints_localfingerprint = None,
       CombinedFingerprints_remotefingerprint = None\<rparr>"

definition textsecure__combined_fingerprints__descriptor :: pb_desc where
  "textsecure__combined_fingerprints__descriptor = Desc
     [Optional_field 1 TYPE_UINT32,
      Optional_field 2 (TYPE_MESSAGE textsecure__logical_fingerprint__descriptor),
      Optional_field 3 (TYPE_MESSAGE textsecure__logical_fingerprint__descriptor)]
     [(1, 0), (0, 3)]"

definition CombinedFingerprints_to_msg :: "Textsecure__CombinedFingerprints \<Rightarrow> pb_message" where
  "CombinedFingerprints_to_msg m = Message textsecure__combined_fingerprints__descriptor
     [uint32_slot (CombinedFingerprints_version m),
      message_slot LogicalFingerprint_to_msg (CombinedFingerprints_localfingerprint m),
      message_slot LogicalFingerprint_to_msg (CombinedFingerprints_remotefingerprint m)] []"

definition CombinedFingerprints_of_msg :: "pb_message \<Rightarrow> Textsecure__CombinedFingerprints" where
  "CombinedFingerprints_of_msg m =
     \<lparr>CombinedFingerprints_version = slot_uint32 (msg_slots m ! 0),
      CombinedFingerprints_localfingerprint = slot_message LogicalFingerprint_of_msg (msg_slots m ! 1),
      CombinedFingerprints_remotefingerprint = slot_message LogicalFingerprint_of_msg (msg_slots m ! 2)\<rparr>"

definition textsecure__combined_fingerprints__get_packed_size :: "Textsecure__CombinedFingerprints \<Rightarrow> nat" where
  "textsecure__combined_fingerprints__get_packed_size m = protobuf_c_message_get_packed_size (CombinedFingerprints_to_msg m)"

definition textsecure__combined_fingerprints__pack :: "Textsecure__CombinedFingerprints \<Rightarrow> bytes" where
  "textsecure__combined_fingerprints__pack m = protobuf_c_message_pack (CombinedFingerprints_to_msg m)"

definition textsecure__combined_fingerprints__unpack :: "bytes \<Rightarrow> pb_error + Textsecure__CombinedFingerprints" where
  "textsecure__combined_fingerprints__unpack data =
     map_sum id CombinedFingerprints_of_msg (protobuf_c_message_unpack textsecure__combined_fingerprints__descriptor data)"

interpretation CombinedFingerprints: pb_codec textsecure__combined_fingerprints__descriptor CombinedFingerprints_to_msg CombinedFingerprints_of_msg
  by unfold_locales
    (simp_all add: textsecure__combined_fingerprints__descriptor_def CombinedFingerprints_to_msg_def CombinedFingerprints_of_msg_def
      range_simps upt_conv_Cons
      LogicalFingerprint.embed)

lemma CombinedFingerprints_size:
  "protobuf_c_message_get_packed_size (CombinedFingerprints_to_msg m) \<le>
     10 +
      ((case CombinedFingerprints_localfingerprint m of None \<Rightarrow> 0 | Some y \<Rightarrow> 10 + protobuf_c_message_get_packed_size (LogicalFingerprint_to_msg y)) +
      ((case CombinedFingerprints_remotefingerprint m of None \<Rightarrow> 0 | Some y \<Rightarrow> 10 + protobuf_c_message_get_packed_size (LogicalFingerprint_to_msg y))))"
  unfolding CombinedFingerprints_to_msg_def textsecure__combined_fingerprints__descriptor_def message_size_unfold
  by (intro add_mono slot_size_bounds)

lemma textsecure__combined_fingerprints__roundtrip:
  "textsecure__combined_fingerprints__get_packed_size m < 2 ^ 27 \<Longrightarrow>
     textsecure__combined_fingerprints__unpack (textsecure__combined_fingerprints__pack m) = Inr m"
  unfolding textsecure__combined_fingerprints__get_packed_size_def textsecure__combined_fingerprints__pack_def textsecure__combined_fingerprints__unpack_def
  by (rule CombinedFingerprints.unpack_pack_msg)

lemma length_textsecure__combined_fingerprints__pack [simp]:
  "length (textsecure__combined_fingerprints__pack m) = textsecure__combined_fingerprints__get_packed_size m"
  by (simp add: textsecure__combined_fingerprints__pack_def textsecure__combined_fingerprints__get_packed_size_def pack_length)

end
