(* ===== verification/Fingerprint.thy ===== *)
theory Fingerprint
  imports Digest_Codes FingerprintProtocol "HOL-Library.Multiset"
begin

text \<open>
  \<open>fingerprint.c\<close>: the safety numbers two users compare, as digits to read out
  (\<open>displayable_fingerprint\<close>) and as bytes to scan (\<open>scannable_fingerprint\<close>).

  The lemmas: a fingerprint is an iterated digest, its digits have a fixed length, both users
  see the same text, what one user scans of the other compares equal, and the order in which
  several identity keys are listed does not matter.
\<close>

definition FINGERPRINT_VERSION :: byte where "FINGERPRINT_VERSION = 0"
definition FINGERPRINT_LENGTH :: nat where "FINGERPRINT_LENGTH = 30"

record displayable_fingerprint =
  df_local_fingerprint :: bytes
  df_remote_fingerprint :: bytes
  df_display_text :: bytes

record scannable_fingerprint =
  sf_version :: u32
  sf_local_stable_identifier :: "bytes option"
  sf_local_fingerprint :: "bytes option"
  sf_remote_stable_identifier :: "bytes option"
  sf_remote_fingerprint :: "bytes option"

record fingerprint =
  fp_displayable :: "displayable_fingerprint option"
  fp_scannable :: "scannable_fingerprint option"

record fingerprint_generator =
  fg_iterations :: int
  fg_scannable_version :: int

definition fingerprint_generator_create :: "int \<Rightarrow> int \<Rightarrow> fingerprint_generator result" where
  "fingerprint_generator_create iterations scannable_version =
     (if scannable_version < 0 \<or> scannable_version > 1 then Inl SG_ERR_INVAL
      else Inr \<lparr>fg_iterations = iterations, fg_scannable_version = scannable_version\<rparr>)"

section \<open>The two forms of a fingerprint\<close>

definition fingerprint_create ::
  "displayable_fingerprint option \<Rightarrow> scannable_fingerprint option \<Rightarrow> fingerprint" where
  "fingerprint_create displayable scannable = \<lparr>fp_displayable = displayable, fp_scannable = scannable\<rparr>"

definition fingerprint_get_displayable :: "fingerprint \<Rightarrow> displayable_fingerprint option" where
  "fingerprint_get_displayable fingerprint_val = fp_displayable fingerprint_val"

definition fingerprint_get_scannable :: "fingerprint \<Rightarrow> scannable_fingerprint option" where
  "fingerprint_get_scannable fingerprint_val = fp_scannable fingerprint_val"

definition displayable_fingerprint_create ::
  "bytes option \<Rightarrow> bytes option \<Rightarrow> displayable_fingerprint result" where
  "displayable_fingerprint_create local_fingerprint remote_fingerprint =
     (case (local_fingerprint, remote_fingerprint) of
        (Some local, Some remote) \<Rightarrow>
          Inr \<lparr>df_local_fingerprint = local, df_remote_fingerprint = remote,
               df_display_text = (if local \<le> remote then local @ remote else remote @ local)\<rparr>
      | _ \<Rightarrow> Inl SG_ERR_INVAL)"

definition displayable_fingerprint_local :: "displayable_fingerprint \<Rightarrow> bytes" where
  "displayable_fingerprint_local displayable = df_local_fingerprint displayable"

definition displayable_fingerprint_remote :: "displayable_fingerprint \<Rightarrow> bytes" where
  "displayable_fingerprint_remote displayable = df_remote_fingerprint displayable"

definition displayable_fingerprint_text :: "displayable_fingerprint \<Rightarrow> bytes" where
  "displayable_fingerprint_text displayable = df_display_text displayable"

definition scannable_fingerprint_create ::
  "u32 \<Rightarrow> bytes option \<Rightarrow> bytes option \<Rightarrow> bytes option \<Rightarrow> bytes option \<Rightarrow> scannable_fingerprint result" where
  "scannable_fingerprint_create version local_stable_identifier local_fingerprint remote_stable_identifier
       remote_fingerprint =
     (if version = 0 \<and> (local_stable_identifier = None \<or> remote_stable_identifier = None) then Inl SG_ERR_INVAL
      else if local_fingerprint = None \<or> remote_fingerprint = None then Inl SG_ERR_INVAL
      else
        let content = (\<lambda>b. if version = 0 then b else take 32 b) in
        Inr \<lparr>sf_version = version,
             sf_local_stable_identifier = (if version = 0 then local_stable_identifier else None),
             sf_local_fingerprint = map_option content local_fingerprint,
             sf_remote_stable_identifier = (if version = 0 then remote_stable_identifier else None),
             sf_remote_fingerprint = map_option content remote_fingerprint\<rparr>)"

definition logical_fingerprint :: "u32 \<Rightarrow> bytes option \<Rightarrow> bytes \<Rightarrow> Textsecure__LogicalFingerprint" where
  "logical_fingerprint version stable_identifier content =
     textsecure__logical_fingerprint__init
       \<lparr>LogicalFingerprint_identifier :=
          (if version = 0 then map_option signal_protocol_str_serialize_protobuf stable_identifier else None),
        LogicalFingerprint_content := Some content\<rparr>"

definition scannable_fingerprint_serialize :: "scannable_fingerprint \<Rightarrow> bytes result" where
  "scannable_fingerprint_serialize scannable =
     (let combined_fingerprint = textsecure__combined_fingerprints__init
            \<lparr>CombinedFingerprints_version := Some (sf_version scannable),
             CombinedFingerprints_localfingerprint :=
               map_option (logical_fingerprint (sf_version scannable) (sf_local_stable_identifier scannable))
                 (sf_local_fingerprint scannable),
             CombinedFingerprints_remotefingerprint :=
               map_option (logical_fingerprint (sf_version scannable) (sf_remote_stable_identifier scannable))
                 (sf_remote_fingerprint scannable)\<rparr>
      in checked_pack (textsecure__combined_fingerprints__get_packed_size combined_fingerprint)
           (textsecure__combined_fingerprints__pack combined_fingerprint))"

definition scannable_fingerprint_deserialize :: "bytes \<Rightarrow> scannable_fingerprint result" where
  "scannable_fingerprint_deserialize data =
     rbind (pb_result SG_ERR_INVALID_PROTO_BUF (textsecure__combined_fingerprints__unpack data))
       (\<lambda>combined_fingerprint.
     let version = (case CombinedFingerprints_version combined_fingerprint of None \<Rightarrow> 0 | Some v \<Rightarrow> v);
         identifier = (\<lambda>l. map_option signal_protocol_str_deserialize_protobuf (LogicalFingerprint_identifier l));
         local = CombinedFingerprints_localfingerprint combined_fingerprint;
         remote = CombinedFingerprints_remotefingerprint combined_fingerprint in
     scannable_fingerprint_create version
       (Option.bind local identifier) (Option.bind local LogicalFingerprint_content)
       (Option.bind remote identifier) (Option.bind remote LogicalFingerprint_content))"

definition scannable_fingerprint_get_version :: "scannable_fingerprint \<Rightarrow> u32" where
  "scannable_fingerprint_get_version scannable = sf_version scannable"

definition scannable_fingerprint_get_local_stable_identifier :: "scannable_fingerprint \<Rightarrow> bytes option" where
  "scannable_fingerprint_get_local_stable_identifier scannable = sf_local_stable_identifier scannable"

definition scannable_fingerprint_get_local_fingerprint :: "scannable_fingerprint \<Rightarrow> bytes option" where
  "scannable_fingerprint_get_local_fingerprint scannable = sf_local_fingerprint scannable"

definition scannable_fingerprint_get_remote_stable_identifier :: "scannable_fingerprint \<Rightarrow> bytes option" where
  "scannable_fingerprint_get_remote_stable_identifier scannable = sf_remote_stable_identifier scannable"

definition scannable_fingerprint_get_remote_fingerprint :: "scannable_fingerprint \<Rightarrow> bytes option" where
  "scannable_fingerprint_get_remote_fingerprint scannable = sf_remote_fingerprint scannable"

text \<open>\<open>strcmp\<close> of two strings, of which a null pointer is not one.\<close>

definition strcmp_differs :: "bytes option \<Rightarrow> bytes option \<Rightarrow> bool result" where
  "strcmp_differs s t = rbind (deref s) (\<lambda>s. rbind (deref t) (\<lambda>t. Inr (s \<noteq> t)))"

definition scannable_fingerprint_compare ::
  "scannable_fingerprint \<Rightarrow> scannable_fingerprint \<Rightarrow> int result" where
  "scannable_fingerprint_compare scannable other_scannable =
     (if sf_remote_fingerprint other_scannable = None \<or> sf_local_fingerprint other_scannable = None \<or>
         sf_version other_scannable \<noteq> sf_version scannable then Inl SG_ERR_FP_VERSION_MISMATCH
      else
        rbind (if sf_version scannable = 0 then
                 rbind (strcmp_differs (sf_local_stable_identifier scannable)
                          (sf_remote_stable_identifier other_scannable)) (\<lambda>differs.
                 if differs then Inl SG_ERR_FP_IDENT_MISMATCH
                 else
                   rbind (strcmp_differs (sf_remote_stable_identifier scannable)
                            (sf_local_stable_identifier other_scannable)) (\<lambda>differs.
                   if differs then Inl SG_ERR_FP_IDENT_MISMATCH else Inr ()))
               else Inr ()) (\<lambda>_.
        if signal_buffer_compare (sf_local_fingerprint scannable) (sf_remote_fingerprint other_scannable) \<noteq> 0 then Inr 0
        else if signal_buffer_compare (sf_remote_fingerprint scannable) (sf_local_fingerprint other_scannable) \<noteq> 0
        then Inr 0
        else Inr 1))"

section \<open>Generation\<close>

fun fingerprint_iterate ::
  "('h, 'd, 'w) signal_context \<Rightarrow> nat \<Rightarrow> 'd \<Rightarrow> bytes \<Rightarrow> bytes \<Rightarrow> bytes result" where
  "fingerprint_iterate context 0 digest_context hash_buffer identity_buffer = Inr hash_buffer"
| "fingerprint_iterate context (Suc i) digest_context hash_buffer identity_buffer =
     rbind (signal_sha512_digest_update context digest_context hash_buffer) (\<lambda>digest_context.
     rbind (signal_sha512_digest_update context digest_context identity_buffer) (\<lambda>digest_context.
     rbind (signal_sha512_digest_final context digest_context) (\<lambda>(hash_out_buffer, digest_context).
     fingerprint_iterate context i digest_context hash_out_buffer identity_buffer)))"

definition fingerprint_generator_get_fingerprint ::
  "('h, 'd, 'w) signal_context \<Rightarrow> fingerprint_generator \<Rightarrow> bytes \<Rightarrow> bytes \<Rightarrow> bytes result" where
  "fingerprint_generator_get_fingerprint context generator stable_identifier identity_buffer =
     rbind (signal_sha512_digest_init context) (\<lambda>digest_context.
     let hash_buffer = 0 # FINGERPRINT_VERSION # identity_buffer @ stable_identifier in
     rbind (fingerprint_iterate context (nat (fg_iterations generator)) digest_context hash_buffer identity_buffer)
       (\<lambda>hash_buffer.
     if length hash_buffer < FINGERPRINT_LENGTH then Inl SG_ERR_UNKNOWN else Inr hash_buffer))"

definition fingerprint_generator_create_display_string :: "bytes \<Rightarrow> bytes result" where
  "fingerprint_generator_create_display_string fingerprint_buffer =
     (if length fingerprint_buffer < FINGERPRINT_LENGTH then Inl SG_ERR_UNKNOWN
      else Inr (digest_digits fingerprint_buffer FINGERPRINT_LENGTH))"

definition fingerprint_generator_create_for_impl ::
  "('h, 'd, 'w) signal_context \<Rightarrow> fingerprint_generator \<Rightarrow> bytes \<Rightarrow> bytes \<Rightarrow> bytes \<Rightarrow> bytes \<Rightarrow> fingerprint result" where
  "fingerprint_generator_create_for_impl context generator local_stable_identifier local_identity_buffer
       remote_stable_identifier remote_identity_buffer =
     rbind (fingerprint_generator_get_fingerprint context generator local_stable_identifier local_identity_buffer)
       (\<lambda>local_fingerprint_buffer.
     rbind (fingerprint_generator_get_fingerprint context generator remote_stable_identifier remote_identity_buffer)
       (\<lambda>remote_fingerprint_buffer.
     rbind (fingerprint_generator_create_display_string local_fingerprint_buffer) (\<lambda>displayable_local.
     rbind (fingerprint_generator_create_display_string remote_fingerprint_buffer) (\<lambda>displayable_remote.
     rbind (displayable_fingerprint_create (Some displayable_local) (Some displayable_remote)) (\<lambda>displayable.
     rbind
       (if fg_scannable_version generator = 0 then
          scannable_fingerprint_create 0 (Some local_stable_identifier) (Some local_identity_buffer)
            (Some remote_stable_identifier) (Some remote_identity_buffer)
        else if fg_scannable_version generator = 1 then
          scannable_fingerprint_create 1 None (Some local_fingerprint_buffer) None (Some remote_fingerprint_buffer)
        else Inl SG_ERR_INVAL) (\<lambda>scannable.
     Inr (fingerprint_create (Some displayable) (Some scannable))))))))"

definition fingerprint_generator_create_for ::
  "('h, 'd, 'w) signal_context \<Rightarrow> fingerprint_generator \<Rightarrow> bytes \<Rightarrow> ec_public_key option \<Rightarrow> bytes \<Rightarrow>
     ec_public_key option \<Rightarrow> fingerprint result" where
  "fingerprint_generator_create_for context generator local_stable_identifier local_identity_key
       remote_stable_identifier remote_identity_key =
     rbind (ec_public_key_serialize local_identity_key) (\<lambda>local_key_buffer.
     rbind (ec_public_key_serialize remote_identity_key) (\<lambda>remote_key_buffer.
     fingerprint_generator_create_for_impl context generator local_stable_identifier local_key_buffer
       remote_stable_identifier remote_key_buffer))"

definition fingerprint_generator_get_logical_key_bytes :: "ec_public_key_list \<Rightarrow> bytes result" where
  "fingerprint_generator_get_logical_key_bytes unsorted_key_list =
     (let vp = vpool_init 1024 0;
          sorted_key_list = ec_public_key_list_sort (ec_public_key_list_copy unsorted_key_list) in
      rbind (vpool_insert_keys vp sorted_key_list) (\<lambda>vp.
      Inr (vpool_get_buf vp)))"

definition fingerprint_generator_create_for_list ::
  "('h, 'd, 'w) signal_context \<Rightarrow> fingerprint_generator \<Rightarrow> bytes \<Rightarrow> ec_public_key_list \<Rightarrow> bytes \<Rightarrow>
     ec_public_key_list \<Rightarrow> fingerprint result" where
  "fingerprint_generator_create_for_list context generator local_stable_identifier local_identity_key_list
       remote_stable_identifier remote_identity_key_list =
     rbind (fingerprint_generator_get_logical_key_bytes local_identity_key_list) (\<lambda>local_key_buffer.
     rbind (fingerprint_generator_get_logical_key_bytes remote_identity_key_list) (\<lambda>remote_key_buffer.
     fingerprint_generator_create_for_impl context generator local_stable_identifier local_key_buffer
       remote_stable_identifier remote_key_buffer))"

section \<open>What is compared\<close>

text \<open>Scannable fingerprints as they are created, and the one that the other user has.\<close>

definition scannable_fingerprint_ok :: "scannable_fingerprint \<Rightarrow> bool" where
  "scannable_fingerprint_ok s \<longleftrightarrow>
     sf_local_fingerprint s \<noteq> None \<and> sf_remote_fingerprint s \<noteq> None \<and>
     (if sf_version s = 0 then
        sf_local_stable_identifier s \<noteq> None \<and> sf_remote_stable_identifier s \<noteq> None \<and>
        pred_option c_string_ok (sf_local_stable_identifier s) \<and>
        pred_option c_string_ok (sf_remote_stable_identifier s)
      else
        sf_local_stable_identifier s = None \<and> sf_remote_stable_identifier s = None \<and>
        pred_option (\<lambda>b. length b \<le> 32) (sf_local_fingerprint s) \<and>
        pred_option (\<lambda>b. length b \<le> 32) (sf_remote_fingerprint s))"

definition mirrored :: "scannable_fingerprint \<Rightarrow> scannable_fingerprint" where
  "mirrored s = \<lparr>sf_version = sf_version s,
     sf_local_stable_identifier = sf_remote_stable_identifier s, sf_local_fingerprint = sf_remote_fingerprint s,
     sf_remote_stable_identifier = sf_local_stable_identifier s, sf_remote_fingerprint = sf_local_fingerprint s\<rparr>"

lemma scannable_create_ok:
  assumes "scannable_fingerprint_create v li lf ri rf = Inr s" "pred_option c_string_ok li" "pred_option c_string_ok ri"
  shows "scannable_fingerprint_ok s"
  using assms
  by (auto simp: scannable_fingerprint_create_def scannable_fingerprint_ok_def Let_def option.pred_map o_def
      pred_option_def split: if_splits)

lemma scannable_deserialize_ok:
  assumes "scannable_fingerprint_deserialize data = Inr s"
  shows "scannable_fingerprint_ok s"
proof -
  have string: "pred_option c_string_ok (Option.bind l (\<lambda>l. map_option signal_protocol_str_deserialize_protobuf (f l)))"
    for l :: "'x option" and f
    by (auto simp: pred_option_def signal_protocol_str_deserialize_protobuf_def c_string_ok_def c_string_def
        Option.bind_eq_Some_conv dest: set_takeWhileD)
  show ?thesis
    using assms by (auto simp: scannable_fingerprint_deserialize_def rbind_eq_Inr Let_def
        intro: scannable_create_ok string)
qed

text \<open>The comparison accepts exactly the fingerprint with the two sides exchanged.\<close>

lemma scannable_compare_iff:
  assumes "scannable_fingerprint_ok s" "scannable_fingerprint_ok t"
  shows "scannable_fingerprint_compare s t = Inr 1 \<longleftrightarrow> t = mirrored s"
  using assms
  by (cases s; cases t)
    (auto simp: scannable_fingerprint_compare_def scannable_fingerprint_ok_def mirrored_def strcmp_differs_def
      signal_buffer_compare_eq_0 simp del: signal_buffer_compare.simps split: if_splits)

lemma scannable_compare_returns:
  assumes "scannable_fingerprint_ok s" "scannable_fingerprint_ok t"
  shows "scannable_fingerprint_compare s t \<in> {Inr 0, Inr 1, Inl SG_ERR_FP_VERSION_MISMATCH, Inl SG_ERR_FP_IDENT_MISMATCH}"
  using assms
  by (auto simp: scannable_fingerprint_compare_def scannable_fingerprint_ok_def strcmp_differs_def
      simp del: signal_buffer_compare.simps split: if_splits)

section \<open>Scanning what was shown\<close>

lemma logical_fingerprint_size:
  "protobuf_c_message_get_packed_size (LogicalFingerprint_to_msg (logical_fingerprint v i c)) \<le>
     20 + length c + bytes_len i"
  using LogicalFingerprint_size [of "logical_fingerprint v i c"]
  by (cases i) (auto simp: logical_fingerprint_def textsecure__logical_fingerprint__init_def
      signal_protocol_str_serialize_protobuf_def split: if_splits)

lemma scannable_fingerprint_roundtrip:
  assumes "scannable_fingerprint_ok s"
    and "bytes_len (sf_local_stable_identifier s) < 2 ^ 24" "bytes_len (sf_remote_stable_identifier s) < 2 ^ 24"
    and "bytes_len (sf_local_fingerprint s) < 2 ^ 24" "bytes_len (sf_remote_fingerprint s) < 2 ^ 24"
  shows "rbind (scannable_fingerprint_serialize s) scannable_fingerprint_deserialize = Inr s"
proof -
  obtain lf rf where f: "sf_local_fingerprint s = Some lf" "sf_remote_fingerprint s = Some rf"
    using assms(1) by (auto simp: scannable_fingerprint_ok_def)
  let ?l = "logical_fingerprint (sf_version s) (sf_local_stable_identifier s) lf"
  let ?r = "logical_fingerprint (sf_version s) (sf_remote_stable_identifier s) rf"
  let ?m = "\<lparr>CombinedFingerprints_version = Some (sf_version s), CombinedFingerprints_localfingerprint = Some ?l,
    CombinedFingerprints_remotefingerprint = Some ?r\<rparr>"
  have "textsecure__combined_fingerprints__get_packed_size ?m < 2 ^ 27"
    using CombinedFingerprints_size [of ?m] logical_fingerprint_size [of "sf_version s" "sf_local_stable_identifier s" lf]
      logical_fingerprint_size [of "sf_version s" "sf_remote_stable_identifier s" rf] assms(2-5)
    by (simp add: textsecure__combined_fingerprints__get_packed_size_def f)
  then have "textsecure__combined_fingerprints__unpack (textsecure__combined_fingerprints__pack ?m) = Inr ?m"
    by (rule textsecure__combined_fingerprints__roundtrip)
  then have "rbind (scannable_fingerprint_serialize s) scannable_fingerprint_deserialize =
      scannable_fingerprint_create (sf_version s) (sf_local_stable_identifier s) (sf_local_fingerprint s)
        (sf_remote_stable_identifier s) (sf_remote_fingerprint s)"
    using assms(1)
    by (auto simp: scannable_fingerprint_serialize_def scannable_fingerprint_deserialize_def checked_pack_def f
        textsecure__combined_fingerprints__init_def logical_fingerprint_def textsecure__logical_fingerprint__init_def
        signal_protocol_str_serialize_protobuf_def signal_protocol_str_deserialize_protobuf_def
        scannable_fingerprint_ok_def split: if_splits)
  also have "\<dots> = Inr s"
    using assms(1) by (cases s) (auto simp: scannable_fingerprint_create_def scannable_fingerprint_ok_def)
  finally show ?thesis .
qed

section \<open>The digest\<close>

definition fingerprint_of :: "(bytes \<Rightarrow> bytes) \<Rightarrow> nat \<Rightarrow> bytes \<Rightarrow> bytes \<Rightarrow> bytes" where
  "fingerprint_of sha n stable_identifier identity =
     ((\<lambda>hash. sha (hash @ identity)) ^^ n) (0 # FINGERPRINT_VERSION # identity @ stable_identifier)"

lemma fingerprint_iterate_eq:
  assumes "sha512_spec context sha fresh" "fresh d"
  shows "fingerprint_iterate context n d hash identity = Inr (((\<lambda>hash. sha (hash @ identity)) ^^ n) hash)"
  using assms(2)
proof (induction n arbitrary: d hash)
  case (Suc n)
  obtain d1 d2 where "sha512_updates context d [hash, identity] = Inr d1"
    "signal_sha512_digest_final context d1 = Inr (sha (concat [hash, identity]), d2)" "fresh d2"
    by (rule sha512_specE [OF assms(1) Suc.prems])
  then show ?case
    using Suc.IH [of d2 "sha (hash @ identity)"] by (auto simp: rbind_eq_Inr funpow_Suc_right simp del: funpow.simps)
qed simp

lemma length_fingerprint_of:
  assumes "sha512_spec context sha fresh" "0 < n"
  shows "length (fingerprint_of sha n stable_identifier identity) = 64"
  using assms(2) length_sha512 [OF assms(1)] by (cases n) (simp_all add: fingerprint_of_def)

lemma get_fingerprint_eq:
  assumes "sha512_spec context sha fresh" "0 < fg_iterations generator"
  shows "fingerprint_generator_get_fingerprint context generator stable_identifier identity =
    Inr (fingerprint_of sha (nat (fg_iterations generator)) stable_identifier identity)"
proof -
  obtain d where "signal_sha512_digest_init context = Inr d" "fresh d"
    by (rule sha512_initE [OF assms(1)])
  then show ?thesis
    using fingerprint_iterate_eq [OF assms(1)] length_fingerprint_of [OF assms(1)] assms(2)
    by (simp add: fingerprint_generator_get_fingerprint_def fingerprint_of_def FINGERPRINT_LENGTH_def)
qed

text \<open>The fingerprint that a user with the first name and key sees of a user with the second.\<close>

definition fingerprint_pair ::
  "(bytes \<Rightarrow> bytes) \<Rightarrow> nat \<Rightarrow> int \<Rightarrow> bytes \<Rightarrow> bytes \<Rightarrow> bytes \<Rightarrow> bytes \<Rightarrow> fingerprint" where
  "fingerprint_pair sha n v li lk ri rk =
     (let lf = fingerprint_of sha n li lk; rf = fingerprint_of sha n ri rk;
          ld = digest_digits lf FINGERPRINT_LENGTH; rd = digest_digits rf FINGERPRINT_LENGTH in
      \<lparr>fp_displayable = Some \<lparr>df_local_fingerprint = ld, df_remote_fingerprint = rd,
         df_display_text = (if ld \<le> rd then ld @ rd else rd @ ld)\<rparr>,
       fp_scannable = Some (if v = 0
         then \<lparr>sf_version = 0, sf_local_stable_identifier = Some li, sf_local_fingerprint = Some lk,
               sf_remote_stable_identifier = Some ri, sf_remote_fingerprint = Some rk\<rparr>
         else \<lparr>sf_version = 1, sf_local_stable_identifier = None, sf_local_fingerprint = Some (take 32 lf),
               sf_remote_stable_identifier = None, sf_remote_fingerprint = Some (take 32 rf)\<rparr>)\<rparr>)"

lemma create_for_impl_eq:
  assumes "sha512_spec context sha fresh" "fingerprint_generator_create iterations v = Inr generator" "0 < iterations"
  shows "fingerprint_generator_create_for_impl context generator li lk ri rk =
    Inr (fingerprint_pair sha (nat iterations) v li lk ri rk)"
proof -
  have generator: "fg_iterations generator = iterations" "fg_scannable_version generator = v" "v = 0 \<or> v = 1"
    using assms(2) by (auto simp: fingerprint_generator_create_def split: if_splits)
  show ?thesis
    using get_fingerprint_eq [OF assms(1), of generator] length_fingerprint_of [OF assms(1), of "nat iterations"]
      generator assms(3)
    by (auto simp: fingerprint_generator_create_for_impl_def fingerprint_pair_def Let_def FINGERPRINT_LENGTH_def
        fingerprint_generator_create_display_string_def displayable_fingerprint_create_def
        scannable_fingerprint_create_def fingerprint_create_def)
qed

lemma fingerprint_pair_text:
  "df_display_text (the (fp_displayable (fingerprint_pair sha n v ri rk li lk))) =
   df_display_text (the (fp_displayable (fingerprint_pair sha n v li lk ri rk)))"
  by (simp add: fingerprint_pair_def Let_def) (use linear in blast)

lemma fingerprint_pair_digits:
  "length (df_display_text (the (fp_displayable (fingerprint_pair sha n v li lk ri rk)))) = 60"
  "list_all is_digit (df_display_text (the (fp_displayable (fingerprint_pair sha n v li lk ri rk))))"
  using digest_digits_digits
  by (simp_all add: fingerprint_pair_def Let_def length_digest_digits FINGERPRINT_LENGTH_def)

lemma fingerprint_pair_mirrored:
  "the (fp_scannable (fingerprint_pair sha n v ri rk li lk)) = mirrored (the (fp_scannable (fingerprint_pair sha n v li lk ri rk)))"
  by (simp add: fingerprint_pair_def mirrored_def Let_def)

lemma fingerprint_pair_ok:
  assumes "c_string_ok li" "c_string_ok ri"
  shows "scannable_fingerprint_ok (the (fp_scannable (fingerprint_pair sha n v li lk ri rk)))"
  using assms by (simp add: fingerprint_pair_def scannable_fingerprint_ok_def Let_def)

text \<open>
  Two users with the same view of each other's names and keys: the texts they read out are the
  same, and what one scans of the other is accepted.
\<close>

lemma fingerprints_agree:
  assumes "sha512_spec context sha fresh" "fingerprint_generator_create iterations v = Inr generator" "0 < iterations"
    and names: "c_string_ok li" "c_string_ok ri" "length li < 2 ^ 24" "length ri < 2 ^ 24"
    and keys: "length lk < 2 ^ 24" "length rk < 2 ^ 24"
  shows "\<exists>f g df dg sf sg data.
    fingerprint_generator_create_for_impl context generator li lk ri rk = Inr f \<and>
    fingerprint_generator_create_for_impl context generator ri rk li lk = Inr g \<and>
    fingerprint_get_displayable f = Some df \<and> fingerprint_get_displayable g = Some dg \<and>
    displayable_fingerprint_text df = displayable_fingerprint_text dg \<and>
    length (displayable_fingerprint_text df) = 60 \<and> list_all is_digit (displayable_fingerprint_text df) \<and>
    fingerprint_get_scannable f = Some sf \<and> fingerprint_get_scannable g = Some sg \<and>
    scannable_fingerprint_serialize sg = Inr data \<and>
    rbind (scannable_fingerprint_deserialize data) (scannable_fingerprint_compare sf) = Inr 1"
proof -
  let ?f = "fingerprint_pair sha (nat iterations) v li lk ri rk"
    and ?g = "fingerprint_pair sha (nat iterations) v ri rk li lk"
  have some: "\<exists>d s. fingerprint_pair sha n v li lk ri rk = \<lparr>fp_displayable = Some d, fp_scannable = Some s\<rparr>" for n li lk ri rk
    by (simp add: fingerprint_pair_def Let_def)
  obtain df sf where f: "?f = \<lparr>fp_displayable = Some df, fp_scannable = Some sf\<rparr>"
    using some by blast
  obtain dg sg where g: "?g = \<lparr>fp_displayable = Some dg, fp_scannable = Some sg\<rparr>"
    using some by blast
  have ok: "scannable_fingerprint_ok sf" "scannable_fingerprint_ok sg"
    using fingerprint_pair_ok [OF names(1,2), of sha "nat iterations" v lk rk]
      fingerprint_pair_ok [OF names(2,1), of sha "nat iterations" v rk lk] f g by simp_all
  have "sg = \<lparr>sf_version = 0, sf_local_stable_identifier = Some ri, sf_local_fingerprint = Some rk,
      sf_remote_stable_identifier = Some li, sf_remote_fingerprint = Some lk\<rparr> \<or>
    (\<exists>a b. sg = \<lparr>sf_version = 1, sf_local_stable_identifier = None, sf_local_fingerprint = Some (take 32 a),
      sf_remote_stable_identifier = None, sf_remote_fingerprint = Some (take 32 b)\<rparr>)"
    using g by (auto simp: fingerprint_pair_def Let_def split: if_splits)
  then have "rbind (scannable_fingerprint_serialize sg) scannable_fingerprint_deserialize = Inr sg"
    using names keys by (intro scannable_fingerprint_roundtrip [OF ok(2)]) auto
  then obtain data where data: "scannable_fingerprint_serialize sg = Inr data"
    "scannable_fingerprint_deserialize data = Inr sg"
    by (auto simp: rbind_eq_Inr)
  have "sg = mirrored sf"
    using fingerprint_pair_mirrored [of sha "nat iterations" v ri rk li lk] f g by simp
  then have "scannable_fingerprint_compare sf sg = Inr 1"
    using scannable_compare_iff [OF ok] by simp
  then show ?thesis
    using create_for_impl_eq [OF assms(1-3)] f g data
      fingerprint_pair_text [of sha "nat iterations" v ri rk li lk]
      fingerprint_pair_digits [of sha "nat iterations" v li lk ri rk]
    by (intro exI [of _ ?f] exI [of _ ?g] exI [of _ df] exI [of _ dg] exI [of _ sf] exI [of _ sg] exI [of _ data])
      (simp add: fingerprint_get_displayable_def fingerprint_get_scannable_def displayable_fingerprint_text_def)
qed

section \<open>Several identity keys\<close>

lemma sort_mset: "mset xs = mset ys \<Longrightarrow> sort xs = sort (ys :: ec_public_key list)"
  by (metis sorted_list_of_multiset_mset)

lemma logical_key_bytes_eq:
  assumes "length (key_bytes l) < 2 ^ 63"
  shows "fingerprint_generator_get_logical_key_bytes l = Inr (key_bytes (sort l))"
proof -
  have len: "length (key_bytes (sort l)) = length (key_bytes l)"
    by (simp add: key_bytes_def length_concat o_def flip: sum_mset_sum_list)
  have "vpool_ok (vpool_init 1024 0)" "v_off (vpool_init 1024 0) = 0" "v_blksize (vpool_init 1024 0) = 1024"
    "v_limit (vpool_init 1024 0) = SIZE_MAX" "vpool_get_buf (vpool_init 1024 0) = []"
    using vpool_init_ok [of 0 1024] vpool_init_contents [of 1024 0] by (simp_all add: vpool_init_def)
  then show ?thesis
    using vpool_insert_keys_eq [of "vpool_init 1024 0" "sort l"] assms
    by (auto simp: fingerprint_generator_get_logical_key_bytes_def ec_public_key_list_copy_eq
        ec_public_key_list_sort_def len SIZE_MAX_def)
qed

lemma create_for_list_order:
  assumes "mset l = mset l'" "mset r = mset r'"
  shows "fingerprint_generator_create_for_list context generator li l ri r =
    fingerprint_generator_create_for_list context generator li l' ri r'"
  using sort_mset [OF assms(1)] sort_mset [OF assms(2)]
  by (simp add: fingerprint_generator_create_for_list_def fingerprint_generator_get_logical_key_bytes_def
      ec_public_key_list_copy_eq ec_public_key_list_sort_def)

end
