(* ===== verification/Device_Consistency.thy ===== *)
theory Device_Consistency
  imports Digest_Codes WhisperTextProtocol "HOL-Library.Product_Lexorder" "HOL-Library.Multiset"
begin

text \<open>
  \<open>device_consistency.c\<close>: the devices of a user commit to their list of identity keys, sign the
  commitment with a verifiable random function and compare a short code.

  The lemmas: commitment and code do not depend on the order of keys and signatures, the code
  is six decimal digits, and a device accepts the message that another made for the same
  commitment, with the same output of the random function.
\<close>

definition CODE_VERSION :: u32 where "CODE_VERSION = 0"

record device_consistency_signature =
  dcs_signature :: bytes
  dcs_vrf_output :: bytes

record device_consistency_commitment =
  dcc_generation :: u32
  dcc_serialized :: bytes

record device_consistency_message =
  dcm_signature :: device_consistency_signature
  dcm_generation :: u32
  dcm_serialized :: bytes

type_synonym device_consistency_signature_list = "device_consistency_signature list"

section \<open>Signatures and commitments\<close>

definition device_consistency_signature_create :: "bytes \<Rightarrow> bytes \<Rightarrow> device_consistency_signature" where
  "device_consistency_signature_create signature_data vrf_output_data =
     \<lparr>dcs_signature = signature_data, dcs_vrf_output = vrf_output_data\<rparr>"

definition device_consistency_signature_get_signature :: "device_consistency_signature \<Rightarrow> bytes" where
  "device_consistency_signature_get_signature signature = dcs_signature signature"

definition device_consistency_signature_get_vrf_output :: "device_consistency_signature \<Rightarrow> bytes" where
  "device_consistency_signature_get_vrf_output signature = dcs_vrf_output signature"

text \<open>The characters of \<open>"DeviceConsistencyCommitment_V0"\<close>.\<close>

definition commitment_version :: bytes where
  "commitment_version = [68, 101, 118, 105, 99, 101, 67, 111, 110, 115, 105, 115, 116, 101, 110, 99, 121,
     67, 111, 109, 109, 105, 116, 109, 101, 110, 116, 95, 86, 48]"

definition generation_bytes :: "u32 \<Rightarrow> bytes" where
  "generation_bytes generation =
     [ucast (drop_bit 24 generation), ucast (drop_bit 16 generation), ucast (drop_bit 8 generation), ucast generation]"

fun commitment_update_keys ::
  "('h, 'd, 'w) signal_context \<Rightarrow> 'd \<Rightarrow> ec_public_key list \<Rightarrow> 'd result" where
  "commitment_update_keys context digest_context [] = Inr digest_context"
| "commitment_update_keys context digest_context (key # rest) =
     rbind (ec_public_key_serialize (Some key)) (\<lambda>key_buffer.
     rbind (signal_sha512_digest_update context digest_context key_buffer) (\<lambda>digest_context.
     commitment_update_keys context digest_context rest))"

definition device_consistency_commitment_create ::
  "('h, 'd, 'w) signal_context \<Rightarrow> u32 \<Rightarrow> ec_public_key_list \<Rightarrow> device_consistency_commitment result" where
  "device_consistency_commitment_create context generation identity_key_list =
     (let sorted_list = ec_public_key_list_sort (ec_public_key_list_copy identity_key_list) in
      rbind (signal_sha512_digest_init context) (\<lambda>digest_context.
      rbind (signal_sha512_digest_update context digest_context commitment_version) (\<lambda>digest_context.
      rbind (signal_sha512_digest_update context digest_context (generation_bytes generation)) (\<lambda>digest_context.
      rbind (commitment_update_keys context digest_context sorted_list) (\<lambda>digest_context.
      rbind (signal_sha512_digest_final context digest_context) (\<lambda>(serialized, _).
      Inr \<lparr>dcc_generation = generation, dcc_serialized = serialized\<rparr>))))))"

definition device_consistency_commitment_get_generation :: "device_consistency_commitment \<Rightarrow> u32" where
  "device_consistency_commitment_get_generation commitment = dcc_generation commitment"

definition device_consistency_commitment_get_serialized :: "device_consistency_commitment \<Rightarrow> bytes" where
  "device_consistency_commitment_get_serialized commitment = dcc_serialized commitment"

section \<open>Messages\<close>

definition device_consistency_message_create_from_pair ::
  "('h, 'd, 'w) signal_context \<Rightarrow> device_consistency_commitment \<Rightarrow> ec_key_pair \<Rightarrow>
     ('w, device_consistency_message) act" where
  "device_consistency_message_create_from_pair context commitment identity_key_pair w =
     (let commitment_buffer = device_consistency_commitment_get_serialized commitment in
      case
        sbind (curve_calculate_vrf_signature context (private_key identity_key_pair) commitment_buffer)
          (\<lambda>signature_buffer.
        sbind (slift (curve_verify_vrf_signature context (Some (public_key identity_key_pair))
                 (Some commitment_buffer) (Some signature_buffer))) (\<lambda>vrf_output_buffer.
        let signature = device_consistency_signature_create signature_buffer vrf_output_buffer;
            message_structure = textsecure__device_consistency_code_message__init
              \<lparr>DeviceConsistencyCodeMessage_generation := Some (device_consistency_commitment_get_generation commitment),
               DeviceConsistencyCodeMessage_signature := Some (device_consistency_signature_get_signature signature)\<rparr> in
        sbind (slift (checked_pack (textsecure__device_consistency_code_message__get_packed_size message_structure)
                 (textsecure__device_consistency_code_message__pack message_structure))) (\<lambda>serialized.
        sreturn \<lparr>dcm_signature = signature,
                 dcm_generation = device_consistency_commitment_get_generation commitment,
                 dcm_serialized = serialized\<rparr>))) w
      of (Inl e, w') \<Rightarrow>
           (Inl (if e = SG_ERR_INVALID_KEY \<or> e = SG_ERR_VRF_SIG_VERIF_FAILED then SG_ERR_UNKNOWN else e), w')
       | (Inr result_message, w') \<Rightarrow> (Inr result_message, w'))"

definition device_consistency_message_create_from_serialized ::
  "('h, 'd, 'w) signal_context \<Rightarrow> device_consistency_commitment \<Rightarrow> bytes \<Rightarrow> ec_public_key option \<Rightarrow>
     device_consistency_message result" where
  "device_consistency_message_create_from_serialized context commitment serialized_data identity_key =
     (case
        rbind (pb_result SG_ERR_INVALID_PROTO_BUF (textsecure__device_consistency_code_message__unpack serialized_data))
          (\<lambda>message_structure.
        case (DeviceConsistencyCodeMessage_generation message_structure,
              DeviceConsistencyCodeMessage_signature message_structure) of
          (Some generation, Some signature) \<Rightarrow>
            rbind (curve_verify_vrf_signature context identity_key
                     (Some (device_consistency_commitment_get_serialized commitment)) (Some signature))
              (\<lambda>vrf_output_buffer.
            Inr \<lparr>dcm_signature = device_consistency_signature_create signature vrf_output_buffer,
                 dcm_generation = generation, dcm_serialized = serialized_data\<rparr>)
        | _ \<Rightarrow> Inl SG_ERR_INVALID_PROTO_BUF)
      of Inl e \<Rightarrow>
           Inl (if e = SG_ERR_INVALID_PROTO_BUF \<or> e = SG_ERR_INVALID_KEY \<or> e = SG_ERR_VRF_SIG_VERIF_FAILED
                then SG_ERR_INVALID_MESSAGE else e)
       | Inr result_message \<Rightarrow> Inr result_message)"

definition device_consistency_message_get_serialized :: "device_consistency_message \<Rightarrow> bytes" where
  "device_consistency_message_get_serialized message = dcm_serialized message"

definition device_consistency_message_get_signature ::
  "device_consistency_message \<Rightarrow> device_consistency_signature" where
  "device_consistency_message_get_signature message = dcm_signature message"

definition device_consistency_signature_get_generation :: "device_consistency_message \<Rightarrow> u32" where
  "device_consistency_signature_get_generation message = dcm_generation message"

section \<open>Lists of signatures\<close>

definition device_consistency_signature_list_push_back ::
  "device_consistency_signature_list \<Rightarrow> device_consistency_signature \<Rightarrow> device_consistency_signature_list" where
  "device_consistency_signature_list_push_back l value = l @ [value]"

definition device_consistency_signature_list_copy ::
  "device_consistency_signature_list \<Rightarrow> device_consistency_signature_list" where
  "device_consistency_signature_list_copy l = foldl device_consistency_signature_list_push_back [] l"

definition device_consistency_signature_list_size :: "device_consistency_signature_list \<Rightarrow> nat" where
  "device_consistency_signature_list_size l = length l"

definition device_consistency_signature_list_at ::
  "device_consistency_signature_list \<Rightarrow> nat \<Rightarrow> device_consistency_signature result" where
  "device_consistency_signature_list_at l index = (if index < length l then Inr (l ! index) else Inl SG_ABORT)"

text \<open>
  The comparison of two signatures: by the length of the outputs, then bytewise. \<open>qsort\<close> may
  order signatures with equal outputs as it likes, and only the outputs are read after sorting.
\<close>

definition device_consistency_signature_list_sort_comparator ::
  "device_consistency_signature \<Rightarrow> device_consistency_signature \<Rightarrow> int" where
  "device_consistency_signature_list_sort_comparator sig1 sig2 =
     (let buf1 = device_consistency_signature_get_vrf_output sig1;
          buf2 = device_consistency_signature_get_vrf_output sig2 in
      if length buf1 = length buf2 then memcmp buf1 buf2 (length buf1)
      else if length buf1 < length buf2 then -1
      else 1)"

definition device_consistency_signature_list_sort ::
  "device_consistency_signature_list \<Rightarrow> device_consistency_signature_list" where
  "device_consistency_signature_list_sort l = sort_key (\<lambda>s. (length (dcs_vrf_output s), dcs_vrf_output s)) l"

section \<open>The code\<close>

definition device_consistency_code_generate_for ::
  "('h, 'd, 'w) signal_context \<Rightarrow> device_consistency_commitment \<Rightarrow> device_consistency_signature_list \<Rightarrow>
     bytes result" where
  "device_consistency_code_generate_for context commitment signatures =
     (let sorted_list = device_consistency_signature_list_sort (device_consistency_signature_list_copy signatures);
          version_data = [ucast (drop_bit 8 CODE_VERSION), ucast CODE_VERSION] in
      rbind (signal_sha512_digest_init context) (\<lambda>digest_context.
      rbind (signal_sha512_digest_update context digest_context version_data) (\<lambda>digest_context.
      rbind (signal_sha512_digest_update context digest_context
               (device_consistency_commitment_get_serialized commitment)) (\<lambda>digest_context.
      rbind (sha512_updates context digest_context
               (map device_consistency_signature_get_vrf_output sorted_list)) (\<lambda>digest_context.
      rbind (signal_sha512_digest_final context digest_context) (\<lambda>(hash_buffer, _).
      if length hash_buffer < 10 then Inl SG_ERR_UNKNOWN
      else
        let encoded_string = digest_digits hash_buffer 10 in
        Inr (take 6 encoded_string)))))))"

section \<open>The order of keys and signatures\<close>

lemma memcmp_le: "length a = length b \<Longrightarrow> memcmp a b (length a) \<le> 0 \<longleftrightarrow> a \<le> b"
  using memcmp_order [of a b "length a"] by (auto simp: le_less)

lemma sort_comparator_le:
  "device_consistency_signature_list_sort_comparator s t \<le> 0 \<longleftrightarrow>
    (length (dcs_vrf_output s), dcs_vrf_output s) \<le> (length (dcs_vrf_output t), dcs_vrf_output t)"
  using memcmp_le [of "dcs_vrf_output s" "dcs_vrf_output t"]
  by (auto simp: device_consistency_signature_list_sort_comparator_def
      device_consistency_signature_get_vrf_output_def Let_def)

text \<open>The sorted list is a permutation that the comparison finds in order.\<close>

lemma signature_list_sort_sorted:
  "mset (device_consistency_signature_list_sort l) = mset l"
  "sorted_wrt (\<lambda>s t. device_consistency_signature_list_sort_comparator s t \<le> 0) (device_consistency_signature_list_sort l)"
proof -
  have "sorted (map (\<lambda>s. (length (dcs_vrf_output s), dcs_vrf_output s)) (device_consistency_signature_list_sort l))"
    by (simp add: device_consistency_signature_list_sort_def)
  then show "sorted_wrt (\<lambda>s t. device_consistency_signature_list_sort_comparator s t \<le> 0)
      (device_consistency_signature_list_sort l)"
    by (simp add: sorted_map sort_comparator_le)
qed (simp add: device_consistency_signature_list_sort_def)

lemma signature_list_copy_eq: "device_consistency_signature_list_copy l = l"
proof -
  have "foldl device_consistency_signature_list_push_back xs l = xs @ l" for xs
    by (induction l arbitrary: xs) (simp_all add: device_consistency_signature_list_push_back_def)
  then show ?thesis
    by (simp add: device_consistency_signature_list_copy_def)
qed

text \<open>Every order that the comparison allows has the same outputs.\<close>

lemma sorted_outputs:
  assumes "mset l' = mset l" "sorted_wrt (\<lambda>s t. device_consistency_signature_list_sort_comparator s t \<le> 0) l'"
  shows "map dcs_vrf_output l' = sort_key (\<lambda>v. (length v, v)) (map dcs_vrf_output l)"
proof (rule sort_key_inj_key_eq [symmetric])
  show "sorted (map (\<lambda>v. (length v, v)) (map dcs_vrf_output l'))"
    using assms(2) by (simp add: sorted_map sort_comparator_le)
qed (use assms(1) in \<open>auto simp: inj_on_def mset_map\<close>)

section \<open>Commitment and code\<close>

lemma commitment_update_keys_eq:
  "commitment_update_keys context d ks = sha512_updates context d (map (\<lambda>k. DJB_TYPE # ec_public_data k) ks)"
  by (induction ks arbitrary: d) (simp_all add: ec_public_key_serialize_def)

lemma commitment_create_eq:
  assumes "sha512_spec context sha fresh"
  shows "device_consistency_commitment_create context generation keys =
    Inr \<lparr>dcc_generation = generation,
         dcc_serialized = sha (commitment_version @ generation_bytes generation @ key_bytes (sort keys))\<rparr>"
proof -
  let ?parts = "commitment_version # generation_bytes generation # map (\<lambda>k. DJB_TYPE # ec_public_data k) (sort keys)"
  obtain d where d: "signal_sha512_digest_init context = Inr d" "fresh d"
    by (rule sha512_initE [OF assms])
  obtain d1 d2 where "sha512_updates context d ?parts = Inr d1"
    "signal_sha512_digest_final context d1 = Inr (sha (concat ?parts), d2)" "fresh d2"
    by (rule sha512_specE [OF assms d(2)])
  then show ?thesis
    using d(1)
    by (auto simp: device_consistency_commitment_create_def ec_public_key_list_copy_eq ec_public_key_list_sort_def
        commitment_update_keys_eq rbind_eq_Inr key_bytes_def)
qed

lemma code_generate_eq:
  assumes "sha512_spec context sha fresh"
  shows "device_consistency_code_generate_for context commitment signatures =
    Inr (take 6 (digest_digits (sha ([0, 0] @ dcc_serialized commitment @
      concat (sort_key (\<lambda>v. (length v, v)) (map dcs_vrf_output signatures)))) 10))"
proof -
  let ?parts = "[0, 0] # dcc_serialized commitment # sort_key (\<lambda>v. (length v, v)) (map dcs_vrf_output signatures)"
  have outputs: "map device_consistency_signature_get_vrf_output (device_consistency_signature_list_sort signatures) =
      sort_key (\<lambda>v. (length v, v)) (map dcs_vrf_output signatures)"
    using sorted_outputs [OF signature_list_sort_sorted]
    by (simp add: device_consistency_signature_get_vrf_output_def [abs_def])
  obtain d where d: "signal_sha512_digest_init context = Inr d" "fresh d"
    by (rule sha512_initE [OF assms])
  obtain d1 d2 where run: "sha512_updates context d ?parts = Inr d1"
    "signal_sha512_digest_final context d1 = Inr (sha (concat ?parts), d2)" "fresh d2"
    by (rule sha512_specE [OF assms d(2)])
  obtain da db where "signal_sha512_digest_update context d [0, 0] = Inr da"
    "signal_sha512_digest_update context da (dcc_serialized commitment) = Inr db"
    "sha512_updates context db (sort_key (\<lambda>v. (length v, v)) (map dcs_vrf_output signatures)) = Inr d1"
    using run(1) by (auto simp: rbind_eq_Inr)
  then show ?thesis
    using d(1) run(2) length_sha512 [OF assms]
    by (simp add: device_consistency_code_generate_for_def signature_list_copy_eq outputs CODE_VERSION_def
        device_consistency_commitment_get_serialized_def)
qed

lemma sort_outputs_mset:
  "mset vs = mset ws \<Longrightarrow> sort_key (\<lambda>v. (length v, v)) vs = sort_key (\<lambda>v. (length v, v)) (ws :: bytes list)"
  by (rule sort_key_inj_key_eq) (auto simp: inj_on_def)

text \<open>Devices that list the same keys and outputs, in whatever order, show the same six digits.\<close>

lemma codes_agree:
  assumes spec: "sha512_spec context sha fresh" and keys: "mset keys = mset keys'"
    and outputs: "mset (map dcs_vrf_output sigs) = mset (map dcs_vrf_output sigs')"
  shows "\<exists>c code. device_consistency_commitment_create context generation keys = Inr c \<and>
    device_consistency_commitment_create context generation keys' = Inr c \<and>
    device_consistency_code_generate_for context c sigs = Inr code \<and>
    device_consistency_code_generate_for context c sigs' = Inr code \<and>
    length code = 6 \<and> list_all is_digit code"
proof -
  have "sort keys = sort keys'"
    using keys by (metis sorted_list_of_multiset_mset)
  moreover have "length (take 6 (digest_digits data 10)) = 6" "list_all is_digit (take 6 (digest_digits data 10))" for data
    using digest_digits_digits by (simp_all add: length_digest_digits list_all_take)
  ultimately show ?thesis
    by (simp add: commitment_create_eq [OF spec] code_generate_eq [OF spec] sort_outputs_mset [OF outputs])
qed

section \<open>Messages\<close>

lemma message_accepted:
  assumes "device_consistency_message_create_from_pair context commitment pair w = (Inr m, w')"
  shows "device_consistency_message_create_from_serialized context commitment (dcm_serialized m)
    (Some (public_key pair)) = Inr m"
proof -
  obtain sig w1 out where sig: "curve_verify_vrf_signature context (Some (public_key pair))
      (Some (dcc_serialized commitment)) (Some sig) = Inr out"
    and m: "dcm_signature m = \<lparr>dcs_signature = sig, dcs_vrf_output = out\<rparr>" "dcm_generation m = dcc_generation commitment"
      "dcm_serialized m = textsecure__device_consistency_code_message__pack
         \<lparr>DeviceConsistencyCodeMessage_generation = Some (dcc_generation commitment),
          DeviceConsistencyCodeMessage_signature = Some sig\<rparr>"
    using assms
    by (auto simp: device_consistency_message_create_from_pair_def sbind_eq_Inr Let_def checked_pack_def slift_eq_Inr
        device_consistency_commitment_get_serialized_def device_consistency_commitment_get_generation_def
        device_consistency_signature_create_def device_consistency_signature_get_signature_def
        textsecure__device_consistency_code_message__init_def
        simp del: slift_eq split: prod.splits sum.splits if_splits)
  let ?st = "\<lparr>DeviceConsistencyCodeMessage_generation = Some (dcc_generation commitment),
    DeviceConsistencyCodeMessage_signature = Some sig\<rparr>"
  have "length sig = VRF_SIGNATURE_LEN"
    using sig by (simp add: curve_verify_vrf_signature_def split: if_splits)
  then have "textsecure__device_consistency_code_message__get_packed_size ?st < 2 ^ 27"
    using DeviceConsistencyCodeMessage_size [of ?st]
    by (simp add: textsecure__device_consistency_code_message__get_packed_size_def VRF_SIGNATURE_LEN_def)
  then have "textsecure__device_consistency_code_message__unpack (dcm_serialized m) = Inr ?st"
    unfolding m(3) by (rule textsecure__device_consistency_code_message__roundtrip)
  then show ?thesis
    using sig m
    by (cases m) (simp add: device_consistency_message_create_from_serialized_def
        device_consistency_commitment_get_serialized_def device_consistency_signature_create_def)
qed

lemma message_verified:
  assumes "device_consistency_message_create_from_serialized context commitment data (Some key) = Inr m"
  shows "generalized_xveddsa_25519_verify context (dcs_signature (dcm_signature m)) (ec_public_data key) (dcc_serialized commitment) =
    Some (dcs_vrf_output (dcm_signature m))"
proof -
  obtain st :: Textsecure__DeviceConsistencyCodeMessage where
    "(case (DeviceConsistencyCodeMessage_generation st, DeviceConsistencyCodeMessage_signature st) of
      (Some generation, Some signature) \<Rightarrow>
        rbind (curve_verify_vrf_signature context (Some key) (Some (dcc_serialized commitment)) (Some signature)) (\<lambda>out.
        Inr \<lparr>dcm_signature = device_consistency_signature_create signature out, dcm_generation = generation, dcm_serialized = data\<rparr>)
    | _ \<Rightarrow> Inl SG_ERR_INVALID_PROTO_BUF) = Inr m"
    using assms
    unfolding device_consistency_message_create_from_serialized_def device_consistency_commitment_get_serialized_def
    by (auto simp: rbind_eq_Inr split: sum.split_asm)
  then obtain signature out where "curve_verify_vrf_signature context (Some key) (Some (dcc_serialized commitment)) (Some signature) = Inr out"
    "dcm_signature m = device_consistency_signature_create signature out"
    by (auto simp: rbind_eq_Inr split: option.split_asm)
  then show ?thesis
    by (auto simp: curve_verify_vrf_signature_def device_consistency_signature_create_def split: option.split_asm if_split_asm)
qed

lemma message_forged:
  assumes "textsecure__device_consistency_code_message__unpack data = Inr st"
    and "DeviceConsistencyCodeMessage_signature st = Some sig"
    and "generalized_xveddsa_25519_verify context sig (ec_public_data key) (dcc_serialized commitment) = None"
  shows "device_consistency_message_create_from_serialized context commitment data (Some key) = Inl SG_ERR_INVALID_MESSAGE"
  using assms
  by (auto simp: device_consistency_message_create_from_serialized_def curve_verify_vrf_signature_def
      device_consistency_commitment_get_serialized_def split: option.splits)

end
