(* ===== verification/Reference_Context.thy ===== *)
theory Reference_Context
  imports Digest_Codes Store
begin

text \<open>
  A crypto provider and an application store with which the properties are applied to concrete
  inputs. The provider satisfies what the library relies on, with the simplest functions that
  do: truncation and padding as digests, exclusive or as key agreement, the identity as cipher,
  a counter as random number generator. The store keeps everything in memory, as the in-memory
  stores of the library's tests do. None of it models code of the library.
\<close>

section \<open>The world\<close>

record world =
  w_counter :: byte
  w_sessions :: "(signal_protocol_address \<times> bytes \<times> bytes option) list"
  w_pre_keys :: "(u32 \<times> bytes) list"
  w_signed_pre_keys :: "(u32 \<times> bytes) list"
  w_sender_keys :: "(signal_protocol_sender_key_name \<times> bytes \<times> bytes option) list"
  w_identities :: "(signal_protocol_address \<times> bytes) list"
  w_identity :: "bytes \<times> bytes"
  w_registration_id :: u32

definition new_world :: "byte \<Rightarrow> world" where
  "new_world n = \<lparr>w_counter = n, w_sessions = [], w_pre_keys = [], w_signed_pre_keys = [], w_sender_keys = [],
     w_identities = [], w_identity = ([], []), w_registration_id = 1\<rparr>"

section \<open>The provider\<close>

definition pad :: "nat \<Rightarrow> bytes \<Rightarrow> bytes" where
  "pad n data = take n (data @ replicate n 0)"

definition ref_mac :: "bytes \<Rightarrow> bytes \<Rightarrow> bytes" where
  "ref_mac key data = pad 32 (key @ data)"

definition ref_sha :: "bytes \<Rightarrow> bytes" where
  "ref_sha data = pad 64 data"

definition ref_dh :: "bytes \<Rightarrow> bytes \<Rightarrow> bytes" where
  "ref_dh s p = map2 (XOR) (pad 32 s) (pad 32 p)"

definition ref_random :: "nat \<Rightarrow> (world, bytes) act" where
  "ref_random n w = (Inr (replicate n (w_counter w)), w\<lparr>w_counter := w_counter w + 1\<rparr>)"

definition ref_context :: "(bytes \<times> bytes, bytes, world) signal_context" where
  "ref_context =
     \<lparr>curve25519_donna = (\<lambda>s p. Some (ref_dh s p)),
      curve25519_verify = (\<lambda>sig pub msg. sig = replicate 64 1),
      curve25519_sign = (\<lambda>key msg random. Inr (replicate 64 1)),
      generalized_xveddsa_25519_verify =
        (\<lambda>sig pub msg. if sig = replicate 96 1 then Some (ref_mac pub msg) else None),
      generalized_xveddsa_25519_sign = (\<lambda>key msg random. Some (replicate 96 1)),
      random_func = ref_random,
      hmac_sha256_init_func = (\<lambda>key. Inr (key, [])),
      hmac_sha256_update_func = (\<lambda>(key, data) more. Inr (key, data @ more)),
      hmac_sha256_final_func = (\<lambda>(key, data). Inr (ref_mac key data)),
      sha512_digest_init_func = Inr [],
      sha512_digest_update_func = (\<lambda>data more. Inr (data @ more)),
      sha512_digest_final_func = (\<lambda>data. Inr (ref_sha data, [])),
      encrypt_func = (\<lambda>cipher key iv plaintext. Inr plaintext),
      decrypt_func = (\<lambda>cipher key iv ciphertext. Inr ciphertext)\<rparr>"

lemma length_pad [simp]: "length (pad n data) = n"
  by (simp add: pad_def)

lemma pad_id: "length data = n \<Longrightarrow> pad n data = data"
  by (simp add: pad_def)

lemma ref_hmac_updates:
  "hmac_updates ref_context (key, data) parts = Inr (key, data @ concat parts)"
  by (induction parts arbitrary: data) (simp_all add: ref_context_def)

lemma ref_hmac: "hmac_spec ref_context ref_mac"
  using ref_hmac_updates
  by (simp add: hmac_spec_def signal_hmac_sha256_def ref_mac_def) (simp add: ref_context_def ref_mac_def)

lemma xor_swap: "map2 (XOR) s (map2 (XOR) t b) = map2 (XOR) t (map2 (XOR) s (b :: bytes))"
  if "length s = length t" "length t = length b"
  using that
proof (induction s t b rule: list_induct3)
  case (Cons s ss t ts b bs)
  then show ?case
    by (simp add: xor.left_commute)
qed simp

lemma ref_dh_spec: "dh_spec ref_context ref_dh"
proof -
  have "ref_dh s (ref_dh t donna_basepoint) = ref_dh t (ref_dh s donna_basepoint)" for s t
    using xor_swap [of "pad 32 s" "pad 32 t" "pad 32 donna_basepoint"] by (simp add: ref_dh_def pad_id)
  then show ?thesis
    by (simp add: dh_spec_def ref_context_def ref_dh_def)
qed

lemma ref_cipher: "cipher_spec ref_context"
  by (simp add: cipher_spec_def signal_encrypt_def signal_decrypt_def ref_context_def)

lemma ref_random_spec: "random_spec ref_context"
  by (simp add: random_spec_def signal_crypto_random_def ref_context_def ref_random_def)

lemma ref_signature: "signature_spec ref_context"
  by (auto simp: signature_spec_def ref_context_def)

lemma ref_sha512_updates: "sha512_updates ref_context data parts = Inr (data @ concat parts)"
  by (induction parts arbitrary: data) (simp_all add: signal_sha512_digest_update_def ref_context_def)

lemma ref_sha512: "sha512_spec ref_context ref_sha (\<lambda>d. d = [])"
  using ref_sha512_updates
  by (simp add: sha512_spec_def) (simp add: signal_sha512_digest_init_def signal_sha512_digest_final_def
      ref_context_def ref_sha_def)

section \<open>The store\<close>

definition ref_store :: "world signal_protocol_store_context" where
  "ref_store =
     \<lparr>load_session_func = (\<lambda>address w. (Inr (case map_of (w_sessions w) address of
          None \<Rightarrow> (0, None, None) | Some (rec, user) \<Rightarrow> (1, Some rec, user)), w)),
      get_sub_device_sessions_func = (\<lambda>name w.
        (Inr (map (\<lambda>(a, _). addr_device_id a) (filter (\<lambda>(a, _). addr_name a = name) (w_sessions w))), w)),
      store_session_func = (\<lambda>address rec user w.
        (Inr 0, w\<lparr>w_sessions := (address, rec, user) # w_sessions w\<rparr>)),
      contains_session_func = (\<lambda>address w. (Inr (if map_of (w_sessions w) address = None then 0 else 1), w)),
      delete_session_func = (\<lambda>address w.
        (Inr 1, w\<lparr>w_sessions := filter (\<lambda>(a, _). a \<noteq> address) (w_sessions w)\<rparr>)),
      delete_all_sessions_func = (\<lambda>name w.
        (Inr 1, w\<lparr>w_sessions := filter (\<lambda>(a, _). addr_name a \<noteq> name) (w_sessions w)\<rparr>)),
      load_pre_key = (\<lambda>i w. (case map_of (w_pre_keys w) i of
          None \<Rightarrow> Inl SG_ERR_INVALID_KEY_ID | Some rec \<Rightarrow> Inr (Some rec), w)),
      store_pre_key = (\<lambda>i rec w. (Inr 0, w\<lparr>w_pre_keys := (i, rec) # w_pre_keys w\<rparr>)),
      contains_pre_key = (\<lambda>i w. (Inr (if map_of (w_pre_keys w) i = None then 0 else 1), w)),
      remove_pre_key = (\<lambda>i w. (Inr 0, w\<lparr>w_pre_keys := filter (\<lambda>(j, _). j \<noteq> i) (w_pre_keys w)\<rparr>)),
      load_signed_pre_key = (\<lambda>i w. (case map_of (w_signed_pre_keys w) i of
          None \<Rightarrow> Inl SG_ERR_INVALID_KEY_ID | Some rec \<Rightarrow> Inr (Some rec), w)),
      store_signed_pre_key = (\<lambda>i rec w. (Inr 0, w\<lparr>w_signed_pre_keys := (i, rec) # w_signed_pre_keys w\<rparr>)),
      contains_signed_pre_key = (\<lambda>i w. (Inr (if map_of (w_signed_pre_keys w) i = None then 0 else 1), w)),
      remove_signed_pre_key = (\<lambda>i w.
        (Inr 0, w\<lparr>w_signed_pre_keys := filter (\<lambda>(j, _). j \<noteq> i) (w_signed_pre_keys w)\<rparr>)),
      get_identity_key_pair = (\<lambda>w. (Inr (Some (fst (w_identity w)), Some (snd (w_identity w))), w)),
      get_local_registration_id = (\<lambda>w. (Inr (w_registration_id w), w)),
      save_identity = (\<lambda>address key w. (Inr 0, w\<lparr>w_identities :=
        (case key of None \<Rightarrow> filter (\<lambda>(a, _). a \<noteq> address) (w_identities w)
         | Some k \<Rightarrow> (address, k) # w_identities w)\<rparr>)),
      is_trusted_identity = (\<lambda>address key w. (Inr (case map_of (w_identities w) address of
          None \<Rightarrow> 1 | Some k \<Rightarrow> if k = key then 1 else 0), w)),
      store_sender_key = (\<lambda>name rec user w.
        (Inr 0, w\<lparr>w_sender_keys := (name, rec, user) # w_sender_keys w\<rparr>)),
      load_sender_key = (\<lambda>name w. (Inr (case map_of (w_sender_keys w) name of
          None \<Rightarrow> (0, None, None) | Some (rec, user) \<Rightarrow> (1, Some rec, user)), w))\<rparr>"

lemma ref_session_store: "session_store_spec ref_store"
  by (simp add: session_store_spec_def ref_store_def)

lemma ref_pre_key_store: "pre_key_store_spec ref_store"
  by (simp add: pre_key_store_spec_def ref_store_def)

lemma ref_sender_key_store: "sender_key_store_spec ref_store"
  by (auto simp: sender_key_store_spec_def ref_store_def)

end
