(* ===== verification/Reference_Sessions.thy ===== *)
theory Reference_Sessions
  imports First_Message Reference_Context
begin

text \<open>
  Two parties with the provider and the store of \<open>Reference_Context\<close>: their keys, the bundle
  that one publishes, the worlds in which they run, and what holds of them. The
  properties are applied to these parties.
\<close>

definition ref_key :: "byte \<Rightarrow> ec_key_pair" where
  "ref_key n = \<lparr>public_key = EC_public_key (ref_dh (replicate 32 n) donna_basepoint),
     private_key = EC_private_key (replicate 32 n)\<rparr>"

definition ref_identity :: "byte \<Rightarrow> ratchet_identity_key_pair" where
  "ref_identity n = \<lparr>identity_public_key = public_key (ref_key n), identity_private_key = private_key (ref_key n)\<rparr>"

definition ref_signed_pre_key :: session_signed_pre_key where
  "ref_signed_pre_key = \<lparr>spk_id = 22, spk_key_pair = ref_key 3, spk_timestamp = 1000, spk_signature = replicate 64 1\<rparr>"

definition ref_pre_key :: session_pre_key where
  "ref_pre_key = \<lparr>pk_id = 31, pk_key_pair = ref_key 4\<rparr>"

definition ref_bundle :: session_pre_key_bundle where
  "ref_bundle = \<lparr>bundle_registration_id = 77, bundle_device_id = 1, bundle_pre_key_id = 31,
     bundle_pre_key_public = Some (public_key (ref_key 4)), bundle_signed_pre_key_id = 22,
     bundle_signed_pre_key_public = Some (public_key (ref_key 3)),
     bundle_signed_pre_key_signature = Some (replicate 64 1), bundle_identity_key = Some (public_key (ref_key 2))\<rparr>"

definition ref_alice :: signal_protocol_address where "ref_alice = \<lparr>addr_name = [65], addr_device_id = 1\<rparr>"

definition ref_bob :: signal_protocol_address where "ref_bob = \<lparr>addr_name = [66], addr_device_id = 1\<rparr>"

definition stored_identity :: "ec_key_pair \<Rightarrow> bytes \<times> bytes" where
  "stored_identity k = (ec_public_key_serialize_protobuf (public_key k), ec_private_data (private_key k))"

definition ref_alice_world :: world where
  "ref_alice_world = (new_world 7)\<lparr>w_identity := stored_identity (ref_key 1)\<rparr>"

definition ref_bob_world :: world where
  "ref_bob_world = (new_world 9)\<lparr>w_identity := stored_identity (ref_key 2),
     w_pre_keys := [(31, projr (session_pre_key_serialize (Some ref_pre_key)))],
     w_signed_pre_keys := [(22, projr (session_signed_pre_key_serialize ref_signed_pre_key))]\<rparr>"

lemma ref_key_matching [simp]: "matching_key_pair ref_context (ref_key n)" "ec_key_pair_ok (ref_key n)"
  by (simp_all add: matching_key_pair_def ref_key_def curve_generate_public_key_def ref_context_def ec_key_pair_ok_def
      ec_public_key_ok_def ec_private_key_ok_def ref_dh_def curve_constants)

lemma ref_identity_pair [simp]: "identity_pair (ref_identity n) = ref_key n" "identity_public_key (ref_identity n) = public_key (ref_key n)"
  by (simp_all add: identity_pair_def ref_identity_def)

lemma ref_keys_match: "keys_match ref_context (ref_identity 2) ref_signed_pre_key (Some ref_pre_key)"
  by (simp add: keys_match_def ref_signed_pre_key_def ref_pre_key_def)

lemma ref_bundle_of: "bundle_of ref_context (ref_identity 2) ref_signed_pre_key (Some ref_pre_key) ref_bundle"
  by (simp add: bundle_of_def ref_bundle_def ref_identity_def ref_signed_pre_key_def ref_pre_key_def
      curve_verify_signature_def curve_constants ref_context_def)

lemma ref_sessions_kept: "sessions_kept ref_store"
  by (simp add: sessions_kept_def ref_store_def)

lemma ref_identity_loaded:
  "w_identity w = stored_identity (ref_key n) \<Longrightarrow>
    signal_protocol_identity_get_key_pair ref_store w = (Inr (ref_identity n), w)"
  using ref_key_matching(2) [of n]
  by (simp add: signal_protocol_identity_get_key_pair_def ref_store_def stored_identity_def ref_identity_def sbind_def slift_def
      ec_key_pair_ok_def decode_serialize_protobuf curve_decode_private_point_def ec_private_key_ok_def ratchet_identity_key_pair_create_def)

lemma ref_trusted:
  "signal_protocol_identity_is_trusted_identity ref_store address (Some key) w =
    (Inr (case map_of (w_identities w) address of
       None \<Rightarrow> 1 | Some k \<Rightarrow> if k = DJB_TYPE # ec_public_data key then 1 else 0), w)"
  by (simp add: signal_protocol_identity_is_trusted_identity_def ec_public_key_serialize_def ref_store_def sbind_def slift_def)

lemma ref_no_session:
  "map_of (w_sessions w) address = None \<Longrightarrow>
    signal_protocol_session_load_session ref_store address w = (Inr (session_record_create None), w)"
  by (simp add: signal_protocol_session_load_session_def ref_store_def sbind_def slift_def sreturn_def)

lemma ref_generated: "curve_generate_key_pair ref_context w = (r, w') \<Longrightarrow> w' = w\<lparr>w_counter := w_counter w + 1\<rparr>"
  by (auto simp: curve_generate_key_pair_def curve_generate_private_key_def signal_crypto_random_def ref_context_def
      ref_random_def sbind_def slift_def sreturn_def Let_def split: sum.splits)

lemma ref_store_answers:
  "get_local_registration_id ref_store w = (Inr (w_registration_id w), w)"
  "save_identity ref_store address (Some k) w = (Inr 0, w\<lparr>w_identities := (address, k) # w_identities w\<rparr>)"
  "remove_pre_key ref_store i w = (Inr 0, w\<lparr>w_pre_keys := filter (\<lambda>(j, _). j \<noteq> i) (w_pre_keys w)\<rparr>)"
  by (simp_all add: ref_store_def)

lemma ref_initiator_store:
  "initiator_store ref_context ref_store address
     (\<lambda>w. w_sessions w = [] \<and> w_identities w = [] \<and> w_identity w = stored_identity (ref_key n)) (ref_identity n)"
  using session_record_create_ok [of None]
  by (auto simp: initiator_store_def ref_no_session ref_identity_loaded ref_trusted ref_store_answers
      signal_protocol_identity_get_local_registration_id_def signal_protocol_identity_save_identity_def
      ec_public_key_serialize_def sbind_def slift_def dest!: ref_generated)

lemma ref_bob_world_fields [simp]:
  "w_sessions ref_bob_world = []" "w_identities ref_bob_world = []"
  "w_identity ref_bob_world = stored_identity (ref_key 2)"
  "w_sessions ref_alice_world = []" "w_identities ref_alice_world = []"
  "w_identity ref_alice_world = stored_identity (ref_key 1)"
  by (simp_all add: ref_bob_world_def ref_alice_world_def new_world_def)

lemma ref_bob_pre_keys:
  "signal_protocol_signed_pre_key_load_key ref_store 22 ref_bob_world = (Inr ref_signed_pre_key, ref_bob_world)"
  "signal_protocol_pre_key_load_key ref_store 31 ref_bob_world = (Inr ref_pre_key, ref_bob_world)"
proof -
  have "session_signed_pre_key_ok ref_signed_pre_key" "session_pre_key_ok ref_pre_key"
    by (simp_all add: session_signed_pre_key_ok_def session_pre_key_ok_def ref_signed_pre_key_def ref_pre_key_def)
  then have "session_signed_pre_key_deserialize (projr (session_signed_pre_key_serialize ref_signed_pre_key)) = Inr ref_signed_pre_key"
    "session_pre_key_deserialize (projr (session_pre_key_serialize (Some ref_pre_key))) = Inr ref_pre_key"
    using session_signed_pre_key_roundtrip session_pre_key_roundtrip by fastforce+
  then show "signal_protocol_signed_pre_key_load_key ref_store 22 ref_bob_world = (Inr ref_signed_pre_key, ref_bob_world)"
    "signal_protocol_pre_key_load_key ref_store 31 ref_bob_world = (Inr ref_pre_key, ref_bob_world)"
    by (simp_all add: signal_protocol_signed_pre_key_load_key_def signal_protocol_pre_key_load_key_def sbind_def slift_def
        ref_store_def) (simp_all add: ref_bob_world_def new_world_def)
qed

lemma ref_responder_store:
  "responder_store ref_store ref_alice (\<lambda>w. w = ref_bob_world) (ref_identity 2) ref_signed_pre_key (Some ref_pre_key)"
  using ref_bob_pre_keys
  by (auto simp: responder_store_def ref_trusted ref_identity_loaded ref_signed_pre_key_def ref_pre_key_def
      signal_protocol_identity_get_local_registration_id_def signal_protocol_identity_save_identity_def
      signal_protocol_pre_key_remove_key_def ec_public_key_serialize_def ref_store_answers sbind_def slift_def)

lemma ref_store_loads:
  "load_session_func ref_store address w = (Inr (case map_of (w_sessions w) address of
     None \<Rightarrow> (0, None, None) | Some (rec, user) \<Rightarrow> (1, Some rec, user)), w)"
  by (simp add: ref_store_def)

section \<open>A session set-up\<close>

text \<open>The two sides of a session set-up, and the conversation that starts with them.\<close>

definition ref_initiator_parameters :: alice_signal_protocol_parameters where
  "ref_initiator_parameters =
     initiator_parameters (ref_identity 1) (ref_key 5) (ref_identity 2) ref_signed_pre_key (Some ref_pre_key)"

definition ref_responder_parameters :: bob_signal_protocol_parameters where
  "ref_responder_parameters = responder_parameters (ref_identity 2) ref_signed_pre_key (Some ref_pre_key)
     (public_key (ref_key 1)) (public_key (ref_key 5))"

lemmas ref_parameter_defs = ref_initiator_parameters_def ref_responder_parameters_def initiator_parameters_def
  responder_parameters_def ref_signed_pre_key_def ref_pre_key_def

definition ref_initiator :: session_state where
  "ref_initiator = alice_session (projr (fst (ratcheting_session_alice_initialize ref_context session_state_create
     ref_initiator_parameters (new_world 7)))) (Some 31) 22 (public_key (ref_key 5)) 1 77"

definition ref_responder :: session_state where
  "ref_responder = bob_session (projr (ratcheting_session_bob_initialize ref_context session_state_create
     ref_responder_parameters)) (public_key (ref_key 5)) 77 1"

lemma ref_parameters: "parameters_correspond ref_context ref_initiator_parameters ref_responder_parameters"
  using parameters_match [OF ref_keys_match, of "ref_identity 1" "ref_key 5"]
  by (simp add: ref_initiator_parameters_def ref_responder_parameters_def)

lemma ref_initialized:
  "\<exists>st w'. ratcheting_session_alice_initialize ref_context state p w = (Inr st, w')"
  "\<exists>st. ratcheting_session_bob_initialize ref_context state q = Inr st"
  using generate_key_pair_total [OF ref_dh_spec ref_random_spec, of w] alice_initialize_eq [OF ref_hmac ref_dh_spec]
    bob_initialize_eq [OF ref_hmac ref_dh_spec] by (fastforce simp: Let_def)+

lemma ref_conversation: "conversation ref_context ref_initiator ref_responder 0 0"
  and ref_leads: "leads ref_context ref_mac ref_initiator ref_responder 0 0"
proof -
  obtain A w' where A: "ratcheting_session_alice_initialize ref_context session_state_create ref_initiator_parameters
      (new_world 7) = (Inr A, w')"
    using ref_initialized(1) by blast
  obtain B where B: "ratcheting_session_bob_initialize ref_context session_state_create ref_responder_parameters = Inr B"
    using ref_initialized(2) by blast
  have ok: "ec_key_pair_ok (bob_our_ratchet_key ref_responder_parameters)"
    "alice_our_base_key ref_initiator_parameters = ref_key 5"
    by (simp_all add: ref_parameter_defs)
  show "conversation ref_context ref_initiator ref_responder 0 0"
    using conversation.start [OF ref_parameters ok(1) A B] by (simp add: ref_initiator_def ref_responder_def A B ok(2))
  show "leads ref_context ref_mac ref_initiator ref_responder 0 0"
    using leads_start [OF ref_hmac ref_dh_spec ref_random_spec ref_parameters ok(1) A B]
    by (simp add: ref_initiator_def ref_responder_def A B ok(2))
qed

lemma ref_initiator_key: "session_state_get_sender_ratchet_key ref_initiator = Some (public_key (projr (fst (curve_generate_key_pair ref_context (new_world 7)))))"
proof -
  obtain kp w' where kp: "curve_generate_key_pair ref_context (new_world 7) = (Inr kp, w')"
    using generate_key_pair_total [OF ref_dh_spec ref_random_spec] by blast
  show ?thesis
    by (simp add: ref_initiator_def alice_initialize_eq [OF ref_hmac ref_dh_spec kp] kp Let_def alice_session_def
        session_setter_defs alice_state_def session_state_get_sender_ratchet_key_def)
qed

lemma ref_responder_chains: "session_state_find_receiver_chain ref_responder k = None"
  and ref_responder_empty: "ss_receiver_chains ref_responder = []"
  by (simp_all add: ref_responder_def bob_initialize_eq [OF ref_hmac ref_dh_spec] bob_session_def session_setter_defs
      bob_state_def session_state_find_receiver_chain_def session_state_create_def)

lemma ref_record_ok:
  "session_record_ok (session_record_create (Some ref_responder))" "record_counters_ok (session_record_create (Some ref_responder))"
  using session_record_create_ok [of "Some ref_responder"] leads_ok(2) [OF ref_hmac ref_cipher ref_leads]
  by (simp_all add: record_counters_ok_def session_record_create_def state_counters_ok_def ref_responder_empty)

lemma ref_record_decrypts:
  "\<exists>em A' r' w'. session_cipher_encrypt_state ref_context ref_initiator pt = Inr (em, A') \<and>
     session_cipher_decrypt_from_record_and_signal_message ref_context (session_record_create (Some ref_responder))
       (carried_message em) w = (Inr (pt, r'), w') \<and>
     ec_public_key_ok (sm_sender_ratchet_key (carried_message em)) \<and> sm_counter (carried_message em) \<noteq> -1"
proof -
  obtain kpA ckA kpB ckB a b where A: "can_send ref_initiator kpA ckA a b"
    and B: "can_send ref_responder kpB ckB b a" "unheard ref_context ref_mac ref_initiator kpA ckA ref_responder kpB 0"
    using ref_leads by (auto simp: leads_def)
  obtain root where "ss_root_key ref_initiator = Some root"
    using B(2) by (auto simp: unheard_def)
  then have "ck_index ckA = 0"
    using unheard_chain_key [OF ref_hmac ref_dh_spec ref_random_spec B, of _ w] by (metis funpow_0)
  moreover obtain em where em: "session_cipher_encrypt_state ref_context ref_initiator pt =
      Inr (em, advance_sender ref_initiator (chain_next ref_mac ckA))"
    "message_of ref_context ref_mac (public_key kpA) ckA a b pt (carried_message em)"
    using encrypt_state_sends [OF ref_hmac ref_cipher A] by blast
  moreover obtain B' w' where "session_cipher_decrypt_from_state_and_signal_message ref_context ref_responder
      (carried_message em) w = (Inr (pt, B'), w')"
    using conversation_delivers [OF ref_hmac ref_cipher ref_dh_spec ref_random_spec ref_conversation, of pt w] em(1) by auto
  then have "session_cipher_decrypt_from_record_and_signal_message ref_context (session_record_create (Some ref_responder))
      (carried_message em) w = (Inr (pt, session_record_set_state (session_record_create (Some ref_responder)) B'), w')"
    using B(1) by (intro decrypt_record_current) (simp_all add: can_send_def session_record_create_def)
  ultimately show ?thesis
    using message_of_fields [OF em(2)] leads_ok(4) [OF ref_hmac ref_cipher ref_leads em(1)] by auto
qed

section \<open>A receiver chain\<close>

definition ref_chain_key :: ratchet_chain_key where
  "ref_chain_key = \<lparr>ck_kdf = \<lparr>iteration_start_offset = 1\<rparr>, ck_key = replicate 32 6, ck_index = 0\<rparr>"

definition ref_chain_state :: session_state where
  "ref_chain_state = session_state_add_receiver_chain session_state_create (public_key (ref_key 3)) ref_chain_key"

lemma ref_chain_found:
  "session_state_find_receiver_chain ref_chain_state (public_key (ref_key 3)) =
     Some \<lparr>sender_ratchet_key = Some (public_key (ref_key 3)), receiver_chain_key = Some ref_chain_key, message_keys = []\<rparr>"
  unfolding ref_chain_state_def
  by (rule find_receiver_chain_added) (simp add: session_state_find_receiver_chain_def session_state_create_def)

section \<open>A message\<close>

definition ref_signal_message :: signal_message where
  "ref_signal_message = \<lparr>sm_base_message = \<lparr>message_type = 2, serialized = Some ([0x33, 1, 2] @ replicate 8 5)\<rparr>,
     sm_message_version = 3, sm_sender_ratchet_key = public_key (ref_key 3), sm_counter = 0, sm_previous_counter = 0,
     sm_ciphertext = []\<rparr>"

definition ref_pre_key_message :: pre_key_signal_message where
  "ref_pre_key_message = \<lparr>pksm_base_message = \<lparr>message_type = 3, serialized = None\<rparr>, pksm_version = 3,
     pksm_registration_id = 77, pksm_has_pre_key_id = True, pksm_pre_key_id = 31, pksm_signed_pre_key_id = 22,
     pksm_base_key = public_key (ref_key 5), pksm_identity_key = public_key (ref_key 1), pksm_message = ref_signal_message\<rparr>"

end
