(* ===== verification/Reference_Groups.thy ===== *)
theory Reference_Groups
  imports Reference_Sessions Group_Session_Builder Fingerprint Device_Consistency
begin

text \<open>A sender of a group and its record, with the provider and the store of \<open>Reference_Context\<close>.\<close>

definition ref_group :: signal_protocol_sender_key_name where
  "ref_group = \<lparr>skn_group_id = [1], skn_sender = ref_alice\<rparr>"

definition ref_sender_state :: sender_key_state where
  "ref_sender_state = \<lparr>sks_key_id = 5, sks_chain_key = \<lparr>sck_iteration = 0, sck_chain_key = replicate 32 6\<rparr>,
     sks_signature_public_key = public_key (ref_key 4), sks_signature_private_key = Some (private_key (ref_key 4)),
     sks_message_keys = []\<rparr>"

definition ref_sender_record :: sender_key_record where
  "ref_sender_record = \<lparr>skr_sender_key_states = [ref_sender_state], skr_user_record = None\<rparr>"

lemma ref_sender_key_loads:
  "w_sender_keys w = [] \<Longrightarrow> sender_key_loads ref_context ref_store name sender_key_record_create w"
  by (simp add: sender_key_loads_def signal_protocol_sender_key_load_key_def ref_store_def sbind_def slift_def sreturn_def)

lemma ref_record_signs: "record_signs context sender_key_record_create"
  by (simp add: record_signs_def sender_key_record_create_def sender_key_record_get_sender_key_state_def)

lemma ref_sender_state_head:
  "sender_key_record_get_sender_key_state ref_sender_record = Inr ref_sender_state"
  "sender_key_record_get_sender_key_state_by_id ref_sender_record 5 = Inr ref_sender_state"
  "signs ref_context ref_sender_state" "group_counters_ok ref_sender_record"
  using ref_key_matching(1) [of 4]
  by (simp_all add: ref_sender_record_def ref_sender_state_def sender_key_record_get_sender_key_state_def state_by_id_Inr
      signs_def matching_key_pair_def group_counters_ok_def counters_ok_def)

lemma ref_sender_record_ok: "sender_key_record_ok mac ref_sender_record"
  using ref_key_matching(2) [of 4]
  by (simp add: ref_sender_record_def ref_sender_state_def sender_key_record_ok_def sender_key_state_ok_def MAX_STATES_def
      ec_key_pair_ok_def)

lemma ref_group_decrypts:
  "\<exists>m r' r'' w'. group_cipher_encrypt_record ref_context ref_sender_record pt w = (Inr (m, r'), w') \<and>
     group_cipher_decrypt_record ref_context ref_sender_record m = Inr (pt, r'') \<and>
     skm_key_id m = 5 \<and> skm_iteration m = 0"
proof -
  let ?c = "sks_chain_key ref_sender_state"
  obtain m r' w' where m: "group_cipher_encrypt_record ref_context ref_sender_record pt w = (Inr (m, r'), w')"
    "group_message_of ref_context ref_mac 5 (public_key (ref_key 4)) ?c pt m"
    using group_encrypt_record_sends [OF ref_hmac ref_cipher ref_signature ref_random_spec ref_sender_state_head(1,3), of pt w]
    by (auto simp: ref_sender_state_def)
  have c: "unat (sck_iteration ?c) + 1 < 2 ^ 32" "(1 :: nat) \<le> 2000"
    "sks_signature_public_key ref_sender_state = public_key (ref_key 4)"
    "group_window ref_mac ?c {} 0 ?c (sks_message_keys ref_sender_state)"
    by (simp_all add: ref_sender_state_def key_window_def)
  obtain r'' where "group_cipher_decrypt_record ref_context ref_sender_record m = Inr (pt, r'')"
    by (rule group_decrypt_window [OF ref_hmac c(1,2) ref_sender_state_head(2) c(3,4), of 0 pt m]) (use m(2) in auto)
  then show ?thesis
    using m by (auto simp: group_message_of_def ref_sender_state_def)
qed

section \<open>Verification of identities\<close>

definition ref_scannable :: scannable_fingerprint where
  "ref_scannable = \<lparr>sf_version = 1, sf_local_stable_identifier = None, sf_local_fingerprint = Some (replicate 32 1),
     sf_remote_stable_identifier = None, sf_remote_fingerprint = Some (replicate 32 2)\<rparr>"

lemma ref_consistency_message:
  "\<exists>m w'. device_consistency_message_create_from_pair ref_context commitment (ref_key n) w = (Inr m, w')"
  by (simp add: device_consistency_message_create_from_pair_def curve_calculate_vrf_signature_def signal_crypto_random_def
      curve_verify_vrf_signature_def VRF_SIGNATURE_LEN_def ref_context_def ref_random_def sbind_def slift_def sreturn_def
      checked_pack_def Let_def)

end
