(* ===== verification/Donna.thy ===== *)
theory Donna
  imports Prelude
begin

text \<open>
  \<open>curve25519/curve25519-donna.c\<close>: scalar multiplication on Curve25519 in the 32-bit
  representation. A field element is a list of signed 64-bit limbs, which stand for 26, 25, 26, 25,
  ... bits; arrays of 19 limbs hold products before their reduction. An array that the code updates in
  place is a list that the function returns; limbs that no later statement reads are dropped.
  \<open>>>\<close> on a signed integer is \<open>signed_drop_bit\<close>, a cast to a wider signed type \<open>scast\<close>.
\<close>

unbundle bit_operations_syntax

type_synonym limb = "64 word"
type_synonym s32 = "32 word"

section \<open>Sums and products\<close>

definition fsum :: "limb list \<Rightarrow> limb list \<Rightarrow> limb list" where
  "fsum output input = map (\<lambda>i. output ! i + input ! i) [0..<10]"

definition fdifference :: "limb list \<Rightarrow> limb list \<Rightarrow> limb list" where
  "fdifference output input = map (\<lambda>i. input ! i - output ! i) [0..<10]"

definition fscalar_product :: "limb list \<Rightarrow> limb \<Rightarrow> limb list" where
  "fscalar_product input scalar = map (\<lambda>i. input ! i * scalar) [0..<10]"

text \<open>\<open>((limb) ((s32) a)) * ((s32) b)\<close>\<close>

definition limb_product :: "limb \<Rightarrow> limb \<Rightarrow> limb" where
  "limb_product a b = scast (ucast a :: s32) * scast (ucast b :: s32)"

text \<open>The 19 sums of products, over any ring; \<open>p i j\<close> is the product of the limbs \<open>i\<close> and \<open>j\<close>.\<close>

definition fproduct_sums :: "(nat \<Rightarrow> nat \<Rightarrow> 'a :: comm_ring_1) \<Rightarrow> 'a list" where
  "fproduct_sums p =
     [p 0 0,
      p 0 1 + p 1 0,
      2 * p 1 1 + p 0 2 + p 2 0,
      p 1 2 + p 2 1 + p 0 3 + p 3 0,
      p 2 2 + 2 * (p 1 3 + p 3 1) + p 0 4 + p 4 0,
      p 2 3 + p 3 2 + p 1 4 + p 4 1 + p 0 5 + p 5 0,
      2 * (p 3 3 + p 1 5 + p 5 1) + p 2 4 + p 4 2 + p 0 6 + p 6 0,
      p 3 4 + p 4 3 + p 2 5 + p 5 2 + p 1 6 + p 6 1 + p 0 7 + p 7 0,
      p 4 4 + 2 * (p 3 5 + p 5 3 + p 1 7 + p 7 1) + p 2 6 + p 6 2 + p 0 8 + p 8 0,
      p 4 5 + p 5 4 + p 3 6 + p 6 3 + p 2 7 + p 7 2 + p 1 8 + p 8 1 + p 0 9 + p 9 0,
      2 * (p 5 5 + p 3 7 + p 7 3 + p 1 9 + p 9 1) + p 4 6 + p 6 4 + p 2 8 + p 8 2,
      p 5 6 + p 6 5 + p 4 7 + p 7 4 + p 3 8 + p 8 3 + p 2 9 + p 9 2,
      p 6 6 + 2 * (p 5 7 + p 7 5 + p 3 9 + p 9 3) + p 4 8 + p 8 4,
      p 6 7 + p 7 6 + p 5 8 + p 8 5 + p 4 9 + p 9 4,
      2 * (p 7 7 + p 5 9 + p 9 5) + p 6 8 + p 8 6,
      p 7 8 + p 8 7 + p 6 9 + p 9 6,
      p 8 8 + 2 * (p 7 9 + p 9 7),
      p 8 9 + p 9 8,
      2 * p 9 9]"

definition fproduct :: "limb list \<Rightarrow> limb list \<Rightarrow> limb list" where
  "fproduct in2 in1 = fproduct_sums (\<lambda>i j. limb_product (in2 ! i) (in1 ! j))"

definition fsquare_sums :: "(nat \<Rightarrow> nat \<Rightarrow> 'a :: comm_ring_1) \<Rightarrow> 'a list" where
  "fsquare_sums p =
     [p 0 0,
      2 * p 0 1,
      2 * (p 1 1 + p 0 2),
      2 * (p 1 2 + p 0 3),
      p 2 2 + 4 * p 1 3 + 2 * p 0 4,
      2 * (p 2 3 + p 1 4 + p 0 5),
      2 * (p 3 3 + p 2 4 + p 0 6 + 2 * p 1 5),
      2 * (p 3 4 + p 2 5 + p 1 6 + p 0 7),
      p 4 4 + 2 * (p 2 6 + p 0 8 + 2 * (p 1 7 + p 3 5)),
      2 * (p 4 5 + p 3 6 + p 2 7 + p 1 8 + p 0 9),
      2 * (p 5 5 + p 4 6 + p 2 8 + 2 * (p 3 7 + p 1 9)),
      2 * (p 5 6 + p 4 7 + p 3 8 + p 2 9),
      p 6 6 + 2 * (p 4 8 + 2 * (p 5 7 + p 3 9)),
      2 * (p 6 7 + p 5 8 + p 4 9),
      2 * (p 7 7 + p 6 8 + 2 * p 5 9),
      2 * (p 7 8 + p 6 9),
      p 8 8 + 4 * p 7 9,
      2 * p 8 9,
      2 * p 9 9]"

definition fsquare_inner :: "limb list \<Rightarrow> limb list" where
  "fsquare_inner in1 = fsquare_sums (\<lambda>i j. limb_product (in1 ! i) (in1 ! j))"

section \<open>Reduction\<close>

text \<open>\<open>output[i] += output[j] << 4; output[i] += output[j] << 1; output[i] += output[j]\<close>\<close>

definition add_19 :: "nat \<Rightarrow> nat \<Rightarrow> limb list \<Rightarrow> limb list" where
  "add_19 i j output =
     (let output = output[i := output ! i + push_bit 4 (output ! j)];
          output = output[i := output ! i + push_bit 1 (output ! j)]
      in output[i := output ! i + output ! j])"

definition freduce_degree :: "limb list \<Rightarrow> limb list" where
  "freduce_degree output = fold (\<lambda>i. add_19 i (i + 10)) [8, 7, 6, 5, 4, 3, 2, 1, 0] output"

definition div_by_2_26 :: "limb \<Rightarrow> limb" where
  "div_by_2_26 v =
     (let highword = ucast (drop_bit 32 v) :: u32;
          sign = signed_drop_bit 31 highword;
          roundoff = drop_bit 6 sign
      in signed_drop_bit 26 (v + scast roundoff))"

definition div_by_2_25 :: "limb \<Rightarrow> limb" where
  "div_by_2_25 v =
     (let highword = ucast (drop_bit 32 v) :: u32;
          sign = signed_drop_bit 31 highword;
          roundoff = drop_bit 7 sign
      in signed_drop_bit 25 (v + scast roundoff))"

definition carry_26 :: "nat \<Rightarrow> limb list \<Rightarrow> limb list" where
  "carry_26 i output =
     (let over = div_by_2_26 (output ! i);
          output = output[i := output ! i - push_bit 26 over]
      in output[i + 1 := output ! (i + 1) + over])"

definition carry_25 :: "nat \<Rightarrow> limb list \<Rightarrow> limb list" where
  "carry_25 i output =
     (let over = div_by_2_25 (output ! i);
          output = output[i := output ! i - push_bit 25 over]
      in output[i + 1 := output ! (i + 1) + over])"

definition freduce_coefficients :: "limb list \<Rightarrow> limb list" where
  "freduce_coefficients output =
     (let output = output[10 := 0];
          output = fold (\<lambda>i output. carry_25 (i + 1) (carry_26 i output)) [0, 2, 4, 6, 8] output;
          output = add_19 0 10 output;
          output = output[10 := 0]
      in carry_26 0 output)"

definition fmul :: "limb list \<Rightarrow> limb list \<Rightarrow> limb list" where
  "fmul in1 in2 = take 10 (freduce_coefficients (freduce_degree (fproduct in1 in2)))"

definition fsquare :: "limb list \<Rightarrow> limb list" where
  "fsquare in1 = take 10 (freduce_coefficients (freduce_degree (fsquare_inner in1)))"

section \<open>Bytes\<close>

definition fexpand_limb :: "bytes \<Rightarrow> nat \<Rightarrow> nat \<Rightarrow> limb \<Rightarrow> limb" where
  "fexpand_limb input start shift limb_mask =
     signed_drop_bit shift
       (ucast (input ! start) OR push_bit 8 (ucast (input ! (start + 1))) OR
        push_bit 16 (ucast (input ! (start + 2))) OR push_bit 24 (ucast (input ! (start + 3)))) AND limb_mask"

definition fexpand :: "bytes \<Rightarrow> limb list" where
  "fexpand input =
     [fexpand_limb input 0 0 0x3ffffff, fexpand_limb input 3 2 0x1ffffff,
      fexpand_limb input 6 3 0x3ffffff, fexpand_limb input 9 5 0x1ffffff,
      fexpand_limb input 12 6 0x3ffffff, fexpand_limb input 16 0 0x1ffffff,
      fexpand_limb input 19 1 0x3ffffff, fexpand_limb input 22 3 0x1ffffff,
      fexpand_limb input 25 4 0x3ffffff, fexpand_limb input 28 6 0x1ffffff]"

definition s32_eq :: "s32 \<Rightarrow> s32 \<Rightarrow> s32" where
  "s32_eq a b =
     (let a = NOT (a XOR b);
          a = a AND push_bit 16 a;
          a = a AND push_bit 8 a;
          a = a AND push_bit 4 a;
          a = a AND push_bit 2 a;
          a = a AND push_bit 1 a
      in signed_drop_bit 31 a)"

definition s32_gte :: "s32 \<Rightarrow> s32 \<Rightarrow> s32" where
  "s32_gte a b = (let a = a - b in NOT (signed_drop_bit 31 a))"

definition limb_bits :: "nat \<Rightarrow> nat" where
  "limb_bits i = (if odd i then 25 else 26)"

definition borrow_carry :: "nat \<Rightarrow> s32 \<Rightarrow> s32" where
  "borrow_carry bits x = (let mask = signed_drop_bit 31 x in - signed_drop_bit bits (x AND mask))"

definition borrow_step :: "nat \<Rightarrow> s32 list \<Rightarrow> s32 list" where
  "borrow_step i input =
     (let carry = borrow_carry (limb_bits i) (input ! i);
          input = input[i := input ! i + push_bit (limb_bits i) carry]
      in input[i + 1 := input ! (i + 1) - carry])"

definition borrow_pass :: "s32 list \<Rightarrow> s32 list" where
  "borrow_pass input =
     (let input = fold borrow_step [0..<9] input;
          carry = borrow_carry 25 (input ! 9);
          input = input[9 := input ! 9 + push_bit 25 carry]
      in input[0 := input ! 0 - carry * 19])"

definition carry_step :: "nat \<Rightarrow> s32 list \<Rightarrow> s32 list" where
  "carry_step i input =
     (let carry = signed_drop_bit (limb_bits i) (input ! i);
          input = input[i := input ! i AND (if odd i then 0x1ffffff else 0x3ffffff)]
      in input[i + 1 := input ! (i + 1) + carry])"

definition carry_pass :: "s32 list \<Rightarrow> s32 list" where
  "carry_pass input =
     (let input = fold carry_step [0..<9] input;
          carry = signed_drop_bit 25 (input ! 9);
          input = input[9 := input ! 9 AND 0x1ffffff]
      in input[0 := input ! 0 + 19 * carry])"

definition reduce_mask :: "s32 list \<Rightarrow> s32" where
  "reduce_mask input =
     fold (\<lambda>i mask. mask AND s32_eq (input ! i) (if odd i then 0x1ffffff else 0x3ffffff)) [1..<10]
       (s32_gte (input ! 0) 0x3ffffed)"

definition subtract_masked :: "s32 \<Rightarrow> s32 list \<Rightarrow> s32 list" where
  "subtract_masked m input =
     fold (\<lambda>i input. input[i := input ! i - (m AND (if odd i then 0x1ffffff else 0x3ffffff))]) [1..<10]
       (input[0 := input ! 0 - (m AND 0x3ffffed)])"

definition shift_limbs :: "s32 list \<Rightarrow> s32 list" where
  "shift_limbs input =
     [input ! 0, push_bit 2 (input ! 1), push_bit 3 (input ! 2), push_bit 5 (input ! 3), push_bit 6 (input ! 4),
      input ! 5, push_bit 1 (input ! 6), push_bit 3 (input ! 7), push_bit 4 (input ! 8), push_bit 6 (input ! 9)]"

definition write_limb :: "s32 \<Rightarrow> nat \<Rightarrow> bytes \<Rightarrow> bytes" where
  "write_limb x s output =
     output[s := output ! s OR ucast (x AND 0xff), s + 1 := ucast (signed_drop_bit 8 x AND 0xff),
       s + 2 := ucast (signed_drop_bit 16 x AND 0xff), s + 3 := ucast (signed_drop_bit 24 x AND 0xff)]"

definition fcontract :: "bytes \<Rightarrow> limb list \<Rightarrow> bytes" where
  "fcontract output input_limbs =
     (let input = map ucast (take 10 input_limbs);
          input = borrow_pass (borrow_pass input);
          input = borrow_step 0 input;
          input = carry_pass (carry_pass input);
          mask = reduce_mask input;
          input = shift_limbs (subtract_masked mask input);
          output = output[0 := 0, 16 := 0]
      in fold (\<lambda>(i, s). write_limb (input ! i) s)
           [(0, 0), (1, 3), (2, 6), (3, 9), (4, 12), (5, 16), (6, 19), (7, 22), (8, 25), (9, 28)] output)"

section \<open>The ladder\<close>

definition reduce_product :: "limb list \<Rightarrow> limb list" where
  "reduce_product output = take 10 (freduce_coefficients (freduce_degree output))"

definition fmonty ::
  "limb list \<Rightarrow> limb list \<Rightarrow> limb list \<Rightarrow> limb list \<Rightarrow> limb list \<Rightarrow>
     (limb list \<times> limb list) \<times> (limb list \<times> limb list)" where
  "fmonty x z xprime zprime qmqp =
     (let origx = x;
          x = fsum x z;
          z = fdifference z origx;
          origxprime = xprime;
          xprime = fsum xprime zprime;
          zprime = fdifference zprime origxprime;
          xxprime = fproduct xprime z;
          zzprime = fproduct x zprime;
          xxprime = reduce_product xxprime;
          zzprime = reduce_product zzprime;
          origxprime = xxprime;
          xxprime = fsum xxprime zzprime;
          zzprime = fdifference zzprime origxprime;
          xxxprime = fsquare xxprime;
          zzzprime = fsquare zzprime;
          zzprime = reduce_product (fproduct zzzprime qmqp);
          x3 = xxxprime;
          z3 = zzprime;
          xx = fsquare x;
          zz = fsquare z;
          x2 = reduce_product (fproduct xx zz);
          zz = fdifference zz xx;
          zzz = fscalar_product zz 121665 @ replicate 9 0;
          zzz = take 10 (freduce_coefficients zzz);
          zzz = fsum zzz xx;
          z2 = reduce_product (fproduct zz zzz)
      in ((x2, z2), (x3, z3)))"

definition swap_conditional :: "limb list \<Rightarrow> limb list \<Rightarrow> limb \<Rightarrow> limb list \<times> limb list" where
  "swap_conditional a b iswap =
     (let swap = ucast (- iswap) :: s32;
          x = (\<lambda>i. swap AND (ucast (a ! i) XOR ucast (b ! i)))
      in (map (\<lambda>i. scast (ucast (a ! i) XOR x i)) [0..<10],
          map (\<lambda>i. scast (ucast (b ! i) XOR x i)) [0..<10]))"

type_synonym ladder = "(limb list \<times> limb list) \<times> (limb list \<times> limb list)"

definition cmult_step :: "limb list \<Rightarrow> limb \<Rightarrow> ladder \<Rightarrow> ladder" where
  "cmult_step q b = (\<lambda>((nqx, nqz), (nqpqx, nqpqz)).
     let (nqx, nqpqx) = swap_conditional nqx nqpqx b;
         (nqz, nqpqz) = swap_conditional nqz nqpqz b;
         ((nqx2, nqz2), (nqpqx2, nqpqz2)) = fmonty nqx nqz nqpqx nqpqz q;
         (nqx2, nqpqx2) = swap_conditional nqx2 nqpqx2 b;
         (nqz2, nqpqz2) = swap_conditional nqz2 nqpqz2 b
     in ((nqx2, nqz2), (nqpqx2, nqpqz2)))"

fun cmult_byte :: "limb list \<Rightarrow> nat \<Rightarrow> byte \<Rightarrow> ladder \<Rightarrow> ladder" where
  "cmult_byte q 0 b st = st"
| "cmult_byte q (Suc j) b st = cmult_byte q j (push_bit 1 b) (cmult_step q (ucast (drop_bit 7 b)) st)"

definition cmult :: "bytes \<Rightarrow> limb list \<Rightarrow> limb list \<times> limb list" where
  "cmult n q =
     (let nqpqx = q;
          nqpqz = 1 # replicate 9 0;
          nqx = 1 # replicate 9 0;
          nqz = replicate 10 0
      in fst (fold (\<lambda>i. cmult_byte q 8 (n ! (31 - i))) [0..<32] ((nqx, nqz), (nqpqx, nqpqz))))"

text \<open>\<open>for (i = 2; i < m; i += 2) { fsquare(t0, t1); fsquare(t1, t0); }\<close>, with the last square\<close>

definition fsquare_loop :: "nat \<Rightarrow> limb list \<Rightarrow> limb list" where
  "fsquare_loop m t = ((\<lambda>t. fsquare (fsquare t)) ^^ ((m - 2) div 2)) t"

definition crecip :: "limb list \<Rightarrow> limb list" where
  "crecip z =
     (let z2 = fsquare z;
          t1 = fsquare z2;
          t0 = fsquare t1;
          z9 = fmul t0 z;
          z11 = fmul z9 z2;
          t0 = fsquare z11;
          z2_5_0 = fmul t0 z9;
          t0 = fsquare z2_5_0; t1 = fsquare t0; t0 = fsquare t1; t1 = fsquare t0; t0 = fsquare t1;
          z2_10_0 = fmul t0 z2_5_0;
          t0 = fsquare z2_10_0; t1 = fsquare t0;
          t1 = fsquare_loop 10 t1;
          z2_20_0 = fmul t1 z2_10_0;
          t0 = fsquare z2_20_0; t1 = fsquare t0;
          t1 = fsquare_loop 20 t1;
          t0 = fmul t1 z2_20_0;
          t1 = fsquare t0; t0 = fsquare t1;
          t0 = fsquare_loop 10 t0;
          z2_50_0 = fmul t0 z2_10_0;
          t0 = fsquare z2_50_0; t1 = fsquare t0;
          t1 = fsquare_loop 50 t1;
          z2_100_0 = fmul t1 z2_50_0;
          t1 = fsquare z2_100_0; t0 = fsquare t1;
          t0 = fsquare_loop 100 t0;
          t1 = fmul t0 z2_100_0;
          t0 = fsquare t1; t1 = fsquare t0;
          t1 = fsquare_loop 50 t1;
          t0 = fmul t1 z2_50_0;
          t1 = fsquare t0; t0 = fsquare t1; t1 = fsquare t0; t0 = fsquare t1; t1 = fsquare t0
      in fmul t1 z11)"

definition curve25519_donna :: "bytes \<Rightarrow> bytes \<Rightarrow> bytes \<Rightarrow> bytes" where
  "curve25519_donna mypublic secret basepoint =
     (let e = take 32 secret;
          bp = fexpand basepoint;
          (x, z) = cmult e bp;
          zmone = crecip z;
          z = fmul x zmone
      in fcontract mypublic z)"

end
