(* ===== verification/Donna_Field.thy ===== *)
theory Donna_Field
  imports Donna
begin

text \<open>
  The products of \<open>curve25519-donna.c\<close> over integers: the limbs of a field element as integers with
  the weights \<open>2 ^ 0, 2 ^ 26, 2 ^ 51, ...\<close>, and \<open>fproduct\<close> and \<open>fsquare_inner\<close> as the product of the values, as long as
  the limbs fit in 32 bits.
\<close>

unbundle bit_operations_syntax

section \<open>Limbs as integers\<close>

definition fweight :: "nat \<Rightarrow> nat" where
  "fweight i = (51 * i + 1) div 2"

definition feval :: "nat \<Rightarrow> int list \<Rightarrow> int" where
  "feval n xs = (\<Sum>i<n. xs ! i * 2 ^ fweight i)"

abbreviation limbs :: "int list \<Rightarrow> limb list" where
  "limbs xs \<equiv> map word_of_int xs"

lemma fweight_Suc: "fweight (Suc i) = fweight i + limb_bits i"
  unfolding fweight_def limb_bits_def by (cases "odd i") (auto elim!: oddE evenE)

lemma fweight_10: "fweight (i + 10) = fweight i + 255"
  by (simp add: fweight_def)

lemma sint_limb: "\<bar>x\<bar> < 2 ^ 63 \<Longrightarrow> sint (word_of_int x :: limb) = x"
  by (simp add: sint_sbintrunc' signed_take_bit_int_eq_self)

lemma limbs_sint: "limbs (map sint ws) = ws"
  by (induction ws) simp_all

lemma scast_ucast_int:
  assumes "\<bar>x\<bar> < 2 ^ 31"
  shows "scast (ucast (word_of_int x :: limb) :: s32) = (word_of_int x :: limb)"
proof -
  have "ucast (word_of_int x :: limb) = (word_of_int x :: s32)"
    by (simp add: unsigned_of_int word_of_int_eq_iff)
  moreover have "sint (word_of_int x :: s32) = x"
    using assms by (simp add: sint_sbintrunc' signed_take_bit_int_eq_self)
  ultimately show ?thesis
    by (metis of_int_sint)
qed

lemma limb_product_int:
  assumes "\<bar>x\<bar> < 2 ^ 31" "\<bar>y\<bar> < 2 ^ 31"
  shows "limb_product (word_of_int x) (word_of_int y) = word_of_int (x * y)"
  using assms by (simp add: limb_product_def scast_ucast_int)

section \<open>Products\<close>

lemma fproduct_sums_hom: "limbs (fproduct_sums p) = fproduct_sums (\<lambda>i j. word_of_int (p i j))"
  by (simp add: fproduct_sums_def)

lemma fsquare_sums_eq:
  fixes x :: "nat \<Rightarrow> 'a :: comm_ring_1"
  shows "fsquare_sums (\<lambda>i j. x i * x j) = fproduct_sums (\<lambda>i j. x i * x j)"
  by (simp add: fproduct_sums_def fsquare_sums_def algebra_simps)

lemma feval_0 [simp]: "feval 0 xs = 0"
  by (simp add: feval_def)

lemma feval_Suc: "feval (Suc n) xs = feval n xs + xs ! n * 2 ^ fweight n"
  by (simp add: feval_def)

lemma feval_numeral:
  "feval (numeral k) xs = feval (pred_numeral k) xs + xs ! pred_numeral k * 2 ^ fweight (pred_numeral k)"
  by (simp only: numeral_eq_Suc feval_Suc)

lemma feval_product:
  "feval 19 (fproduct_sums (\<lambda>i j. xs ! i * ys ! j)) = feval 10 xs * feval 10 ys"
  by (simp add: fweight_def fproduct_sums_def feval_numeral feval_Suc) (simp add: algebra_simps)

lemma fproduct_int:
  assumes "length xs = 10" "length ys = 10" "\<And>x. x \<in> set xs \<union> set ys \<Longrightarrow> \<bar>x\<bar> < 2 ^ 31"
  shows "fproduct (limbs xs) (limbs ys) = limbs (fproduct_sums (\<lambda>i j. xs ! i * ys ! j))"
  using assms by (simp add: fproduct_def fproduct_sums_hom fproduct_sums_def limb_product_int)

lemma fsquare_inner_int:
  assumes "length xs = 10" "\<And>x. x \<in> set xs \<Longrightarrow> \<bar>x\<bar> < 2 ^ 31"
  shows "fsquare_inner (limbs xs) = limbs (fproduct_sums (\<lambda>i j. xs ! i * xs ! j))"
proof -
  have "fsquare_inner (limbs xs) = fsquare_sums (\<lambda>i j. word_of_int (xs ! i) * word_of_int (xs ! j))"
    using assms by (simp add: fsquare_inner_def fsquare_sums_def limb_product_int)
  also have "\<dots> = limbs (fproduct_sums (\<lambda>i j. xs ! i * xs ! j))"
    by (simp add: fsquare_sums_eq fproduct_sums_hom)
  finally show ?thesis .
qed

text \<open>Every sum has at most 14 products.\<close>

definition bd :: "int \<Rightarrow> int \<Rightarrow> int \<Rightarrow> bool" where
  "bd M k x \<longleftrightarrow> \<bar>x\<bar> \<le> k * M"

lemma bd_add: "bd M k x \<Longrightarrow> bd M l y \<Longrightarrow> bd M (k + l) (x + y)"
  unfolding bd_def by (simp add: distrib_right)

lemma bd_double: "bd M k x \<Longrightarrow> bd M (2 * k) (2 * x)"
  unfolding bd_def by simp

lemma bd_14: "bd M k x \<Longrightarrow> k \<le> 14 \<Longrightarrow> 0 \<le> M \<Longrightarrow> \<bar>x\<bar> \<le> 14 * M"
  unfolding bd_def by (meson mult_right_mono order_trans)

lemma fproduct_sums_bound:
  assumes p: "\<And>i j. bd M 1 (p i j)" and "0 \<le> M" "c \<in> set (fproduct_sums p)"
  shows "\<bar>c\<bar> \<le> 14 * M"
  using assms(3) unfolding fproduct_sums_def list.set
  by (elim insertE emptyE; simp only:)
    (rule bd_14, ((rule p | rule bd_add | rule bd_double)+)[1], simp, rule assms(2))+

end
