(* ===== verification/Donna_Reduce.thy ===== *)
theory Donna_Reduce
  imports Donna_Field
begin

text \<open>
  Reduction in \<open>curve25519-donna.c\<close>. \<open>freduce_degree\<close> folds the limbs above 9 back with the factor
  19, \<open>freduce_coefficients\<close> carries, and no addition or shift overflows 64 bits. The result
  is the contract of the field operations: \<open>rep B a x\<close> says that the limbs of \<open>a\<close> are below \<open>B\<close> and
  stand for \<open>x\<close> modulo \<open>2 ^ 255 - 19\<close>; products and squares take factors below \<open>2 ^ 27\<close> to results
  below \<open>2 ^ 26\<close>, sums and differences do the converse.
\<close>

unbundle bit_operations_syntax

section \<open>Reduction of the degree\<close>

definition p25519 :: int where "p25519 = 2 ^ 255 - 19"

definition degree_int :: "int list \<Rightarrow> int list" where
  "degree_int xs = map (\<lambda>i. xs ! i + 19 * xs ! (i + 10)) [0..<9] @ drop 9 xs"

lemma add_19_int:
  assumes "i < length xs" "j < length xs" "i \<noteq> j"
  shows "add_19 i j (limbs xs) = limbs (xs[i := xs ! i + 19 * xs ! j])"
proof -
  have "(word_of_int a :: limb) + push_bit 4 (word_of_int b) + push_bit 1 (word_of_int b) + word_of_int b =
      word_of_int (a + 19 * b)" for a b
    by (simp add: push_bit_eq_mult algebra_simps)
  then show ?thesis
    using assms by (simp add: add_19_def Let_def map_update del: push_bit_Suc_numeral of_int_add)
qed

lemma fold_degree:
  assumes "k \<le> 9" "length xs = 19"
  shows "fold (\<lambda>i xs. xs[i := xs ! i + 19 * xs ! (i + 10)]) (rev [0..<k]) xs =
    map (\<lambda>i. xs ! i + 19 * xs ! (i + 10)) [0..<k] @ drop k (xs :: int list)"
  using assms
proof (induction k arbitrary: xs)
  case (Suc k)
  then show ?case
    by (simp add: Cons_nth_drop_Suc [symmetric] drop_update_cancel)
qed simp

lemma fold_add_19:
  assumes "\<And>i. i \<in> set is \<Longrightarrow> i < 9" "length xs = 19"
  shows "fold (\<lambda>i. add_19 i (i + 10)) is (limbs xs) =
    limbs (fold (\<lambda>i xs. xs[i := xs ! i + 19 * xs ! (i + 10)]) is xs)"
  using assms
proof (induction "is" arbitrary: xs)
  case (Cons i "is")
  have "i < 9"
    using Cons.prems(1) [of i] by simp
  then have "add_19 i (i + 10) (limbs xs) = limbs (xs[i := xs ! i + 19 * xs ! (i + 10)])"
    using Cons.prems(2) by (intro add_19_int) auto
  then show ?case
    using Cons by simp
qed simp

lemma freduce_degree_int:
  assumes "length xs = 19"
  shows "freduce_degree (limbs xs) = limbs (degree_int xs)"
proof -
  have "[8, 7, 6, 5, 4, 3, 2, 1, 0] = rev [0..<9]"
    by (simp add: upt_rec)
  then show ?thesis
    using fold_add_19 [of "rev [0..<9]" xs] fold_degree [of 9 xs] assms
    unfolding freduce_degree_def degree_int_def by simp
qed

lemma feval_split: "feval (10 + n) xs = feval 10 xs + 2 ^ 255 * feval n (drop 10 xs)"
  if "10 + n \<le> length xs"
  using that
proof (induction n)
  case (Suc n)
  have "fweight (10 + n) = fweight n + 255"
    using fweight_10 [of n] by (simp add: add.commute)
  moreover have "feval (10 + Suc n) xs = feval (10 + n) xs + xs ! (10 + n) * 2 ^ fweight (10 + n)"
    by (simp only: add_Suc_right feval_Suc)
  moreover have "drop 10 xs ! n = xs ! (10 + n)"
    using Suc.prems by simp
  ultimately show ?case
    using Suc by (simp add: feval_Suc [of n] distrib_left power_add)
qed simp

lemma feval_degree_int:
  assumes "length xs = 19"
  shows "feval 10 (degree_int xs) mod p25519 = feval 19 xs mod p25519"
proof -
  have "feval n (degree_int xs) = feval n xs + 19 * feval n (drop 10 xs)" if "n \<le> 9" for n
    using that
  proof (induction n)
    case (Suc n)
    then show ?case
      using assms by (simp add: feval_Suc degree_int_def nth_append distrib_left distrib_right add.commute [of n 10])
  qed simp
  then have "feval 10 (degree_int xs) = feval 10 xs + 19 * feval 9 (drop 10 xs)"
    using assms feval_Suc [of 9 xs] feval_Suc [of 9 "degree_int xs"] 
    by (simp add: degree_int_def nth_append)
  moreover have "feval 19 xs = feval 10 xs + 2 ^ 255 * feval 9 (drop 10 xs)"
    using feval_split [of 9 xs] assms by (simp)
  ultimately have "feval 19 xs = feval 10 (degree_int xs) + p25519 * feval 9 (drop 10 xs)"
    by (simp add: p25519_def algebra_simps)
  then show ?thesis
    by simp
qed

lemma degree_int_bound:
  assumes "length xs = 19" "\<And>x. x \<in> set xs \<Longrightarrow> \<bar>x\<bar> \<le> 14 * M" "i < 10"
  shows "\<bar>degree_int xs ! i\<bar> \<le> 280 * M"
proof -
  have i: "\<bar>xs ! i\<bar> \<le> 14 * M"
    using assms by simp
  show ?thesis
  proof (cases "i < 9")
    case True
    then have "\<bar>xs ! (i + 10)\<bar> \<le> 14 * M"
      using assms by simp
    then show ?thesis
      using i True by (simp add: degree_int_def nth_append)
  next
    case False
    then have "i = 9"
      using assms(3) by simp
    then show ?thesis
      using i assms(1) by (simp add: degree_int_def nth_append)
  qed
qed

section \<open>Reduction of the coefficients\<close>

text \<open>Division that truncates towards zero, as \<open>/\<close> in C.\<close>

definition tdiv :: "int \<Rightarrow> nat \<Rightarrow> int" where
  "tdiv x n = (if x < 0 then - ((- x) div 2 ^ n) else x div 2 ^ n)"

lemma tdiv_rounded: "tdiv x n = (x + (if x < 0 then 2 ^ n - 1 else 0)) div 2 ^ n"
proof (cases "x < 0")
  case True
  define q r where "q = (- x) div 2 ^ n" and "r = (- x) mod 2 ^ n"
  have "- x = q * 2 ^ n + r" and r: "0 \<le> r" "r < 2 ^ n"
    unfolding q_def r_def by (simp_all only: div_mult_mod_eq pos_mod_sign pos_mod_bound zero_less_power zero_less_numeral)
  then have "x + (2 ^ n - 1) = (2 ^ n - 1 - r) + (- q) * 2 ^ n"
    by simp
  then have "(x + (2 ^ n - 1)) div 2 ^ n = - q + (2 ^ n - 1 - r) div 2 ^ n"
    using div_mult_self1 [of "2 ^ n" "2 ^ n - 1 - r" "- q"] by (simp only:) simp
  moreover have "(2 ^ n - 1 - r) div 2 ^ n = 0"
    using r by (intro div_pos_pos_trivial) simp_all
  ultimately show ?thesis
    using True by (simp add: tdiv_def q_def)
qed (simp add: tdiv_def)

lemma tdiv_remainder: "\<bar>x - 2 ^ n * tdiv x n\<bar> < 2 ^ n"
proof -
  have "x - 2 ^ n * tdiv x n = (if x < 0 then - ((- x) mod 2 ^ n) else x mod 2 ^ n)"
    by (simp add: tdiv_def minus_mod_eq_mult_div [symmetric])
  moreover have "0 \<le> y mod 2 ^ n" "y mod 2 ^ n < 2 ^ n" for y :: int
    by simp_all
  ultimately show ?thesis
    by (metis abs_minus_cancel abs_of_nonneg)
qed

lemma tdiv_bound: "\<bar>x\<bar> \<le> B \<Longrightarrow> \<bar>tdiv x n\<bar> \<le> B div 2 ^ n"
proof -
  assume "\<bar>x\<bar> \<le> B"
  moreover have "\<bar>tdiv x n\<bar> = \<bar>x\<bar> div 2 ^ n"
    using pos_imp_zdiv_nonneg_iff [of "2 ^ n" "- x"] pos_imp_zdiv_nonneg_iff [of "2 ^ n" x] by (simp add: tdiv_def)
  ultimately show ?thesis
    by (simp add: zdiv_mono1)
qed

lemma sint_signed_drop_bit: "sint (signed_drop_bit n (w :: 'a :: len word)) = sint w div 2 ^ n"
  by (simp add: sint_signed_drop_bit_eq drop_bit_eq_div)

lemma signed_drop_bit_31: "signed_drop_bit 31 (w :: u32) = (if bit w 31 then - 1 else 0)"
proof (rule bit_word_eqI)
  fix n assume "n < LENGTH(32)"
  then show "bit (signed_drop_bit 31 w) n = bit (if bit w 31 then - 1 else 0 :: u32) n"
    by (cases n) (simp_all add: bit_signed_drop_bit_iff)
qed

lemma sign_word:
  "signed_drop_bit 31 (ucast (drop_bit 32 v) :: u32) = (if sint (v :: limb) < 0 then - 1 else 0)"
proof -
  have "bit (ucast (drop_bit 32 v) :: u32) 31 \<longleftrightarrow> sint v < 0"
    using bit_last_iff [of v] by (simp add: bit_ucast_iff bit_drop_bit_eq)
  then show ?thesis
    by (simp add: signed_drop_bit_31)
qed

lemma sint_rounded:
  fixes v :: limb
  assumes "0 \<le> c" "c < 2 ^ 62"
  shows "sint (v + word_of_int (if sint v < 0 then c else 0)) = sint v + (if sint v < 0 then c else 0)"
proof -
  have "- (2 ^ 63) \<le> sint v" "sint v < 2 ^ 63"
    using sint_range_size [of v] by (simp_all add: size_word.rep_eq)
  then have "signed_take_bit 63 (sint v + (if sint v < 0 then c else 0)) = sint v + (if sint v < 0 then c else 0)"
    using assms by (intro signed_take_bit_int_eq_self) auto
  moreover have "v + word_of_int (if sint v < 0 then c else 0) = word_of_int (sint v + (if sint v < 0 then c else 0))"
    by simp
  ultimately show ?thesis
    by (simp only: sint_sbintrunc') simp
qed

lemma sint_div_by:
  "sint (div_by_2_26 v) = tdiv (sint v) 26" "sint (div_by_2_25 v) = tdiv (sint v) 25"
proof -
  have "sint (mask 26 :: u32) = 2 ^ 26 - 1" "sint (mask 25 :: u32) = 2 ^ 25 - 1"
    by (simp_all add: mask_eq_exp_minus_1)
  then have "scast (mask 26 :: u32) = (word_of_int (2 ^ 26 - 1) :: limb)" "scast (mask 25 :: u32) = (word_of_int (2 ^ 25 - 1) :: limb)"
    by (metis of_int_sint)+
  then have "scast (drop_bit 6 (if b then - 1 else 0 :: u32)) = (word_of_int (if b then 2 ^ 26 - 1 else 0) :: limb)"
    "scast (drop_bit 7 (if b then - 1 else 0 :: u32)) = (word_of_int (if b then 2 ^ 25 - 1 else 0) :: limb)" for b
    by simp_all
  then show "sint (div_by_2_26 v) = tdiv (sint v) 26" "sint (div_by_2_25 v) = tdiv (sint v) 25"
    using sint_rounded [of "2 ^ 26 - 1" v] sint_rounded [of "2 ^ 25 - 1" v]
    unfolding div_by_2_26_def div_by_2_25_def Let_def sign_word sint_signed_drop_bit tdiv_rounded
    by simp_all
qed

lemma word_of_sint: "word_of_int (sint w) = (w :: limb)"
  by simp

lemma div_by_int:
  assumes "\<bar>x\<bar> < 2 ^ 63"
  shows "div_by_2_26 (word_of_int x) = word_of_int (tdiv x 26)"
    and "div_by_2_25 (word_of_int x) = word_of_int (tdiv x 25)"
  by (metis assms sint_div_by sint_limb word_of_sint)+

definition carry_int :: "nat \<Rightarrow> int list \<Rightarrow> int list" where
  "carry_int i xs =
     (let q = tdiv (xs ! i) (limb_bits i)
      in xs[i := xs ! i - 2 ^ limb_bits i * q, i + 1 := xs ! (i + 1) + q])"

lemma carry_word_int:
  assumes "i + 1 < length xs" "\<bar>xs ! i\<bar> < 2 ^ 63"
  shows "even i \<Longrightarrow> carry_26 i (limbs xs) = limbs (carry_int i xs)"
    and "odd i \<Longrightarrow> carry_25 i (limbs xs) = limbs (carry_int i xs)"
  using assms
  by (simp_all add: carry_26_def carry_25_def carry_int_def Let_def limb_bits_def div_by_int map_update push_bit_eq_mult mult.commute)

lemma length_carry_int [simp]: "length (carry_int i xs) = length xs"
  by (simp add: carry_int_def Let_def)

lemma length_fold_carry: "length (fold carry_int is xs) = length xs"
  by (induction "is" arbitrary: xs) simp_all

lemma feval_update:
  assumes "i < n" "i < length xs"
  shows "feval n (xs[i := v]) = feval n xs + (v - xs ! i) * 2 ^ fweight i"
proof -
  have "feval n (xs[i := v]) = (\<Sum>j<n. xs ! j * 2 ^ fweight j + (if j = i then (v - xs ! i) * 2 ^ fweight i else 0))"
    unfolding feval_def using assms(2) by (intro sum.cong) (auto simp: nth_list_update algebra_simps)
  then show ?thesis
    using assms(1) by (simp add: sum.distrib feval_def)
qed

lemma feval_carry_int:
  assumes "i + 1 < n" "n \<le> length xs"
  shows "feval n (carry_int i xs) = feval n xs"
  using assms by (simp add: carry_int_def Let_def feval_update fweight_Suc power_add algebra_simps)

lemma carry_int_nth:
  assumes "i + 1 < length xs"
  shows "\<bar>carry_int i xs ! i\<bar> < 2 ^ limb_bits i"
    and "\<bar>xs ! i\<bar> \<le> B \<Longrightarrow> \<bar>carry_int i xs ! (i + 1)\<bar> \<le> \<bar>xs ! (i + 1)\<bar> + B div 2 ^ limb_bits i"
    and "j \<noteq> i \<Longrightarrow> j \<noteq> i + 1 \<Longrightarrow> carry_int i xs ! j = xs ! j"
  using assms tdiv_remainder [of "xs ! i" "limb_bits i"] tdiv_bound [of "xs ! i" B "limb_bits i"]
  by (auto simp: carry_int_def Let_def nth_list_update)

text \<open>The limbs below \<open>k\<close> are carried, and the carry is in limb \<open>k\<close>.\<close>

definition carried :: "nat \<Rightarrow> int list \<Rightarrow> bool" where
  "carried k xs \<longleftrightarrow> 10 < length xs \<and> (\<forall>j<k. \<bar>xs ! j\<bar> < 2 ^ limb_bits j) \<and>
     \<bar>xs ! k\<bar> \<le> (if k < 10 then 281 * 2 ^ 54 else 281 * 2 ^ 29) \<and>
     (\<forall>j. k < j \<and> j < 10 \<longrightarrow> \<bar>xs ! j\<bar> \<le> 280 * 2 ^ 54) \<and> (k < 10 \<longrightarrow> xs ! 10 = 0)"

lemma carried_step:
  assumes "carried k xs" "k < 10"
  shows "carried (Suc k) (carry_int k xs)"
proof -
  note xs = assms(1) [unfolded carried_def]
  have k: "k + 1 < length xs" and B: "\<bar>xs ! k\<bar> \<le> 281 * 2 ^ 54"
    using xs assms(2) by auto
  have "\<bar>carry_int k xs ! Suc k\<bar> \<le> \<bar>xs ! Suc k\<bar> + 281 * 2 ^ 54 div 2 ^ limb_bits k"
    using carry_int_nth(2) [OF k B] by simp
  moreover have "Suc k < 10 \<Longrightarrow> \<bar>xs ! Suc k\<bar> \<le> 280 * 2 ^ 54"
    using xs by simp
  moreover have "k = 9" "xs ! Suc k = 0" if "\<not> Suc k < 10"
  proof -
    show "k = 9"
      using that assms(2) by simp
    then show "xs ! Suc k = 0"
      using xs by simp
  qed
  ultimately have "\<bar>carry_int k xs ! Suc k\<bar> \<le> (if Suc k < 10 then 281 * 2 ^ 54 else 281 * 2 ^ 29)"
    by (cases "Suc k < 10") (auto simp: limb_bits_def split: if_splits)
  then show ?thesis
    using xs assms(2) carry_int_nth(1,3) [OF k] by (auto simp: carried_def less_Suc_eq)
qed

lemma carried_fold:
  assumes "carried 0 xs" "k \<le> 10"
  shows "carried k (fold carry_int [0..<k] xs) \<and>
    feval 11 (fold carry_int [0..<k] xs) = feval 11 xs \<and>
    fold (\<lambda>i. if even i then carry_26 i else carry_25 i) [0..<k] (limbs xs) = limbs (fold carry_int [0..<k] xs)"
  using assms(2)
proof (induction k)
  case 0
  then show ?case
    using assms(1) by simp
next
  case (Suc k)
  define ys where "ys = fold carry_int [0..<k] xs"
  have ys: "carried k ys" "feval 11 ys = feval 11 xs"
      "fold (\<lambda>i. if even i then carry_26 i else carry_25 i) [0..<k] (limbs xs) = limbs ys"
    using Suc by (simp_all add: ys_def)
  then have len: "10 < length ys" and "\<bar>ys ! k\<bar> < 2 ^ 63"
    using Suc.prems by (auto simp: carried_def split: if_splits)
  then have "(if even k then carry_26 k else carry_25 k) (limbs ys) = limbs (carry_int k ys)"
    using carry_word_int [of k ys] Suc.prems by simp
  moreover have "feval 11 (carry_int k ys) = feval 11 xs"
    using feval_carry_int [of k 11 ys] ys(2) len Suc.prems by simp
  ultimately show ?case
    using carried_step [OF ys(1)] Suc.prems ys(3) by (simp add: ys_def [symmetric])
qed

lemma feval_update_above: "n \<le> i \<Longrightarrow> feval n (xs[i := v]) = feval n xs"
  unfolding feval_def by (intro sum.cong) auto

lemma carry_pairs:
  "fold (\<lambda>i output. carry_25 (i + 1) (carry_26 i output)) [0, 2, 4, 6, 8] output =
    fold (\<lambda>i. if even i then carry_26 i else carry_25 i) [0..<10] output"
proof -
  have "[0..<10] = [0, 1, 2, 3, 4, 5, 6, 7, 8, 9 :: nat]"
    by (simp add: upt_rec)
  then show ?thesis
    by (simp only:) simp
qed

definition coefficients_int :: "int list \<Rightarrow> int list" where
  "coefficients_int xs =
     (let xs = fold carry_int [0..<10] (xs[10 := 0])
      in carry_int 0 (xs[0 := xs ! 0 + 19 * xs ! 10, 10 := 0]))"

lemma freduce_coefficients_int:
  assumes "10 < length xs" "\<And>i. i < 10 \<Longrightarrow> \<bar>xs ! i\<bar> \<le> 280 * 2 ^ 54"
  shows "freduce_coefficients (limbs xs) = limbs (coefficients_int xs)"
    and "i < 10 \<Longrightarrow> \<bar>coefficients_int xs ! i\<bar> < 2 ^ 26"
    and "feval 10 (coefficients_int xs) mod p25519 = feval 10 xs mod p25519"
proof -
  define ys where "ys = fold carry_int [0..<10] (xs[10 := 0])"
  define zs where "zs = ys[0 := ys ! 0 + 19 * ys ! 10, 10 := 0]"
  have "\<bar>xs ! 0\<bar> \<le> 281 * 2 ^ 54"
    using assms(2) [of 0] by simp
  then have "carried 0 (xs[10 := 0])"
    using assms by (auto simp: carried_def nth_list_update)
  note ys' = carried_fold [OF this, of 10, folded ys_def, simplified]
  then have ys: "carried 10 ys" "feval 11 ys = feval 11 (xs[10 := 0])"
      "fold (\<lambda>i. if even i then carry_26 i else carry_25 i) [0..<10] (limbs (xs[10 := 0])) = limbs ys"
    by blast+
  have "\<bar>ys ! 0\<bar> < 2 ^ 26" "\<bar>ys ! 10\<bar> \<le> 281 * 2 ^ 29" and "ys \<noteq> []"
    using ys(1) by (auto simp: carried_def limb_bits_def dest: spec [of _ 0])
  then have z0: "\<bar>zs ! 0\<bar> \<le> 2 ^ 26 + 19 * (281 * 2 ^ 29)"
    by (simp add: zs_def nth_list_update)
  have zj: "\<bar>zs ! j\<bar> < 2 ^ limb_bits j" if "j < 10" "j \<noteq> 0" for j
    using ys(1) that by (simp add: carried_def zs_def nth_list_update)
  have len: "10 < length zs" "10 < length ys"
    using ys(1) by (simp_all add: carried_def zs_def)
  have "add_19 0 10 (limbs ys) = limbs (ys[0 := ys ! 0 + 19 * ys ! 10])"
    using len by (intro add_19_int) auto
  then have "(add_19 0 10 (limbs ys))[10 := 0] = limbs zs"
    by (simp add: zs_def map_update)
  moreover have "carry_26 0 (limbs zs) = limbs (carry_int 0 zs)"
    using len z0 by (intro carry_word_int) auto
  ultimately show "freduce_coefficients (limbs xs) = limbs (coefficients_int xs)"
    using ys(3) unfolding freduce_coefficients_def coefficients_int_def Let_def carry_pairs
    by (simp add: map_update ys_def [symmetric] zs_def [symmetric])
  have coeff: "coefficients_int xs = carry_int 0 zs"
    by (simp add: coefficients_int_def ys_def zs_def Let_def)
  show "\<bar>coefficients_int xs ! i\<bar> < 2 ^ 26" if i: "i < 10"
  proof (cases "i \<le> 1")
    case True
    then show ?thesis
      using carry_int_nth(1) [of 0 zs] carry_int_nth(2) [of 0 zs, OF _ z0] zj [of 1] len
      by (cases i) (auto simp: coeff limb_bits_def)
  next
    case False
    then show ?thesis
      using carry_int_nth(3) [of 0 zs i] zj [OF i] len by (auto simp: coeff limb_bits_def split: if_splits)
  qed
  have "feval 10 (coefficients_int xs) = feval 10 ys + 19 * ys ! 10"
    using feval_carry_int [of 0 10 zs] len \<open>ys \<noteq> []\<close>
    by (simp add: coeff zs_def feval_update feval_update_above fweight_def)
  moreover have "feval 10 xs = feval 10 ys + ys ! 10 * 2 ^ 255"
    using ys(2) feval_Suc [of 10 ys] feval_Suc [of 10 "xs[10 := 0]"] assms(1)
    by (simp add: feval_update_above fweight_def)
  ultimately have "feval 10 xs = feval 10 (coefficients_int xs) + p25519 * ys ! 10"
    by (simp add: p25519_def algebra_simps)
  then show "feval 10 (coefficients_int xs) mod p25519 = feval 10 xs mod p25519"
    by simp
qed

section \<open>Field operations\<close>

text \<open>A field element with limbs below a bound, and its value.\<close>

definition fe_ok :: "int \<Rightarrow> limb list \<Rightarrow> bool" where
  "fe_ok B ws \<longleftrightarrow> length ws = 10 \<and> (\<forall>w\<in>set ws. \<bar>sint w\<bar> < B)"

definition fe :: "limb list \<Rightarrow> int" where
  "fe ws = feval 10 (map sint ws)"

lemma fe_limbs: "(\<And>x. x \<in> set xs \<Longrightarrow> \<bar>x\<bar> < 2 ^ 63) \<Longrightarrow> fe (limbs xs) = feval 10 xs"
  unfolding fe_def by (rule arg_cong [where f = "feval 10"]) (simp add: map_idI sint_limb)

lemma fe_ok_limbs:
  assumes "length xs = 10" "\<And>x. x \<in> set xs \<Longrightarrow> \<bar>x\<bar> < B" "B \<le> 2 ^ 63"
  shows "fe_ok B (limbs xs)" "fe (limbs xs) = feval 10 xs"
  using assms fe_limbs [of xs] by (force simp: fe_ok_def sint_limb)+

lemma feval_take: "n \<le> m \<Longrightarrow> feval n (take m xs) = feval n xs"
  unfolding feval_def by (intro sum.cong) auto

lemma reduce_coefficients_ok:
  assumes "10 < length xs" "\<And>i. i < 10 \<Longrightarrow> \<bar>xs ! i\<bar> \<le> 280 * 2 ^ 54"
  shows "fe_ok (2 ^ 26) (take 10 (freduce_coefficients (limbs xs)))"
    and "fe (take 10 (freduce_coefficients (limbs xs))) mod p25519 = feval 10 xs mod p25519"
proof -
  have len: "length (coefficients_int xs) = length xs"
    by (simp add: coefficients_int_def Let_def length_fold_carry)
  note c = freduce_coefficients_int [OF assms]
  have "\<bar>x\<bar> < 2 ^ 26" if "x \<in> set (take 10 (coefficients_int xs))" for x
    using that c(2) by (auto simp: in_set_conv_nth)
  then have "fe_ok (2 ^ 26) (limbs (take 10 (coefficients_int xs)))"
      "fe (limbs (take 10 (coefficients_int xs))) = feval 10 (take 10 (coefficients_int xs))"
    using fe_ok_limbs [of "take 10 (coefficients_int xs)" "2 ^ 26"] assms(1) len by simp_all
  then show "fe_ok (2 ^ 26) (take 10 (freduce_coefficients (limbs xs)))"
    "fe (take 10 (freduce_coefficients (limbs xs))) mod p25519 = feval 10 xs mod p25519"
    by (simp_all add: c(1,3) take_map feval_take)
qed


lemma reduce_product_int:
  assumes "length xs = 10" "length ys = 10" "\<And>x. x \<in> set xs \<union> set ys \<Longrightarrow> \<bar>x\<bar> < 2 ^ 27"
  defines "ps \<equiv> fproduct_sums (\<lambda>i j. xs ! i * ys ! j)"
  shows "fe_ok (2 ^ 26) (reduce_product (limbs ps))"
    and "fe (reduce_product (limbs ps)) mod p25519 = feval 10 xs * feval 10 ys mod p25519"
proof -
  define qs where "qs = fproduct_sums (\<lambda>i j. if i < 10 \<and> j < 10 then xs ! i * ys ! j else 0)"
  have "qs = ps"
    by (simp add: qs_def ps_def fproduct_sums_def)
  have "\<bar>xs ! i * ys ! j\<bar> \<le> 2 ^ 27 * 2 ^ 27" if "i < 10" "j < 10" for i j
    using assms(1-3) that unfolding abs_mult by (intro mult_mono) (auto intro: less_imp_le)
  then have "bd (2 ^ 54) 1 (if i < 10 \<and> j < 10 then xs ! i * ys ! j else 0)" for i j
    by (auto simp: bd_def)
  then have "\<bar>c\<bar> \<le> 14 * 2 ^ 54" if "c \<in> set ps" for c
    using fproduct_sums_bound [of "2 ^ 54" "\<lambda>i j. if i < 10 \<and> j < 10 then xs ! i * ys ! j else 0" c] that
    unfolding \<open>qs = ps\<close> [symmetric] qs_def by simp
  moreover have len: "length ps = 19"
    by (simp add: ps_def fproduct_sums_def)
  ultimately have "\<bar>degree_int ps ! i\<bar> \<le> 280 * 2 ^ 54" if "i < 10" for i
    using degree_int_bound that by blast
  moreover have "10 < length (degree_int ps)"
    using len by (simp add: degree_int_def)
  ultimately have "fe_ok (2 ^ 26) (take 10 (freduce_coefficients (limbs (degree_int ps))))"
      "fe (take 10 (freduce_coefficients (limbs (degree_int ps)))) mod p25519 = feval 10 (degree_int ps) mod p25519"
    using reduce_coefficients_ok by blast+
  then show "fe_ok (2 ^ 26) (reduce_product (limbs ps))"
    "fe (reduce_product (limbs ps)) mod p25519 = feval 10 xs * feval 10 ys mod p25519"
    using len feval_degree_int [OF len] feval_product [of xs ys]
    by (simp_all add: reduce_product_def freduce_degree_int ps_def)
qed

lemma fe_okD: "fe_ok B ws \<Longrightarrow> length (map sint ws) = 10" "fe_ok B ws \<Longrightarrow> x \<in> set (map sint ws) \<Longrightarrow> \<bar>x\<bar> < B"
  by (auto simp: fe_ok_def)

lemma fproduct_ok:
  assumes "fe_ok (2 ^ 27) a" "fe_ok (2 ^ 27) b"
  shows "fe_ok (2 ^ 26) (reduce_product (fproduct a b))"
    and "fe (reduce_product (fproduct a b)) mod p25519 = fe a * fe b mod p25519"
proof -
  have b: "x \<in> set (map sint a) \<union> set (map sint b) \<Longrightarrow> \<bar>x\<bar> < 2 ^ 27" for x
    using assms by (auto simp: fe_ok_def)
  then have "x \<in> set (map sint a) \<union> set (map sint b) \<Longrightarrow> \<bar>x\<bar> < 2 ^ 31" for x
    by force
  then have "fproduct a b = limbs (fproduct_sums (\<lambda>i j. map sint a ! i * map sint b ! j))"
    using fproduct_int [of "map sint a" "map sint b"] fe_okD(1) [OF assms(1)] fe_okD(1) [OF assms(2)]
    by (simp only: limbs_sint)
  then show "fe_ok (2 ^ 26) (reduce_product (fproduct a b))"
    "fe (reduce_product (fproduct a b)) mod p25519 = fe a * fe b mod p25519"
    using reduce_product_int [OF fe_okD(1) [OF assms(1)] fe_okD(1) [OF assms(2)] b] by (simp_all add: fe_def)
qed

lemma fsquare_ok:
  assumes "fe_ok (2 ^ 27) a"
  shows "fe_ok (2 ^ 26) (fsquare a)" "fe (fsquare a) mod p25519 = (fe a)\<^sup>2 mod p25519"
proof -
  have b: "x \<in> set (map sint a) \<union> set (map sint a) \<Longrightarrow> \<bar>x\<bar> < 2 ^ 27" for x
    using assms by (auto simp: fe_ok_def)
  then have "x \<in> set (map sint a) \<Longrightarrow> \<bar>x\<bar> < 2 ^ 31" for x
    by force
  then have "fsquare_inner a = limbs (fproduct_sums (\<lambda>i j. map sint a ! i * map sint a ! j))"
    using fsquare_inner_int [of "map sint a"] fe_okD(1) [OF assms(1)] by (simp only: limbs_sint)
  then show "fe_ok (2 ^ 26) (fsquare a)" "fe (fsquare a) mod p25519 = (fe a)\<^sup>2 mod p25519"
    using reduce_product_int [OF fe_okD(1) [OF assms] fe_okD(1) [OF assms] b]
    by (simp_all add: fe_def fsquare_def reduce_product_def power2_eq_square)
qed

lemma fmul_ok:
  assumes "fe_ok (2 ^ 27) a" "fe_ok (2 ^ 27) b"
  shows "fe_ok (2 ^ 26) (fmul a b)" "fe (fmul a b) mod p25519 = fe a * fe b mod p25519"
  using fproduct_ok [OF assms] by (simp_all add: fmul_def reduce_product_def)


text \<open>\<open>rep B a x\<close>: the limbs of \<open>a\<close> are below \<open>B\<close> and stand for the field element \<open>x\<close>.\<close>

definition rep :: "int \<Rightarrow> limb list \<Rightarrow> int \<Rightarrow> bool" where
  "rep B a x \<longleftrightarrow> fe_ok B a \<and> fe a mod p25519 = x mod p25519"

lemma rep_mod: "rep B a (x mod p25519) \<longleftrightarrow> rep B a x"
  by (simp add: rep_def)

lemma rep_wide: "rep (2 ^ 26) a x \<Longrightarrow> rep (2 ^ 27) a x"
  by (fastforce simp: rep_def fe_ok_def)

lemma rep_product:
  assumes "rep (2 ^ 27) a x" "rep (2 ^ 27) b y"
  shows "rep (2 ^ 26) (reduce_product (fproduct a b)) (x * y)"
  using assms fproduct_ok unfolding rep_def by (metis mod_mult_cong)

lemma rep_fmul: "rep (2 ^ 27) a x \<Longrightarrow> rep (2 ^ 27) b y \<Longrightarrow> rep (2 ^ 26) (fmul a b) (x * y)"
  using rep_product by (simp add: fmul_def reduce_product_def)

lemma rep_fsquare: "rep (2 ^ 27) a x \<Longrightarrow> rep (2 ^ 26) (fsquare a) (x\<^sup>2)"
  using fsquare_ok unfolding rep_def by (metis power_mod)

text \<open>Operations that work limb by limb.\<close>

lemma limbwise_ok:
  assumes "\<And>i. i < 10 \<Longrightarrow> \<bar>g i\<bar> < B" "B \<le> 2 ^ 63"
  shows "fe_ok B (limbs (map g [0..<10]))" "fe (limbs (map g [0..<10])) = (\<Sum>i<10. g i * 2 ^ fweight i)"
proof -
  have "\<bar>x\<bar> < B" if "x \<in> set (map g [0..<10])" for x
    using that assms(1) by auto
  then show "fe_ok B (limbs (map g [0..<10]))" "fe (limbs (map g [0..<10])) = (\<Sum>i<10. g i * 2 ^ fweight i)"
    using fe_ok_limbs [of "map g [0..<10]" B] assms(2) by (simp_all add: feval_def)
qed

lemma fe_sum: "fe_ok B a \<Longrightarrow> fe a = (\<Sum>i<10. sint (a ! i) * 2 ^ fweight i)"
  by (simp add: fe_def feval_def fe_ok_def)

lemma fe_ok_nth: "fe_ok B a \<Longrightarrow> i < 10 \<Longrightarrow> \<bar>sint (a ! i)\<bar> < B"
  by (simp add: fe_ok_def)

lemma rep_fsum:
  assumes "rep (2 ^ 26) a x" "rep (2 ^ 26) b y"
  shows "rep (2 ^ 27) (fsum a b) (x + y)"
proof -
  have ok: "fe_ok (2 ^ 26) a" "fe_ok (2 ^ 26) b"
    using assms by (simp_all add: rep_def)
  have "fsum a b = limbs (map (\<lambda>i. sint (a ! i) + sint (b ! i)) [0..<10])"
    by (simp add: fsum_def)
  moreover have "\<bar>sint (a ! i) + sint (b ! i)\<bar> < 2 ^ 27" if "i < 10" for i
    using fe_ok_nth [OF ok(1) that] fe_ok_nth [OF ok(2) that] by simp
  ultimately have "fe_ok (2 ^ 27) (fsum a b)" "fe (fsum a b) = fe a + fe b"
    using limbwise_ok [of "\<lambda>i. sint (a ! i) + sint (b ! i)" "2 ^ 27"] fe_sum [OF ok(1)] fe_sum [OF ok(2)]
    by (simp_all add: distrib_right sum.distrib)
  then show ?thesis
    using assms unfolding rep_def by (metis mod_add_cong)
qed

lemma rep_fdifference:
  assumes "rep (2 ^ 26) a x" "rep (2 ^ 26) b y"
  shows "rep (2 ^ 27) (fdifference b a) (x - y)"
proof -
  have ok: "fe_ok (2 ^ 26) a" "fe_ok (2 ^ 26) b"
    using assms by (simp_all add: rep_def)
  have "fdifference b a = limbs (map (\<lambda>i. sint (a ! i) - sint (b ! i)) [0..<10])"
    by (simp add: fdifference_def)
  moreover have "\<bar>sint (a ! i) - sint (b ! i)\<bar> < 2 ^ 27" if "i < 10" for i
    using fe_ok_nth [OF ok(1) that] fe_ok_nth [OF ok(2) that] by simp
  ultimately have "fe_ok (2 ^ 27) (fdifference b a)" "fe (fdifference b a) = fe a - fe b"
    using limbwise_ok [of "\<lambda>i. sint (a ! i) - sint (b ! i)" "2 ^ 27"] fe_sum [OF ok(1)] fe_sum [OF ok(2)]
    by (simp_all add: left_diff_distrib sum_subtractf)
  then show ?thesis
    using assms unfolding rep_def by (metis mod_diff_cong)
qed

lemma rep_fscalar:
  assumes "rep (2 ^ 27) a x"
  shows "rep (2 ^ 26) (take 10 (freduce_coefficients (fscalar_product a 121665 @ replicate 9 0))) (121665 * x)"
proof -
  define xs where "xs = map (\<lambda>i. sint (a ! i) * 121665) [0..<10] @ replicate 9 0"
  have ok: "fe_ok (2 ^ 27) a"
    using assms by (simp add: rep_def)
  have "fscalar_product a 121665 @ replicate 9 0 = limbs xs"
    by (simp add: fscalar_product_def xs_def)
  moreover have "\<bar>xs ! i\<bar> \<le> 280 * 2 ^ 54" if "i < 10" for i
    using fe_ok_nth [OF ok that] that by (simp add: xs_def nth_append)
  moreover have "feval 10 xs = 121665 * fe a"
    using fe_sum [OF ok] by (simp add: feval_def xs_def nth_append sum_distrib_left mult_ac)
  moreover have "121665 * fe a mod p25519 = 121665 * x mod p25519"
    using assms unfolding rep_def by (metis mod_mult_right_eq)
  moreover have "10 < length xs"
    by (simp add: xs_def)
  ultimately show ?thesis
    using reduce_coefficients_ok [of xs] unfolding rep_def by metis
qed

end
