(* ===== verification/Donna_Bytes.thy ===== *)
theory Donna_Bytes
  imports Donna_Reduce Curve
begin

text \<open>
  Reading field elements: the bits of little-endian numbers, and \<open>fexpand\<close> of \<open>curve25519-donna.c\<close>, which takes
  32 bytes to the limbs of their value modulo \<open>2 ^ 255\<close>.
\<close>

unbundle bit_operations_syntax

section \<open>Bits of little-endian numbers\<close>

text \<open>The bits of a little-endian number are the bits of its bytes.\<close>

lemma bit_little_endian:
  "bit (little_endian bs) n \<longleftrightarrow> n div 8 < length bs \<and> bit (bs ! (n div 8)) (n mod 8)"
proof (induction bs arbitrary: n)
  case (Cons b bs)
  have "unat b AND push_bit 8 (little_endian bs) = 0"
    by (rule bit_eqI) (auto simp: bit_simps dest: bit_imp_le_length)
  then have "unat b + push_bit 8 (little_endian bs) = unat b OR push_bit 8 (little_endian bs)"
    by (rule disjunctive_add_eq_or)
  then have "little_endian (b # bs) = unat b OR push_bit 8 (little_endian bs)"
    by (simp add: push_bit_eq_mult mult.commute)
  then have bits: "bit (little_endian (b # bs)) n \<longleftrightarrow> bit b n \<or> 8 \<le> n \<and> bit (little_endian bs) (n - 8)"
    by (simp only:) (auto simp: bit_simps dest: bit_imp_le_length)
  show ?case
  proof (cases "n < 8")
    case True
    then show ?thesis
      using bits by simp
  next
    case False
    then have "n div 8 = Suc ((n - 8) div 8)" "n mod 8 = (n - 8) mod 8"
      by (simp_all add: le_div_geq le_mod_geq)
    moreover have "\<not> bit b n"
      using False by (auto dest: bit_imp_le_length)
    ultimately show ?thesis
      using False bits Cons by simp
  qed
qed simp
section \<open>\<open>fexpand\<close>\<close>

lemma div_mod_8: "8 * q \<le> m \<Longrightarrow> m < 8 * q + 8 \<Longrightarrow> m div 8 = q \<and> m mod 8 = m - 8 * (q :: nat)"
  by (metis add.commute add_diff_inverse_nat div_nat_eqI minus_div_mult_eq_mod mult.commute mult_Suc_right not_less)

lemma bit_byte_high: "8 \<le> k \<Longrightarrow> \<not> bit (b :: byte) k"
  by (auto dest: bit_imp_le_length)

lemma bit_four_bytes:
  fixes b0 b1 b2 b3 :: byte
  defines "w \<equiv> ucast b0 OR push_bit 8 (ucast b1) OR push_bit 16 (ucast b2) OR push_bit 24 (ucast b3) :: limb"
  shows "bit w m \<longleftrightarrow> m < 32 \<and> bit ([b0, b1, b2, b3] ! (m div 8)) (m mod 8)"
proof -
  have w: "bit w m \<longleftrightarrow> m < 64 \<and> (bit b0 m \<or> 8 \<le> m \<and> bit b1 (m - 8) \<or> 16 \<le> m \<and> bit b2 (m - 16) \<or> 24 \<le> m \<and> bit b3 (m - 24))"
    unfolding w_def by (cases "m < 64") (auto simp: bit_or_iff bit_push_bit_iff bit_ucast_iff)
  consider (a) "m < 8" | (b) "8 \<le> m" "m < 16" | (c) "16 \<le> m" "m < 24" | (d) "24 \<le> m" "m < 32" | (e) "32 \<le> m"
    by linarith
  then show ?thesis
  proof cases
    case a
    then show ?thesis by (simp add: w)
  next
    case b
    then show ?thesis using div_mod_8 [of 1 m] by (simp add: w bit_byte_high)
  next
    case c
    then show ?thesis using div_mod_8 [of 2 m] by (simp add: w bit_byte_high)
  next
    case d
    then show ?thesis using div_mod_8 [of 3 m] by (simp add: w bit_byte_high)
  next
    case e
    then show ?thesis by (simp add: w bit_byte_high)
  qed
qed

lemma fexpand_limb_bits:
  assumes "length bs = 32" "start + 3 < 32" "shift + k \<le> 32"
  shows "fexpand_limb bs start shift (mask k) = word_of_nat (take_bit k (drop_bit (8 * start + shift) (little_endian bs)))"
proof (rule bit_word_eqI)
  fix n assume n: "n < LENGTH(64)"
  let ?w = "ucast (bs ! start) OR push_bit 8 (ucast (bs ! (start + 1))) OR push_bit 16 (ucast (bs ! (start + 2))) OR
    push_bit 24 (ucast (bs ! (start + 3))) :: limb"
  show "bit (fexpand_limb bs start shift (mask k)) n =
    bit (word_of_nat (take_bit k (drop_bit (8 * start + shift) (little_endian bs))) :: limb) n"
  proof (cases "n < k")
    case True
    then have m: "shift + n < 32"
      using assms(3) by simp
    define m where "m = shift + n"
    have "m div 8 < 4"
      using m by (simp add: m_def)
    then consider "m div 8 = 0" | "m div 8 = 1" | "m div 8 = 2" | "m div 8 = 3"
      by linarith
    then have four: "[bs ! start, bs ! (start + 1), bs ! (start + 2), bs ! (start + 3)] ! (m div 8) = bs ! (start + m div 8)"
      by cases simp_all
    have "bit (fexpand_limb bs start shift (mask k)) n \<longleftrightarrow> bit ?w m"
    proof -
      have "\<not> 64 - shift \<le> n"
        using m by linarith
      then show ?thesis
        using True n by (simp add: fexpand_limb_def bit_and_iff bit_mask_iff bit_signed_drop_bit_iff m_def)
    qed
    also have "\<dots> \<longleftrightarrow> bit (bs ! (start + m div 8)) (m mod 8)"
      using bit_four_bytes [of "bs ! start" "bs ! (start + 1)" "bs ! (start + 2)" "bs ! (start + 3)" m] m four by (simp add: m_def)
    also have "\<dots> \<longleftrightarrow> bit (little_endian bs) (8 * start + m)"
      using assms(1,2) \<open>m div 8 < 4\<close> by (simp add: bit_little_endian)
    finally show ?thesis
      using True n by (simp add: bit_simps m_def add.assoc)
  qed (use n in \<open>simp add: fexpand_limb_def bit_simps\<close>)
qed

lemma take_bit_split: "take_bit (a + b) (N :: nat) = take_bit a N + 2 ^ a * take_bit b (drop_bit a N)"
  by (simp add: take_bit_eq_mod drop_bit_eq_div power_add mod_mult2_eq)

lemma mixed_radix: "(\<Sum>i<n. take_bit (limb_bits i) (drop_bit (fweight i) N) * 2 ^ fweight i) = take_bit (fweight n) (N :: nat)"
proof (induction n)
  case (Suc n)
  then show ?case
    by (simp add: fweight_Suc take_bit_split)
qed (simp add: fweight_def)

lemma fexpand_eq:
  assumes "length bs = 32"
  shows "fexpand bs = limbs (map (\<lambda>i. int (take_bit (limb_bits i) (drop_bit (fweight i) (little_endian bs)))) [0..<10])"
proof -
  have "(0x3ffffff :: limb) = mask 26" "(0x1ffffff :: limb) = mask 25"
    by (simp_all add: mask_eq_exp_minus_1)
  then have limb: "start + 3 < 32 \<Longrightarrow> shift + 26 \<le> 32 \<Longrightarrow> fexpand_limb bs start shift 0x3ffffff =
        word_of_nat (take_bit 26 (drop_bit (8 * start + shift) (little_endian bs)))"
      "start + 3 < 32 \<Longrightarrow> shift + 25 \<le> 32 \<Longrightarrow> fexpand_limb bs start shift 0x1ffffff =
        word_of_nat (take_bit 25 (drop_bit (8 * start + shift) (little_endian bs)))" for start shift
    by (simp_all only: fexpand_limb_bits [OF assms])
  have "[0..<10] = [0, 1, 2, 3, 4, 5, 6, 7, 8, 9 :: nat]"
    by (simp add: upt_rec)
  then show ?thesis
    unfolding fexpand_def by (simp add: limb fweight_def limb_bits_def)
qed

lemma fexpand_ok:
  assumes "length bs = 32"
  shows "fe_ok (2 ^ 26) (fexpand bs)" "fe (fexpand bs) = int (little_endian bs mod 2 ^ 255)"
proof -
  let ?g = "\<lambda>i. int (take_bit (limb_bits i) (drop_bit (fweight i) (little_endian bs)))"
  have "take_bit (limb_bits i) x < 2 ^ 26" for i x :: nat
    using take_bit_nat_less_exp [of 25 x] take_bit_nat_less_exp [of 26 x] by (simp add: limb_bits_def)
  then have "\<bar>?g i\<bar> < 2 ^ 26" for i
    by (simp add: of_nat_less_numeral_power_cancel_iff)
  then have "fe_ok (2 ^ 26) (limbs (map ?g [0..<10]))" "fe (limbs (map ?g [0..<10])) = (\<Sum>i<10. ?g i * 2 ^ fweight i)"
    by (rule limbwise_ok; simp)+
  moreover have "(\<Sum>i<10. ?g i * 2 ^ fweight i) = int (take_bit 255 (little_endian bs))"
    using arg_cong [OF mixed_radix [of "little_endian bs" 10], of int] by (simp add: fweight_def)
  ultimately show "fe_ok (2 ^ 26) (fexpand bs)" "fe (fexpand bs) = int (little_endian bs mod 2 ^ 255)"
    by (simp_all add: fexpand_eq [OF assms] take_bit_eq_mod)
qed

end
