(* ===== verification/Donna_Ladder.thy ===== *)
theory Donna_Ladder
  imports Donna_Reduce Donna_Bytes
begin

text \<open>
  The ladder of \<open>curve25519-donna.c\<close> against RFC 7748: the function X25519 of the RFC over
  integers, \<open>fmonty\<close> as its step, the conditional swap without branches, \<open>cmult\<close> as its loop over the bits of the
  scalar, and \<open>crecip\<close> as the power \<open>2 ^ 255 - 21\<close>.
\<close>

unbundle bit_operations_syntax

section \<open>The function of RFC 7748\<close>

text \<open>
  One step of the ladder of RFC 7748, section 5: from the points \<open>(x\<^sub>2, z\<^sub>2)\<close> and \<open>(x\<^sub>3, z\<^sub>3)\<close>,
  whose difference has the coordinate \<open>x\<^sub>1\<close>.
\<close>

type_synonym point = "int \<times> int"

fun x25519_step :: "int \<Rightarrow> point \<times> point \<Rightarrow> point \<times> point" where
  "x25519_step x1 ((x2, z2), (x3, z3)) =
     (let A = x2 + z2; AA = A\<^sup>2; B = x2 - z2; BB = B\<^sup>2; E = AA - BB;
          C = x3 + z3; D = x3 - z3; DA = D * A; CB = C * B
      in ((AA * BB mod p25519, E * (AA + 121665 * E) mod p25519),
          ((DA + CB)\<^sup>2 mod p25519, x1 * (DA - CB)\<^sup>2 mod p25519)))"

declare x25519_step.simps [simp del]

definition cswap :: "bool \<Rightarrow> 'a \<times> 'a \<Rightarrow> 'a \<times> 'a" where
  "cswap c = (\<lambda>(P, Q). if c then (Q, P) else (P, Q))"

text \<open>The loop over the bits of the scalar, the most significant one first, with the deferred swap.\<close>

fun x25519_loop :: "int \<Rightarrow> bool list \<Rightarrow> bool \<Rightarrow> point \<times> point \<Rightarrow> point \<times> point" where
  "x25519_loop x1 [] swap st = cswap swap st"
| "x25519_loop x1 (k_t # ks) swap st = x25519_loop x1 ks k_t (x25519_step x1 (cswap (swap \<noteq> k_t) st))"

text \<open>
  The function X25519 of a scalar of 256 bits and a coordinate. The RFC decodes scalars with bit 255 clear
  and runs the loop over the other bits.
\<close>

definition x25519 :: "nat \<Rightarrow> int \<Rightarrow> int" where
  "x25519 k u =
     (let (x2, z2) = fst (x25519_loop u (map (bit k) (rev [0..<256])) False ((1, 0), (u, 1)))
      in x2 * z2 ^ nat (p25519 - 2) mod p25519)"

lemma cswap_cswap: "cswap c (cswap c P) = P" "cswap c (cswap d P) = cswap (c \<noteq> d) P"
  by (auto simp: cswap_def split: prod.splits)

lemma x25519_loop_fold:
  "x25519_loop x1 ks s st = fold (\<lambda>c st. cswap c (x25519_step x1 (cswap c st))) ks (cswap s st)"
proof (induction ks arbitrary: s st)
  case (Cons c ks)
  then show ?case
    by (simp add: cswap_cswap(2) eq_commute)
qed simp

section \<open>The step\<close>

definition rep_point :: "limb list \<times> limb list \<Rightarrow> point \<Rightarrow> bool" where
  "rep_point P a \<longleftrightarrow> rep (2 ^ 26) (fst P) (fst a) \<and> rep (2 ^ 26) (snd P) (snd a)"

definition rep_ladder :: "ladder \<Rightarrow> point \<times> point \<Rightarrow> bool" where
  "rep_ladder st a \<longleftrightarrow> rep_point (fst st) (fst a) \<and> rep_point (snd st) (snd a)"

lemmas rep_rules = rep_product rep_fsquare rep_fsum rep_fdifference rep_fscalar rep_wide

lemma fmonty_ok:
  assumes "rep_ladder ((x, z), (xprime, zprime)) ((x2, z2), (x3, z3))" "rep (2 ^ 26) q x1"
  shows "rep_ladder (fmonty x z xprime zprime q) (x25519_step x1 ((x2, z2), (x3, z3)))"
proof -
  have args: "rep (2 ^ 26) x x2" "rep (2 ^ 26) z z2" "rep (2 ^ 26) xprime x3" "rep (2 ^ 26) zprime z3"
    using assms(1) by (simp_all add: rep_ladder_def rep_point_def)
  define A B C D where "A = fsum x z" and "B = fdifference z x"
    and "C = fsum xprime zprime" and "D = fdifference zprime xprime"
  define CB DA where "CB = reduce_product (fproduct C B)" and "DA = reduce_product (fproduct A D)"
  define AA BB where "AA = fsquare A" and "BB = fsquare B"
  define E where "E = fdifference BB AA"
  define G where "G = fsum (take 10 (freduce_coefficients (fscalar_product E 121665 @ replicate 9 0))) AA"
  have m: "fmonty x z xprime zprime q = ((reduce_product (fproduct AA BB), reduce_product (fproduct E G)),
      (fsquare (fsum CB DA), reduce_product (fproduct (fsquare (fdifference DA CB)) q)))"
    unfolding fmonty_def Let_def A_def B_def C_def D_def CB_def DA_def AA_def BB_def E_def G_def ..
  have ABCD: "rep (2 ^ 27) A (x2 + z2)" "rep (2 ^ 27) B (x2 - z2)" "rep (2 ^ 27) C (x3 + z3)" "rep (2 ^ 27) D (x3 - z3)"
    unfolding A_def B_def C_def D_def by (intro rep_fsum rep_fdifference args)+
  have prods: "rep (2 ^ 26) CB ((x3 + z3) * (x2 - z2))" "rep (2 ^ 26) DA ((x2 + z2) * (x3 - z3))"
      "rep (2 ^ 26) AA ((x2 + z2)\<^sup>2)" "rep (2 ^ 26) BB ((x2 - z2)\<^sup>2)"
    unfolding CB_def DA_def AA_def BB_def by (intro rep_product rep_fsquare ABCD)+
  have E: "rep (2 ^ 27) E ((x2 + z2)\<^sup>2 - (x2 - z2)\<^sup>2)"
    unfolding E_def by (intro rep_fdifference prods)
  have G: "rep (2 ^ 27) G (121665 * ((x2 + z2)\<^sup>2 - (x2 - z2)\<^sup>2) + (x2 + z2)\<^sup>2)"
    unfolding G_def by (intro rep_fsum rep_fscalar E prods)
  have sq: "rep (2 ^ 27) (fsquare (fdifference DA CB)) (((x3 + z3) * (x2 - z2) - (x2 + z2) * (x3 - z3))\<^sup>2)"
    by (intro rep_wide rep_fsquare rep_fdifference prods)
  show ?thesis
    using rep_product [OF rep_wide [OF prods(3)] rep_wide [OF prods(4)]] rep_product [OF E G]
      rep_fsquare [OF rep_fsum [OF prods(1,2)]] rep_product [OF sq rep_wide [OF assms(2)]]
    unfolding m rep_ladder_def rep_point_def x25519_step.simps Let_def fst_conv snd_conv rep_mod
    by (simp add: mult.commute add.commute power2_commute)
qed

section \<open>The conditional swap\<close>

lemma scast_ucast_limb: "\<bar>sint (w :: limb)\<bar> < 2 ^ 31 \<Longrightarrow> scast (ucast w :: s32) = w"
  using scast_ucast_int [of "sint w"] by simp

lemma swap_conditional_ok:
  assumes "fe_ok (2 ^ 26) a" "fe_ok (2 ^ 26) b"
  shows "swap_conditional a b (of_bool c) = (if c then (b, a) else (a, b))"
proof -
  have small: "\<bar>sint (a ! i)\<bar> < 2 ^ 31" "\<bar>sint (b ! i)\<bar> < 2 ^ 31" if "i < 10" for i
    using fe_ok_nth [OF assms(1) that] fe_ok_nth [OF assms(2) that] by simp_all
  have len: "length a = 10" "length b = 10"
    using assms by (simp_all add: fe_ok_def)
  have swap: "ucast (- of_bool c :: limb) = (if c then - 1 else 0 :: s32)"
    by (simp add: unsigned_minus_1_eq_mask mask_eq_exp_minus_1)
  have "ucast (a ! i) XOR ((if c then - 1 else 0) AND (ucast (a ! i) XOR ucast (b ! i))) =
      (if c then ucast (b ! i) else ucast (a ! i) :: s32)"
    "ucast (b ! i) XOR ((if c then - 1 else 0) AND (ucast (a ! i) XOR ucast (b ! i))) =
      (if c then ucast (a ! i) else ucast (b ! i) :: s32)" for i
    by (auto intro!: bit_word_eqI simp: bit_simps)
  then show ?thesis
    using small len unfolding swap_conditional_def Let_def swap
    by (cases c) (simp_all add: list_eq_iff_nth_eq scast_ucast_limb)
qed

lemma rep_cswap: "rep_ladder P a \<Longrightarrow> rep_ladder (cswap c P) (cswap c a)"
  by (cases P; cases a) (simp add: rep_ladder_def cswap_def)

lemma cmult_step_ok:
  assumes "rep_ladder st a" "rep (2 ^ 26) q x1"
  shows "rep_ladder (cmult_step q (of_bool c) st) (cswap c (x25519_step x1 (cswap c a)))"
proof -
  obtain x z x' z' where st: "st = ((x, z), (x', z'))"
    by (metis surj_pair)
  obtain u v u' v' where a: "a = ((u, v), (u', v'))"
    by (metis surj_pair)
  have ok: "fe_ok (2 ^ 26) x" "fe_ok (2 ^ 26) z" "fe_ok (2 ^ 26) x'" "fe_ok (2 ^ 26) z'"
    using assms(1) by (auto simp: st rep_ladder_def rep_point_def rep_def)
  define f where "f = (case cswap c st of ((x, z), (x', z')) \<Rightarrow> fmonty x z x' z' q)"
  have "rep_ladder (cswap c st) (cswap c a)"
    using assms(1) by (rule rep_cswap)
  then have f: "rep_ladder f (x25519_step x1 (cswap c a))"
    using fmonty_ok [OF _ assms(2)] unfolding f_def by (cases c) (simp_all add: st a cswap_def)
  obtain fx fz fx' fz' where fe: "f = ((fx, fz), (fx', fz'))"
    by (metis surj_pair)
  have fok: "fe_ok (2 ^ 26) fx" "fe_ok (2 ^ 26) fz" "fe_ok (2 ^ 26) fx'" "fe_ok (2 ^ 26) fz'"
    using f by (auto simp: fe rep_ladder_def rep_point_def rep_def)
  have "cmult_step q (of_bool c) st = cswap c f"
    using fe swap_conditional_ok [OF ok(1,3), of c] swap_conditional_ok [OF ok(2,4), of c]
      swap_conditional_ok [OF fok(1,3), of c] swap_conditional_ok [OF fok(2,4), of c]
    by (cases c) (simp_all add: cmult_step_def st f_def cswap_def)
  then show ?thesis
    using rep_cswap [OF f] by simp
qed

section \<open>The bits of the scalar\<close>

lemma cmult_byte_fold:
  assumes "j \<le> 8"
  shows "cmult_byte q j (push_bit (8 - j) b) st = fold (\<lambda>n. cmult_step q (of_bool (bit b n))) (rev [0..<j]) st"
  using assms
proof (induction j arbitrary: st)
  case (Suc j)
  have "drop_bit 7 (push_bit (8 - Suc j) b) = of_bool (bit b j)"
  proof (rule bit_word_eqI)
    fix n assume "n < LENGTH(8)"
    then show "bit (drop_bit 7 (push_bit (8 - Suc j) b)) n = bit (of_bool (bit b j) :: byte) n"
      using Suc.prems by (cases n) (auto simp: bit_simps)
  qed
  moreover have "push_bit 1 (push_bit (8 - Suc j) b) = push_bit (8 - j) b"
  proof -
    have "1 + (8 - Suc j) = 8 - j"
      using Suc.prems by simp
    then show ?thesis
      by (simp only: push_bit_push_bit)
  qed
  ultimately show ?case
    using Suc by (simp del: push_bit_of_1)
qed simp

lemma cmult_byte_ok:
  assumes "rep_ladder st a" "rep (2 ^ 26) q x1"
  shows "rep_ladder (cmult_byte q 8 b st)
    (fold (\<lambda>c st. cswap c (x25519_step x1 (cswap c st))) (map (bit b) (rev [0..<8])) a)"
proof -
  have "rep_ladder (fold (\<lambda>n. cmult_step q (of_bool (bit b n))) ns st)
      (fold (\<lambda>c st. cswap c (x25519_step x1 (cswap c st))) (map (bit b) ns) a)" for ns
    using assms(1)
  proof (induction ns arbitrary: st a)
    case (Cons n ns)
    then show ?case
      using cmult_step_ok [OF _ assms(2)] by simp
  qed simp
  then show ?thesis
    using cmult_byte_fold [of 8 q b st] by simp
qed

lemma scalar_bits:
  assumes "length n = 32"
  shows "concat (map (\<lambda>i. map (bit (n ! (31 - i))) (rev [0..<8])) [0..<32]) = map (bit (little_endian n)) (rev [0..<256])"
proof -
  have byte: "map (bit (n ! (31 - i))) (rev [0..<8]) = map (bit (little_endian n)) (rev [8 * (31 - i)..<8 * (31 - i) + 8])"
    if "i < 32" for i
  proof -
    have "[8 * j..<8 * j + 8] = map (\<lambda>k. 8 * j + k) [0..<8]" for j :: nat
      by (simp add: map_add_upt add.commute)
    then show ?thesis
      using assms that by (auto simp: bit_little_endian rev_map)
  qed
  have "concat (map (\<lambda>i. rev [8 * (31 - i)..<8 * (31 - i) + 8]) [0..<m]) = rev [8 * (32 - m)..<256]" if "m \<le> 32" for m
    using that
  proof (induction m)
    case (Suc m)
    have "[8 * (31 - m)..<8 * (32 - m) + (256 - 8 * (32 - m))] =
        [8 * (31 - m)..<8 * (32 - m)] @ [8 * (32 - m)..<8 * (32 - m) + (256 - 8 * (32 - m))]"
      by (rule upt_add_eq_append) simp
    moreover have "8 * (32 - m) + (256 - 8 * (32 - m)) = 256" "8 * (31 - m) + 8 = 8 * (32 - m)" "32 - Suc m = 31 - m"
      using Suc.prems by simp_all
    ultimately have "rev [8 * (32 - m)..<256] @ rev [8 * (31 - m)..<8 * (31 - m) + 8] = rev [8 * (32 - Suc m)..<256]"
      by (simp only: rev_append)
    then show ?case
      using Suc.IH Suc.prems by (simp only: upt_Suc_append le0 map_append concat_append list.map concat.simps append_Nil2 Suc_leD)
  qed simp
  from this [of 32] have "concat (map (\<lambda>i. rev [8 * (31 - i)..<8 * (31 - i) + 8]) [0..<32]) = rev [0..<256]"
    by simp
  then have "map (bit (little_endian n)) (concat (map (\<lambda>i. rev [8 * (31 - i)..<8 * (31 - i) + 8]) [0..<32])) =
      map (bit (little_endian n)) (rev [0..<256])"
    by (simp only:)
  moreover have "map (\<lambda>i. map (bit (n ! (31 - i))) (rev [0..<8])) [0..<32] =
      map (\<lambda>i. map (bit (little_endian n)) (rev [8 * (31 - i)..<8 * (31 - i) + 8])) [0..<32]"
    by (rule map_cong [OF refl]) (rule byte, simp)
  ultimately show ?thesis
    by (simp only: map_concat map_map comp_def)
qed

lemma rep_small: "rep (2 ^ 26) (1 # replicate 9 0) 1" "rep (2 ^ 26) (replicate 10 0) 0"
  by (simp_all add: rep_def fe_ok_def fe_def feval_numeral feval_Suc fweight_def)

lemma cmult_ok:
  assumes "rep (2 ^ 26) q u" "length n = 32"
  shows "rep_point (cmult n q) (fst (x25519_loop u (map (bit (little_endian n)) (rev [0..<256])) False ((1, 0), (u, 1))))"
proof -
  have "rep_ladder (fold (\<lambda>i. cmult_byte q 8 (n ! (31 - i))) is st)
      (fold (\<lambda>c st. cswap c (x25519_step u (cswap c st))) (concat (map (\<lambda>i. map (bit (n ! (31 - i))) (rev [0..<8])) is)) a)"
    if "rep_ladder st a" for "is" st a
    using that
  proof (induction "is" arbitrary: st a)
    case (Cons i "is")
    then show ?case
      using cmult_byte_ok [OF _ assms(1)] by (simp del: upt.simps)
  qed simp
  moreover have "rep_ladder ((1 # replicate 9 0, replicate 10 0), (q, 1 # replicate 9 0)) ((1, 0), (u, 1))"
    using assms(1) rep_small by (simp add: rep_ladder_def rep_point_def)
  ultimately have "rep_ladder (fold (\<lambda>i. cmult_byte q 8 (n ! (31 - i))) [0..<32]
        ((1 # replicate 9 0, replicate 10 0), (q, 1 # replicate 9 0)))
      (x25519_loop u (map (bit (little_endian n)) (rev [0..<256])) False ((1, 0), (u, 1)))"
    unfolding x25519_loop_fold scalar_bits [OF assms(2), symmetric] cswap_def by simp
  then show ?thesis
    unfolding cmult_def Let_def rep_ladder_def by blast
qed

section \<open>The inverse\<close>

lemma rep_square_power: "rep (2 ^ 26) a (x ^ n) \<Longrightarrow> rep (2 ^ 26) (fsquare a) (x ^ (2 * n))"
  using rep_fsquare [OF rep_wide, of a "x ^ n"] by (simp add: power_mult [symmetric] mult.commute)

lemma rep_mul_power:
  "rep (2 ^ 26) a (x ^ m) \<Longrightarrow> rep (2 ^ 26) b (x ^ n) \<Longrightarrow> rep (2 ^ 26) (fmul a b) (x ^ (m + n))"
  using rep_fmul [OF rep_wide rep_wide, of a "x ^ m" b "x ^ n"] by (simp add: power_add)

lemma rep_square_loop:
  assumes "rep (2 ^ 26) a (x ^ n)"
  shows "rep (2 ^ 26) (fsquare_loop m a) (x ^ (4 ^ ((m - 2) div 2) * n))"
proof -
  have "rep (2 ^ 26) (((\<lambda>t. fsquare (fsquare t)) ^^ k) a) (x ^ (4 ^ k * n))" for k
    using assms
  proof (induction k)
    case (Suc k)
    then have "rep (2 ^ 26) (fsquare (fsquare (((\<lambda>t. fsquare (fsquare t)) ^^ k) a))) (x ^ (2 * (2 * (4 ^ k * n))))"
      by (intro rep_square_power) simp
    then show ?case
      by (simp add: mult.assoc)
  qed simp
  then show ?thesis
    by (simp add: fsquare_loop_def)
qed


lemma rep_Let: "rep B a y \<Longrightarrow> (\<And>t. rep B t y \<Longrightarrow> rep C (f t) w) \<Longrightarrow> rep C (Let a f) w"
  by simp

lemma rep_power_eq: "rep B a (x ^ m) \<Longrightarrow> m = n \<Longrightarrow> rep B a (x ^ n)"
  by simp

lemmas rep_powers = rep_square_power rep_mul_power rep_square_loop

lemma crecip_ok:
  assumes "rep (2 ^ 26) z x"
  shows "rep (2 ^ 26) (crecip z) (x ^ nat (p25519 - 2))"
proof -
  have z: "rep (2 ^ 26) z (x ^ 1)"
    using assms by simp
  show ?thesis
    unfolding crecip_def
    by (rule rep_power_eq, insert z, (rule rep_Let, (rule rep_powers; assumption))+, (rule rep_powers; assumption),
        simp add: p25519_def)
qed

end
