(* ===== verification/Donna_Contract.thy ===== *)
theory Donna_Contract
  imports Donna_Bytes
begin

text \<open>
  Writing field elements: \<open>fcontract\<close> of \<open>curve25519-donna.c\<close>. Two passes of borrows and two of carries
  bring the limbs to their widths without a branch on their values, the prime is subtracted under a mask, and the limbs are written
  as bytes. The result is the canonical representative of the field element, in little-endian order.
\<close>

unbundle bit_operations_syntax

section \<open>Borrows and carries over integers\<close>

abbreviation s32s :: "int list \<Rightarrow> s32 list" where
  "s32s xs \<equiv> map word_of_int xs"

lemma sint_s32: "\<bar>x\<bar> < 2 ^ 31 \<Longrightarrow> sint (word_of_int x :: s32) = x"
  by (simp add: sint_sbintrunc' signed_take_bit_int_eq_self)

lemma signed_drop_bit_s32: "\<bar>x\<bar> < 2 ^ 31 \<Longrightarrow> signed_drop_bit n (word_of_int x :: s32) = word_of_int (x div 2 ^ n)"
  by (metis of_int_sint scast_id sint_s32 sint_signed_drop_bit)

definition borrow :: "nat \<Rightarrow> int \<Rightarrow> int" where
  "borrow bits x = (if x < 0 then - (x div 2 ^ bits) else 0)"

lemma borrow_carry_int:
  assumes "\<bar>x\<bar> < 2 ^ 31"
  shows "borrow_carry bits (word_of_int x) = word_of_int (borrow bits x)"
proof -
  have "x div 2 ^ 31 = (if x < 0 then - 1 else 0)"
    using assms by (auto simp: div_pos_pos_trivial intro: div_pos_neg_trivial) 
  then show ?thesis
    using assms signed_drop_bit_s32 [OF assms] by (simp add: borrow_carry_def borrow_def Let_def)
qed

definition borrow_int :: "nat \<Rightarrow> int list \<Rightarrow> int list" where
  "borrow_int i xs =
     (let c = borrow (limb_bits i) (xs ! i)
      in xs[i := xs ! i + 2 ^ limb_bits i * c, i + 1 := xs ! (i + 1) - c])"

lemma borrow_step_int:
  assumes "i + 1 < length xs" "\<bar>xs ! i\<bar> < 2 ^ 31"
  shows "borrow_step i (s32s xs) = s32s (borrow_int i xs)"
  using assms
  by (simp add: borrow_step_def borrow_int_def Let_def borrow_carry_int map_update push_bit_eq_mult mult.commute)

definition carry_up :: "nat \<Rightarrow> int list \<Rightarrow> int list" where
  "carry_up i xs = xs[i := xs ! i mod 2 ^ limb_bits i, i + 1 := xs ! (i + 1) + xs ! i div 2 ^ limb_bits i]"

lemma mask_mod_s32:
  "(word_of_int x :: s32) AND 0x1ffffff = word_of_int (x mod 2 ^ 25)"
  "(word_of_int x :: s32) AND 0x3ffffff = word_of_int (x mod 2 ^ 26)"
proof -
  have "(0x1ffffff :: s32) = mask 25" "(0x3ffffff :: s32) = mask 26"
    by (simp_all add: mask_eq_exp_minus_1)
  then show "(word_of_int x :: s32) AND 0x1ffffff = word_of_int (x mod 2 ^ 25)"
    "(word_of_int x :: s32) AND 0x3ffffff = word_of_int (x mod 2 ^ 26)"
    by (simp_all only: take_bit_eq_mask [symmetric] take_bit_of_int take_bit_eq_mod [where 'a = int, symmetric])
qed

lemma carry_step_int:
  assumes "i + 1 < length xs" "\<bar>xs ! i\<bar> < 2 ^ 31"
  shows "carry_step i (s32s xs) = s32s (carry_up i xs)"
  using assms
  by (simp add: carry_step_def carry_up_def Let_def signed_drop_bit_s32 map_update limb_bits_def mask_mod_s32)

lemma length_borrow_int [simp]: "length (borrow_int i xs) = length xs" "length (carry_up i xs) = length xs"
  by (simp_all add: borrow_int_def carry_up_def Let_def)

lemma feval_borrow_int:
  assumes "i + 1 < n" "n \<le> length xs"
  shows "feval n (borrow_int i xs) = feval n xs"
  using assms by (simp add: borrow_int_def Let_def feval_update fweight_Suc power_add algebra_simps)

lemma feval_carry_up:
  assumes "i + 1 < n" "n \<le> length xs"
  shows "feval n (carry_up i xs) = feval n xs"
proof -
  define q r where "q = xs ! i div 2 ^ limb_bits i" and "r = xs ! i mod 2 ^ limb_bits i"
  have "feval n (carry_up i xs) = feval n xs + (r - xs ! i) * 2 ^ fweight i + q * 2 ^ fweight (Suc i)"
    using assms by (simp add: carry_up_def feval_update q_def r_def)
  moreover have "xs ! i = 2 ^ limb_bits i * q + r"
    by (simp add: q_def r_def)
  ultimately show ?thesis
    by (simp add: fweight_Suc power_add algebra_simps)
qed

text \<open>
  A pass walks over the limbs; \<open>Inv k\<close> is what holds when limb \<open>k\<close> is next, and it bounds that limb.
\<close>

lemma pass_fold:
  assumes "Inv 0 xs" "length xs = 10"
    and step: "\<And>k xs. k < 9 \<Longrightarrow> length xs = 10 \<Longrightarrow> Inv k xs \<Longrightarrow> Inv (Suc k) (f k xs)"
    and small: "\<And>k xs. Inv k xs \<Longrightarrow> \<bar>xs ! k\<bar> < 2 ^ 31"
    and word: "\<And>k xs. k + 1 < length xs \<Longrightarrow> \<bar>xs ! k\<bar> < 2 ^ 31 \<Longrightarrow> g k (s32s xs) = s32s (f k xs)"
    and val: "\<And>k xs. k + 1 < 10 \<Longrightarrow> 10 \<le> length xs \<Longrightarrow> feval 10 (f k xs) = feval 10 xs"
    and len: "\<And>k xs. length (f k xs) = length xs"
  shows "m \<le> 9 \<Longrightarrow> Inv m (fold f [0..<m] xs) \<and> length (fold f [0..<m] xs) = 10 \<and>
    feval 10 (fold f [0..<m] xs) = feval 10 xs \<and> fold g [0..<m] (s32s xs) = s32s (fold f [0..<m] xs)"
proof (induction m)
  case 0
  then show ?case
    using assms(1,2) by simp
next
  case (Suc m)
  define ys where "ys = fold f [0..<m] xs"
  have ys: "Inv m ys" "length ys = 10" "feval 10 ys = feval 10 xs" "fold g [0..<m] (s32s xs) = s32s ys"
    using Suc by (simp_all add: ys_def)
  have "g m (s32s ys) = s32s (f m ys)"
    using small [of m ys] ys Suc.prems by (intro word) auto
  then show ?case
    using step [of m ys] val [of m ys] len [of m ys] ys Suc.prems by (simp add: ys_def [symmetric])
qed

section \<open>The passes\<close>

text \<open>The last step of a pass goes from limb 9 to limb 0 with the factor 19.\<close>

definition borrow_pass_int :: "int list \<Rightarrow> int list" where
  "borrow_pass_int xs =
     (let xs = fold borrow_int [0..<9] xs; c = borrow 25 (xs ! 9)
      in xs[9 := xs ! 9 + 2 ^ 25 * c, 0 := xs ! 0 - c * 19])"

definition carry_pass_int :: "int list \<Rightarrow> int list" where
  "carry_pass_int xs =
     (let xs = fold carry_up [0..<9] xs
      in xs[9 := xs ! 9 mod 2 ^ 25, 0 := xs ! 0 + 19 * (xs ! 9 div 2 ^ 25)])"

lemma wrap_borrow:
  assumes "length xs = 10" "\<bar>xs ! 9\<bar> < 2 ^ 31"
  defines "ys \<equiv> (let c = borrow 25 (xs ! 9) in xs[9 := xs ! 9 + 2 ^ 25 * c, 0 := xs ! 0 - c * 19])"
  shows "(let carry = borrow_carry 25 (s32s xs ! 9); input = (s32s xs)[9 := s32s xs ! 9 + push_bit 25 carry]
      in input[0 := input ! 0 - carry * 19]) = s32s ys"
    and "feval 10 ys mod p25519 = feval 10 xs mod p25519"
proof -
  have "xs \<noteq> []"
    using assms(1) by auto
  then show "(let carry = borrow_carry 25 (s32s xs ! 9); input = (s32s xs)[9 := s32s xs ! 9 + push_bit 25 carry]
      in input[0 := input ! 0 - carry * 19]) = s32s ys"
    using assms by (simp add: Let_def borrow_carry_int map_update push_bit_eq_mult mult.commute)
  have "feval 10 ys = feval 10 xs + borrow 25 (xs ! 9) * p25519"
    using assms \<open>xs \<noteq> []\<close> by (simp add: Let_def feval_update fweight_def p25519_def algebra_simps)
  then show "feval 10 ys mod p25519 = feval 10 xs mod p25519"
    by simp
qed

lemma wrap_carry:
  assumes "length xs = 10" "\<bar>xs ! 9\<bar> < 2 ^ 31"
  defines "ys \<equiv> xs[9 := xs ! 9 mod 2 ^ 25, 0 := xs ! 0 + 19 * (xs ! 9 div 2 ^ 25)]"
  shows "(let carry = signed_drop_bit 25 (s32s xs ! 9); input = (s32s xs)[9 := s32s xs ! 9 AND 0x1ffffff]
      in input[0 := input ! 0 + 19 * carry]) = s32s ys"
    and "feval 10 ys mod p25519 = feval 10 xs mod p25519"
proof -
  have "xs \<noteq> []"
    using assms(1) by auto
  then show "(let carry = signed_drop_bit 25 (s32s xs ! 9); input = (s32s xs)[9 := s32s xs ! 9 AND 0x1ffffff]
      in input[0 := input ! 0 + 19 * carry]) = s32s ys"
    using assms by (simp add: Let_def signed_drop_bit_s32 mask_mod_s32 map_update)
  define q r where "q = xs ! 9 div 2 ^ 25" and "r = xs ! 9 mod 2 ^ 25"
  have "feval 10 ys = feval 10 xs + (r - xs ! 9) * 2 ^ 230 + 19 * q"
    using assms \<open>xs \<noteq> []\<close> by (simp add: feval_update fweight_def q_def r_def)
  moreover have "xs ! 9 = 2 ^ 25 * q + r"
    by (simp add: q_def r_def)
  ultimately have "feval 10 xs = feval 10 ys + q * p25519"
    by (simp add: p25519_def algebra_simps)
  then show "feval 10 ys mod p25519 = feval 10 xs mod p25519"
    by simp
qed

text \<open>
  First borrow pass: limbs of absolute value below \<open>2 ^ 26\<close> become non-negative, except that limb 0 may
  be negative by at most 57.
\<close>

definition borrow_inv1 :: "nat \<Rightarrow> int list \<Rightarrow> bool" where
  "borrow_inv1 k xs \<longleftrightarrow> (\<forall>j<k. 0 \<le> xs ! j \<and> xs ! j < 2 ^ 26) \<and> - (2 ^ 26) - 4 \<le> xs ! k \<and> xs ! k < 2 ^ 26 \<and>
     (\<forall>j. k < j \<and> j < 10 \<longrightarrow> \<bar>xs ! j\<bar> < 2 ^ 26)"

lemma borrow_range:
  assumes "- (2 ^ 26) - 4 \<le> x" "x < 2 ^ 26" "bits = 25 \<or> bits = 26"
  shows "0 \<le> borrow bits x" "borrow bits x \<le> 3" "0 \<le> x + 2 ^ bits * borrow bits x" "x + 2 ^ bits * borrow bits x < 2 ^ 26"
    and "0 \<le> x \<Longrightarrow> borrow bits x = 0" "- (2 ^ bits) \<le> x \<Longrightarrow> x < 0 \<Longrightarrow> borrow bits x = 1"
  using assms unfolding borrow_def by auto

lemma limb_bits_cases: "limb_bits i = 25 \<or> limb_bits i = 26"
  by (simp add: limb_bits_def)

lemma borrow_inv1_step:
  assumes "k < 9" "length xs = 10" "borrow_inv1 k xs"
  shows "borrow_inv1 (Suc k) (borrow_int k xs)"
proof -
  note c = borrow_range [of "xs ! k" "limb_bits k", OF _ _ limb_bits_cases]
  show ?thesis
    using assms c unfolding borrow_inv1_def borrow_int_def Let_def
    by (auto simp: nth_list_update less_Suc_eq) 
qed

lemma borrow_pass_run:
  assumes "Inv 0 xs" "length xs = 10"
    and step: "\<And>k xs. k < 9 \<Longrightarrow> length xs = 10 \<Longrightarrow> Inv k xs \<Longrightarrow> Inv (Suc k) (borrow_int k xs)"
    and small: "\<And>k xs. Inv k xs \<Longrightarrow> \<bar>xs ! k\<bar> < 2 ^ 31"
  obtains ys where "Inv 9 ys" "length ys = 10" "borrow_pass_int xs = (let c = borrow 25 (ys ! 9) in ys[9 := ys ! 9 + 2 ^ 25 * c, 0 := ys ! 0 - c * 19])"
    "borrow_pass (s32s xs) = s32s (borrow_pass_int xs)" "feval 10 (borrow_pass_int xs) mod p25519 = feval 10 xs mod p25519"
proof -
  define ys where "ys = fold borrow_int [0..<9] xs"
  have ys: "Inv 9 ys" "length ys = 10" "feval 10 ys = feval 10 xs" "fold borrow_step [0..<9] (s32s xs) = s32s ys"
    using pass_fold [of Inv xs borrow_int borrow_step 9, OF assms(1,2) step] small borrow_step_int feval_borrow_int
    by (simp_all add: ys_def)
  have eq: "borrow_pass_int xs = (let c = borrow 25 (ys ! 9) in ys[9 := ys ! 9 + 2 ^ 25 * c, 0 := ys ! 0 - c * 19])"
    by (simp only: borrow_pass_int_def Let_def ys_def)
  note w = wrap_borrow [OF ys(2) small [OF ys(1)], folded eq]
  show thesis
  proof (rule that [OF ys(1,2) eq])
    show "borrow_pass (s32s xs) = s32s (borrow_pass_int xs)"
      using w(1) by (simp add: borrow_pass_def ys(4) Let_def)
    show "feval 10 (borrow_pass_int xs) mod p25519 = feval 10 xs mod p25519"
      using w(2) by (simp add: ys(3))
  qed
qed

lemma borrow_inv1_small: "borrow_inv1 k xs \<Longrightarrow> \<bar>xs ! k\<bar> < 2 ^ 31"
  by (auto simp: borrow_inv1_def split: if_splits)

lemma borrow_pass_first:
  assumes "length xs = 10" "\<And>j. j < 10 \<Longrightarrow> \<bar>xs ! j\<bar> < 2 ^ 26"
  defines "ys \<equiv> borrow_pass_int xs"
  shows "borrow_pass (s32s xs) = s32s ys" "feval 10 ys mod p25519 = feval 10 xs mod p25519" "length ys = 10"
    and "- 57 \<le> ys ! 0" "ys ! 0 < 2 ^ 26" "j < 10 \<Longrightarrow> j \<noteq> 0 \<Longrightarrow> 0 \<le> ys ! j \<and> ys ! j < 2 ^ 26"
proof -
  have "- (2 ^ 26) - 4 \<le> xs ! 0" "xs ! 0 < 2 ^ 26"
    using assms(2) [of 0] by simp_all
  then have "borrow_inv1 0 xs"
    using assms(2) by (simp add: borrow_inv1_def)
  then obtain zs where zs: "borrow_inv1 9 zs" "length zs = 10"
      "ys = (let c = borrow 25 (zs ! 9) in zs[9 := zs ! 9 + 2 ^ 25 * c, 0 := zs ! 0 - c * 19])"
      "borrow_pass (s32s xs) = s32s ys" "feval 10 ys mod p25519 = feval 10 xs mod p25519"
    unfolding ys_def by (rule borrow_pass_run [where Inv = borrow_inv1 and xs = xs, OF _ assms(1) borrow_inv1_step borrow_inv1_small]) blast+
  have c: "0 \<le> borrow 25 (zs ! 9)" "borrow 25 (zs ! 9) \<le> 3"
      "0 \<le> zs ! 9 + 2 ^ 25 * borrow 25 (zs ! 9)" "zs ! 9 + 2 ^ 25 * borrow 25 (zs ! 9) < 2 ^ 26"
    using zs(1) borrow_range [of "zs ! 9" 25] by (auto simp: borrow_inv1_def)
  have lim: "j < 9 \<Longrightarrow> 0 \<le> zs ! j \<and> zs ! j < 2 ^ 26" for j
    using zs(1) by (simp add: borrow_inv1_def)
  have "zs \<noteq> []"
    using zs(2) by auto
  show "borrow_pass (s32s xs) = s32s ys" "feval 10 ys mod p25519 = feval 10 xs mod p25519" "length ys = 10"
    using zs by (simp_all add: Let_def)
  show "- 57 \<le> ys ! 0" "ys ! 0 < 2 ^ 26"
    using zs(2,3) c lim [of 0] \<open>zs \<noteq> []\<close> by (auto simp: Let_def nth_list_update)
  show "0 \<le> ys ! j \<and> ys ! j < 2 ^ 26" if "j < 10" "j \<noteq> 0"
    using that zs(2,3) c lim [of j] by (cases "j = 9") (auto simp: Let_def nth_list_update)
qed

text \<open>Second borrow pass: all limbs become non-negative.\<close>

definition borrow_inv2 :: "nat \<Rightarrow> int list \<Rightarrow> bool" where
  "borrow_inv2 k xs \<longleftrightarrow> (\<forall>j<k. 0 \<le> xs ! j \<and> xs ! j < 2 ^ 26) \<and> (if k = 0 then - 57 else - 1) \<le> xs ! k \<and> xs ! k < 2 ^ 26 \<and>
     (0 < k \<and> xs ! k < 0 \<longrightarrow> 2 ^ 26 - 57 \<le> xs ! 0) \<and> (\<forall>j. k < j \<and> j < 10 \<longrightarrow> 0 \<le> xs ! j \<and> xs ! j < 2 ^ 26)"

lemma borrow_small:
  assumes "- 57 \<le> x" "bits = 25 \<or> bits = 26"
  shows "borrow bits x = (if x < 0 then 1 else 0)"
  using assms unfolding borrow_def by auto

lemma borrow_inv2_step:
  assumes "k < 9" "length xs = 10" "borrow_inv2 k xs"
  shows "borrow_inv2 (Suc k) (borrow_int k xs)"
proof -
  have "- 57 \<le> xs ! k" "xs ! k < 2 ^ 26"
    using assms(3) by (auto simp: borrow_inv2_def split: if_splits)
  then have "borrow (limb_bits k) (xs ! k) = (if xs ! k < 0 then 1 else 0)"
    using limb_bits_cases by (intro borrow_small)
  then have b: "borrow_int k xs = (if xs ! k < 0 then xs[k := xs ! k + 2 ^ limb_bits k, Suc k := xs ! Suc k - 1] else xs)"
    using assms(1,2) by (simp add: borrow_int_def Let_def)
  have next_limb: "0 \<le> xs ! Suc k" "xs ! Suc k < 2 ^ 26"
    using assms(1,3) by (auto simp: borrow_inv2_def)
  show ?thesis
  proof (cases "xs ! k < 0")
    case True
    have "xs \<noteq> []"
      using assms(2) by auto
    then show ?thesis
      using True assms next_limb limb_bits_cases [of k] unfolding borrow_inv2_def b
      by (cases "k = 0") (auto simp: limb_bits_def nth_list_update less_Suc_eq)
  next
    case False
    then show ?thesis
      using assms next_limb by (auto simp: borrow_inv2_def b less_Suc_eq)
  qed
qed

lemma borrow_inv2_small: "borrow_inv2 k xs \<Longrightarrow> \<bar>xs ! k\<bar> < 2 ^ 31"
  by (auto simp: borrow_inv2_def split: if_splits)

lemma borrow_pass_second:
  assumes "length xs = 10" "- 57 \<le> xs ! 0" "xs ! 0 < 2 ^ 26" "\<And>j. j < 10 \<Longrightarrow> j \<noteq> 0 \<Longrightarrow> 0 \<le> xs ! j \<and> xs ! j < 2 ^ 26"
  defines "ys \<equiv> borrow_pass_int xs"
  shows "borrow_pass (s32s xs) = s32s ys" "feval 10 ys mod p25519 = feval 10 xs mod p25519" "length ys = 10"
    and "j < 10 \<Longrightarrow> 0 \<le> ys ! j \<and> ys ! j < 2 ^ 26"
proof -
  have "borrow_inv2 0 xs"
    using assms(2-4) by (simp add: borrow_inv2_def)
  then obtain zs where zs: "borrow_inv2 9 zs" "length zs = 10"
      "ys = (let c = borrow 25 (zs ! 9) in zs[9 := zs ! 9 + 2 ^ 25 * c, 0 := zs ! 0 - c * 19])"
      "borrow_pass (s32s xs) = s32s ys" "feval 10 ys mod p25519 = feval 10 xs mod p25519"
    unfolding ys_def by (rule borrow_pass_run [where Inv = borrow_inv2 and xs = xs, OF _ assms(1) borrow_inv2_step borrow_inv2_small]) blast+
  have c: "borrow 25 (zs ! 9) = (if zs ! 9 < 0 then 1 else 0)"
    using zs(1) by (intro borrow_small) (auto simp: borrow_inv2_def)
  have lim: "j < 9 \<Longrightarrow> 0 \<le> zs ! j \<and> zs ! j < 2 ^ 26" "- 1 \<le> zs ! 9" "zs ! 9 < 2 ^ 26" "zs ! 9 < 0 \<Longrightarrow> 2 ^ 26 - 57 \<le> zs ! 0" for j
    using zs(1) by (simp_all add: borrow_inv2_def)
  have "zs \<noteq> []"
    using zs(2) by auto
  show "borrow_pass (s32s xs) = s32s ys" "feval 10 ys mod p25519 = feval 10 xs mod p25519" "length ys = 10"
    using zs by (simp_all add: Let_def)
  show "0 \<le> ys ! j \<and> ys ! j < 2 ^ 26" if "j < 10"
    using that zs(2,3) c lim(1) [of j] lim(1) [of 0] lim(2-4) \<open>zs \<noteq> []\<close>
    by (cases "j = 9"; cases "j = 0") (auto simp: Let_def nth_list_update)
qed

text \<open>The step that follows the two passes has nothing left to borrow.\<close>

lemma borrow_step_none:
  assumes "length xs = 10" "0 \<le> xs ! 0" "xs ! 0 < 2 ^ 26"
  shows "borrow_step 0 (s32s xs) = s32s xs"
proof -
  have "borrow_step 0 (s32s xs) = s32s (borrow_int 0 xs)"
    using assms by (intro borrow_step_int) auto
  moreover have "borrow (limb_bits 0) (xs ! 0) = 0"
    using assms(2) by (simp add: borrow_def)
  ultimately show ?thesis
    by (simp add: borrow_int_def Let_def)
qed

lemma carry_pass_run:
  assumes "Inv 0 xs" "length xs = 10"
    and step: "\<And>k xs. k < 9 \<Longrightarrow> length xs = 10 \<Longrightarrow> Inv k xs \<Longrightarrow> Inv (Suc k) (carry_up k xs)"
    and small: "\<And>k xs. Inv k xs \<Longrightarrow> \<bar>xs ! k\<bar> < 2 ^ 31"
  obtains ys where "Inv 9 ys" "length ys = 10" "carry_pass_int xs = ys[9 := ys ! 9 mod 2 ^ 25, 0 := ys ! 0 + 19 * (ys ! 9 div 2 ^ 25)]"
    "carry_pass (s32s xs) = s32s (carry_pass_int xs)" "feval 10 (carry_pass_int xs) mod p25519 = feval 10 xs mod p25519"
proof -
  define ys where "ys = fold carry_up [0..<9] xs"
  have ys: "Inv 9 ys" "length ys = 10" "feval 10 ys = feval 10 xs" "fold carry_step [0..<9] (s32s xs) = s32s ys"
    using pass_fold [of Inv xs carry_up carry_step 9, OF assms(1,2) step] small carry_step_int feval_carry_up
    by (simp_all add: ys_def)
  have eq: "carry_pass_int xs = ys[9 := ys ! 9 mod 2 ^ 25, 0 := ys ! 0 + 19 * (ys ! 9 div 2 ^ 25)]"
    by (simp only: carry_pass_int_def Let_def ys_def)
  note w = wrap_carry [OF ys(2) small [OF ys(1)], folded eq]
  show thesis
  proof (rule that [OF ys(1,2) eq])
    show "carry_pass (s32s xs) = s32s (carry_pass_int xs)"
      using w(1) by (simp add: carry_pass_def ys(4) Let_def)
    show "feval 10 (carry_pass_int xs) mod p25519 = feval 10 xs mod p25519"
      using w(2) by (simp add: ys(3))
  qed
qed

text \<open>First carry pass: every limb has its width, except that limb 0 may exceed it by at most 37.\<close>

definition carry_inv1 :: "nat \<Rightarrow> int list \<Rightarrow> bool" where
  "carry_inv1 k xs \<longleftrightarrow> (\<forall>j<k. 0 \<le> xs ! j \<and> xs ! j < 2 ^ limb_bits j) \<and> 0 \<le> xs ! k \<and> xs ! k < 2 ^ 26 + 4 \<and>
     (\<forall>j. k < j \<and> j < 10 \<longrightarrow> 0 \<le> xs ! j \<and> xs ! j < 2 ^ 26)"

lemma carry_inv1_step:
  assumes "k < 9" "length xs = 10" "carry_inv1 k xs"
  shows "carry_inv1 (Suc k) (carry_up k xs)"
proof -
  have x: "0 \<le> xs ! k" "xs ! k < 2 ^ 26 + 4"
    using assms(3) by (simp_all add: carry_inv1_def)
  then have "0 \<le> xs ! k div 2 ^ limb_bits k" "xs ! k div 2 ^ limb_bits k \<le> 2"
    using limb_bits_cases [of k] by (auto simp: pos_imp_zdiv_nonneg_iff)
  then show ?thesis
    using assms unfolding carry_inv1_def carry_up_def by (auto simp: nth_list_update less_Suc_eq)
qed

lemma carry_inv1_small: "carry_inv1 k xs \<Longrightarrow> \<bar>xs ! k\<bar> < 2 ^ 31"
  by (auto simp: carry_inv1_def)

lemma carry_pass_first:
  assumes "length xs = 10" "\<And>j. j < 10 \<Longrightarrow> 0 \<le> xs ! j \<and> xs ! j < 2 ^ 26"
  defines "ys \<equiv> carry_pass_int xs"
  shows "carry_pass (s32s xs) = s32s ys" "feval 10 ys mod p25519 = feval 10 xs mod p25519" "length ys = 10"
    and "0 \<le> ys ! 0" "ys ! 0 < 2 ^ 26 + 38" "j < 10 \<Longrightarrow> j \<noteq> 0 \<Longrightarrow> 0 \<le> ys ! j \<and> ys ! j < 2 ^ limb_bits j"
proof -
  have "0 \<le> xs ! 0" "xs ! 0 < 2 ^ 26 + 4"
    using assms(2) [of 0] by simp_all
  then have "carry_inv1 0 xs"
    using assms(2) by (simp add: carry_inv1_def)
  then obtain zs where zs: "carry_inv1 9 zs" "length zs = 10" "ys = zs[9 := zs ! 9 mod 2 ^ 25, 0 := zs ! 0 + 19 * (zs ! 9 div 2 ^ 25)]"
      "carry_pass (s32s xs) = s32s ys" "feval 10 ys mod p25519 = feval 10 xs mod p25519"
    unfolding ys_def by (rule carry_pass_run [where Inv = carry_inv1 and xs = xs, OF _ assms(1) carry_inv1_step carry_inv1_small]) blast+
  have lim: "j < 9 \<Longrightarrow> 0 \<le> zs ! j \<and> zs ! j < 2 ^ limb_bits j" "0 \<le> zs ! 9" "zs ! 9 < 2 ^ 26 + 4" for j
    using zs(1) by (simp_all add: carry_inv1_def)
  have c: "0 \<le> zs ! 9 div 2 ^ 25" "zs ! 9 div 2 ^ 25 \<le> 2"
    using lim(2,3) by (auto simp: pos_imp_zdiv_nonneg_iff)
  have "zs \<noteq> []"
    using zs(2) by auto
  show "carry_pass (s32s xs) = s32s ys" "feval 10 ys mod p25519 = feval 10 xs mod p25519" "length ys = 10"
    using zs by simp_all
  show "0 \<le> ys ! 0" "ys ! 0 < 2 ^ 26 + 38"
    using zs(2,3) c lim(1) [of 0] \<open>zs \<noteq> []\<close> by (auto simp: nth_list_update limb_bits_def)
  show "0 \<le> ys ! j \<and> ys ! j < 2 ^ limb_bits j" if "j < 10" "j \<noteq> 0"
    using that zs(2,3) lim(1) [of j] by (cases "j = 9") (auto simp: nth_list_update limb_bits_def)
qed

text \<open>Second carry pass: every limb has its width.\<close>

definition carry_inv2 :: "nat \<Rightarrow> int list \<Rightarrow> bool" where
  "carry_inv2 k xs \<longleftrightarrow> (\<forall>j<k. 0 \<le> xs ! j \<and> xs ! j < 2 ^ limb_bits j) \<and> 0 \<le> xs ! k \<and>
     (if k = 0 then xs ! 0 < 2 ^ 26 + 38 else xs ! k \<le> 2 ^ limb_bits k \<and> (xs ! k = 2 ^ limb_bits k \<longrightarrow> xs ! 0 < 38)) \<and>
     (\<forall>j. k < j \<and> j < 10 \<longrightarrow> 0 \<le> xs ! j \<and> xs ! j < 2 ^ limb_bits j)"

lemma carry_inv2_step:
  assumes "k < 9" "length xs = 10" "carry_inv2 k xs"
  shows "carry_inv2 (Suc k) (carry_up k xs)"
proof -
  have "xs \<noteq> []"
    using assms(2) by auto
  have next_limb: "0 \<le> xs ! Suc k" "xs ! Suc k < 2 ^ limb_bits (Suc k)"
    using assms(1,3) by (auto simp: carry_inv2_def)
  show ?thesis
  proof (cases "xs ! k < 2 ^ limb_bits k")
    case True
    then have "carry_up k xs = xs"
      using assms(1,3) by (simp add: carry_up_def carry_inv2_def)
    then show ?thesis
      using True assms next_limb by (auto simp: carry_inv2_def less_Suc_eq)
  next
    case False
    have x: "xs ! k < 2 ^ limb_bits k + 2 ^ limb_bits k"
      using assms(3) limb_bits_cases [of k] by (auto simp: carry_inv2_def limb_bits_def split: if_splits)
    have "xs ! k div 2 ^ limb_bits k = 1"
      using False x by (intro int_div_pos_eq [of _ _ _ "xs ! k - 2 ^ limb_bits k"]) auto
    moreover have "xs ! k mod 2 ^ limb_bits k = xs ! k - 2 ^ limb_bits k"
      using calculation minus_mult_div_eq_mod [of "xs ! k" "2 ^ limb_bits k"] by simp
    ultimately have c: "carry_up k xs = xs[k := xs ! k - 2 ^ limb_bits k, Suc k := xs ! Suc k + 1]"
      by (simp add: carry_up_def)
    show ?thesis
      using False assms next_limb \<open>xs \<noteq> []\<close> unfolding carry_inv2_def c
      by (cases "k = 0") (auto simp: nth_list_update less_Suc_eq limb_bits_def)
  qed
qed

lemma carry_inv2_small: "carry_inv2 k xs \<Longrightarrow> \<bar>xs ! k\<bar> < 2 ^ 31"
  using limb_bits_cases [of k] by (auto simp: carry_inv2_def split: if_splits)

lemma carry_pass_second:
  assumes "length xs = 10" "0 \<le> xs ! 0" "xs ! 0 < 2 ^ 26 + 38" "\<And>j. j < 10 \<Longrightarrow> j \<noteq> 0 \<Longrightarrow> 0 \<le> xs ! j \<and> xs ! j < 2 ^ limb_bits j"
  defines "ys \<equiv> carry_pass_int xs"
  shows "carry_pass (s32s xs) = s32s ys" "feval 10 ys mod p25519 = feval 10 xs mod p25519" "length ys = 10"
    and "j < 10 \<Longrightarrow> 0 \<le> ys ! j \<and> ys ! j < 2 ^ limb_bits j"
proof -
  have "carry_inv2 0 xs"
    using assms(2-4) by (simp add: carry_inv2_def)
  then obtain zs where zs: "carry_inv2 9 zs" "length zs = 10" "ys = zs[9 := zs ! 9 mod 2 ^ 25, 0 := zs ! 0 + 19 * (zs ! 9 div 2 ^ 25)]"
      "carry_pass (s32s xs) = s32s ys" "feval 10 ys mod p25519 = feval 10 xs mod p25519"
    unfolding ys_def by (rule carry_pass_run [where Inv = carry_inv2 and xs = xs, OF _ assms(1) carry_inv2_step carry_inv2_small]) blast+
  have lim: "j < 9 \<Longrightarrow> 0 \<le> zs ! j \<and> zs ! j < 2 ^ limb_bits j" "0 \<le> zs ! 9" "zs ! 9 \<le> 2 ^ 25" "zs ! 9 = 2 ^ 25 \<Longrightarrow> zs ! 0 < 38" for j
    using zs(1) by (simp_all add: carry_inv2_def limb_bits_def)
  have "zs ! 9 div 2 ^ 25 = (if zs ! 9 = 2 ^ 25 then 1 else 0)"
    using lim(2,3) by (auto simp: div_pos_pos_trivial)
  moreover have "zs \<noteq> []"
    using zs(2) by auto
  ultimately show "0 \<le> ys ! j \<and> ys ! j < 2 ^ limb_bits j" if "j < 10"
    using that zs(2,3) lim(1) [of j] lim(1) [of 0] lim(2-4)
    by (cases "j = 9"; cases "j = 0") (auto simp: nth_list_update limb_bits_def)
  show "carry_pass (s32s xs) = s32s ys" "feval 10 ys mod p25519 = feval 10 xs mod p25519" "length ys = 10"
    using zs by simp_all
qed

text \<open>Together: the limbs that \<open>fcontract\<close> compares with the prime.\<close>

definition canonical :: "int list \<Rightarrow> bool" where
  "canonical xs \<longleftrightarrow> length xs = 10 \<and> (\<forall>j<10. 0 \<le> xs ! j \<and> xs ! j < 2 ^ limb_bits j)"

lemma contract_passes:
  assumes "length xs = 10" "\<And>j. j < 10 \<Longrightarrow> \<bar>xs ! j\<bar> < 2 ^ 26"
  obtains ys where "canonical ys" "feval 10 ys mod p25519 = feval 10 xs mod p25519"
    "carry_pass (carry_pass (borrow_step 0 (borrow_pass (borrow_pass (s32s xs))))) = s32s ys"
proof -
  note a = borrow_pass_first [OF assms]
  note b = borrow_pass_second [OF a(3-6)]
  note n = borrow_step_none [OF b(3)] b(4) [of 0]
  note c = carry_pass_first [OF b(3,4)]
  note d = carry_pass_second [OF c(3-6)]
  show thesis
    using a(1,2) b(1,2) n c(1,2) d by (intro that) (simp_all add: canonical_def)
qed

end
