(* ===== verification/Donna_Output.thy ===== *)
theory Donna_Output
  imports Donna_Contract
begin

text \<open>The end of \<^verbatim>\<open>fcontract\<close> of curve25519/curve25519-donna.c: the constant-time comparison with the
  prime (\<^verbatim>\<open>s32_eq\<close>, \<^verbatim>\<open>s32_gte\<close>, the mask), the masked subtraction, the shifts that align the limbs with
  the bytes and the macro \<^verbatim>\<open>F\<close> that writes them. The result is the little-endian form of the canonical
  representative modulo the prime, whatever the output buffer held before.\<close>

unbundle bit_operations_syntax

section \<open>Subtracting the prime\<close>

lemma s32_gte_int:
  assumes "0 \<le> x" "x < 2 ^ 30" "0 \<le> y" "y < 2 ^ 30"
  shows "s32_gte (word_of_int x) (word_of_int y) = (if y \<le> x then - 1 else 0)"
proof -
  have "\<bar>x - y\<bar> < 2 ^ 31"
    using assms by simp
  then have "signed_drop_bit 31 (word_of_int (x - y) :: s32) = word_of_int ((x - y) div 2 ^ 31)"
    by (rule signed_drop_bit_s32)
  moreover have "(x - y) div 2 ^ 31 = (if y \<le> x then 0 else - 1)"
    using assms by (auto simp: div_pos_pos_trivial intro: div_pos_neg_trivial)
  ultimately show ?thesis
    by (simp add: s32_gte_def Let_def flip: of_int_diff)
qed

lemma s32_eq_word: "s32_eq a b = (if a = b then - 1 else 0)"
proof -
  define w where "w = NOT (a XOR b)"
  have smear: "bit (v AND push_bit k v) i \<longleftrightarrow> bit v i \<and> k \<le> i \<and> bit v (i - k)" for v :: s32 and k i
    by (auto simp: bit_simps dest: bit_imp_le_length)
  have "bit (let a = w AND push_bit 16 w; a = a AND push_bit 8 a; a = a AND push_bit 4 a; a = a AND push_bit 2 a in a AND push_bit 1 a) 31
      \<longleftrightarrow> (\<forall>i<32. bit w i)"
  proof -
    have "[0..<32] = [0, 1, 2, 3, 4, 5, 6, 7, 8, 9, 10, 11, 12, 13, 14, 15,
        16, 17, 18, 19, 20, 21, 22, 23, 24, 25, 26, 27, 28, 29, 30, 31]"
      by (simp add: upt_rec)
    then have "(\<forall>i<32. bit w i) \<longleftrightarrow> (\<forall>i\<in>set [0, 1, 2, 3, 4, 5, 6, 7, 8, 9, 10, 11, 12, 13, 14, 15,
        16, 17, 18, 19, 20, 21, 22, 23, 24, 25, 26, 27, 28, 29, 30, 31]. bit w i)"
      by (metis atLeast0LessThan lessThan_iff set_upt)
    then show ?thesis
      unfolding Let_def smear by simp blast
  qed
  moreover have "(\<forall>i<32. bit w i) \<longleftrightarrow> a = b"
    by (auto simp: w_def bit_simps bit_eq_iff)
  ultimately show ?thesis
    by (simp add: s32_eq_def w_def Let_def signed_drop_bit_31)
qed


text \<open>The limbs of the prime.\<close>

definition p_limb :: "nat \<Rightarrow> int" where
  "p_limb i = (if i = 0 then 0x3ffffed else 2 ^ limb_bits i - 1)"

lemma feval_p: "(\<Sum>i<10. p_limb i * 2 ^ fweight i) = p25519"
  by (simp add: p_limb_def limb_bits_def fweight_def p25519_def lessThan_nat_numeral lessThan_Suc)

lemma feval_max: "(\<Sum>i<n. (2 ^ limb_bits i - 1) * 2 ^ fweight i) = 2 ^ fweight n - (1 :: int)"
proof (induction n)
  case (Suc n)
  then show ?case
    by (simp add: fweight_Suc power_add algebra_simps)
qed (simp add: fweight_def)

lemma feval_less:
  assumes "canonical xs" "n \<le> 10"
  shows "0 \<le> feval n xs" "feval n xs < 2 ^ fweight n"
proof -
  show "0 \<le> feval n xs"
    unfolding feval_def using assms by (intro sum_nonneg) (simp add: canonical_def)
  have "feval n xs \<le> (\<Sum>i<n. (2 ^ limb_bits i - 1) * 2 ^ fweight i)"
    unfolding feval_def using assms by (intro sum_mono mult_right_mono) (auto simp: canonical_def)
  then show "feval n xs < 2 ^ fweight n"
    by (simp add: feval_max)
qed

lemma ge_prime_iff:
  assumes "canonical xs"
  shows "p25519 \<le> feval 10 xs \<longleftrightarrow> 0x3ffffed \<le> xs ! 0 \<and> (\<forall>i\<in>{1..<10}. xs ! i = 2 ^ limb_bits i - 1)"
proof -
  have xs: "0 \<le> xs ! i" "xs ! i < 2 ^ limb_bits i" if "i < 10" for i
    using assms that by (simp_all add: canonical_def)
  define d where "d i = (2 ^ limb_bits i - 1 - xs ! i) * 2 ^ fweight i" for i
  have d: "0 \<le> d i" if "i < 10" for i
    using xs [OF that] by (simp add: d_def)
  have "(\<Sum>i<10. d i) = (\<Sum>i<10. (2 ^ limb_bits i - 1) * 2 ^ fweight i) - feval 10 xs"
    by (simp only: feval_def d_def left_diff_distrib sum_subtractf)
  also have "\<dots> = 2 ^ 255 - 1 - feval 10 xs"
    using feval_max [of 10] by (simp add: fweight_def)
  finally have total: "feval 10 xs = p25519 + 18 - (\<Sum>i<10. d i)"
    by (simp add: p25519_def)
  show ?thesis
  proof
    assume "p25519 \<le> feval 10 xs"
    then have "(\<Sum>i<10. d i) \<le> 18"
      using total by simp
    then have le: "d i \<le> 18" if "i < 10" for i
      using member_le_sum [of i "{..<10}" d] d that by fastforce
    have "xs ! i = 2 ^ limb_bits i - 1" if "i \<in> {1..<10}" for i
    proof (rule ccontr)
      assume "xs ! i \<noteq> 2 ^ limb_bits i - 1"
      then have "1 \<le> 2 ^ limb_bits i - 1 - xs ! i"
        using xs [of i] that by simp
      moreover have "26 \<le> fweight i"
        using that div_le_mono [of 52 "51 * i + 1" 2] by (simp add: fweight_def)
      then have "(2 :: int) ^ 26 \<le> 2 ^ fweight i"
        by (rule power_increasing) simp
      ultimately have "1 * 2 ^ 26 \<le> d i"
        unfolding d_def by (intro mult_mono) auto
      then show False
        using le [of i] that by simp
    qed
    then show "0x3ffffed \<le> xs ! 0 \<and> (\<forall>i\<in>{1..<10}. xs ! i = 2 ^ limb_bits i - 1)"
      using le [of 0] by (simp add: d_def fweight_def limb_bits_def)
  next
    assume *: "0x3ffffed \<le> xs ! 0 \<and> (\<forall>i\<in>{1..<10}. xs ! i = 2 ^ limb_bits i - 1)"
    have "(\<Sum>i<10. d i) \<le> (\<Sum>i<10 :: nat. if i = 0 then 18 else 0)"
      using * by (intro sum_mono) (auto simp: d_def fweight_def limb_bits_def)
    then show "p25519 \<le> feval 10 xs"
      using total by simp
  qed
qed

lemma reduce_mask_int:
  assumes "canonical xs"
  shows "reduce_mask (s32s xs) = (if p25519 \<le> feval 10 xs then - 1 else 0)"
proof -
  have xs: "length xs = 10" "i < 10 \<Longrightarrow> 0 \<le> xs ! i" "i < 10 \<Longrightarrow> xs ! i < 2 ^ limb_bits i" for i
    using assms by (simp_all add: canonical_def)
  have eq: "s32_eq (s32s xs ! i) (if odd i then 0x1ffffff else 0x3ffffff) = (if xs ! i = 2 ^ limb_bits i - 1 then - 1 else 0)"
    if "i < 10" for i
  proof -
    have "(if odd i then 0x1ffffff else 0x3ffffff) = (word_of_int (2 ^ limb_bits i - 1) :: s32)"
      by (simp add: limb_bits_def)
    moreover have "sint (word_of_int (xs ! i) :: s32) = xs ! i" "sint (word_of_int (2 ^ limb_bits i - 1) :: s32) = 2 ^ limb_bits i - 1"
      using xs(2,3) [OF that] limb_bits_cases [of i] by (auto intro!: sint_s32)
    ultimately show ?thesis
      using that xs(1) unfolding s32_eq_word by (metis nth_map)
  qed
  have run: "fold (\<lambda>i m. m AND s32_eq (s32s xs ! i) (if odd i then 0x1ffffff else 0x3ffffff)) is (if b then - 1 else 0) =
      (if b \<and> (\<forall>i\<in>set is. xs ! i = 2 ^ limb_bits i - 1) then - 1 else 0 :: s32)" if "set is \<subseteq> {..<10}" for "is" b
    using that
  proof (induction "is" arbitrary: b)
    case (Cons i "is")
    have "(if b then - 1 else 0 :: s32) AND (if xs ! i = 2 ^ limb_bits i - 1 then - 1 else 0) =
        (if b \<and> xs ! i = 2 ^ limb_bits i - 1 then - 1 else 0)"
      by simp
    then show ?case
      using Cons eq [of i] by (simp only: fold_simps list.set set_ConsD insert_subset lessThan_iff) auto
  qed simp
  have "fold (\<lambda>i m. m AND s32_eq (s32s xs ! i) (if odd i then 0x1ffffff else 0x3ffffff)) [1..<10]
        (if 0x3ffffed \<le> xs ! 0 then - 1 else 0) =
      (if 0x3ffffed \<le> xs ! 0 \<and> (\<forall>i\<in>set [1..<10]. xs ! i = 2 ^ limb_bits i - 1) then - 1 else 0 :: s32)"
    by (rule run) (simp only: set_upt, force)
  moreover have "s32_gte (s32s xs ! 0) 0x3ffffed = (if 0x3ffffed \<le> xs ! 0 then - 1 else 0)"
    using s32_gte_int [of "xs ! 0" "0x3ffffed"] xs(1) xs(2,3) [of 0] by (simp add: limb_bits_def)
  ultimately show ?thesis
    unfolding reduce_mask_def ge_prime_iff [OF assms] set_upt by (simp only:)
qed

text \<open>Subtraction under the mask.\<close>

definition subtract_int :: "int list \<Rightarrow> int list" where
  "subtract_int xs = (if p25519 \<le> feval 10 xs then map (\<lambda>i. xs ! i - p_limb i) [0..<10] else xs)"

lemma fold_update_nth:
  assumes "distinct is" "set is \<subseteq> {..<length xs}"
  shows "fold (\<lambda>i xs. xs[i := f i (xs ! i)]) is xs = map (\<lambda>i. if i \<in> set is then f i (xs ! i) else xs ! i) [0..<length xs]"
  using assms
proof (induction "is" arbitrary: xs)
  case Nil
  then show ?case by (simp add: map_nth)
next
  case (Cons i "is")
  have "fold (\<lambda>i xs. xs[i := f i (xs ! i)]) is (xs[i := f i (xs ! i)]) =
      map (\<lambda>j. if j \<in> set is then f j (xs[i := f i (xs ! i)] ! j) else xs[i := f i (xs ! i)] ! j) [0..<length xs]"
    using Cons.IH [of "xs[i := f i (xs ! i)]"] Cons.prems by simp
  also have "\<dots> = map (\<lambda>j. if j \<in> set (i # is) then f j (xs ! j) else xs ! j) [0..<length xs]"
    using Cons.prems by (intro map_cong) (auto simp: nth_list_update)
  finally show ?case
    by simp
qed

lemma subtract_masked_int:
  assumes "canonical xs"
  shows "subtract_masked (reduce_mask (s32s xs)) (s32s xs) = s32s (subtract_int xs)"
proof -
  have len: "length xs = 10" "xs \<noteq> []"
    using assms by (auto simp: canonical_def)
  define m :: s32 where "m = reduce_mask (s32s xs)"
  let ?k = "\<lambda>i. if odd i then 0x1ffffff else 0x3ffffff :: s32"
  have "subtract_masked m (s32s xs) =
      map (\<lambda>i. if i = 0 then s32s xs ! 0 - (m AND 0x3ffffed) else s32s xs ! i - (m AND ?k i)) [0..<10]"
    unfolding subtract_masked_def
    by (subst fold_update_nth [where f = "\<lambda>i x. x - (m AND ?k i)"]) (use len in \<open>auto simp: list_eq_iff_nth_eq nth_list_update\<close>)
  also have "\<dots> = s32s (subtract_int xs)"
  proof (cases "p25519 \<le> feval 10 xs")
    case True
    then have "m = - 1"
      by (simp add: m_def reduce_mask_int [OF assms])
    then show ?thesis
      using True len by (auto simp: subtract_int_def p_limb_def limb_bits_def)
  next
    case False
    then have "m = 0"
      by (simp add: m_def reduce_mask_int [OF assms])
    then show ?thesis
      using False len by (simp add: subtract_int_def list_eq_iff_nth_eq)
  qed
  finally show ?thesis
    by (simp only: m_def)
qed

lemma subtract_int_ok:
  assumes "canonical xs"
  shows "canonical (subtract_int xs)" "feval 10 (subtract_int xs) = feval 10 xs mod p25519"
proof -
  have p: "0 < p25519" "2 ^ 255 < 2 * p25519"
    by (simp_all add: p25519_def)
  have v: "0 \<le> feval 10 xs" "feval 10 xs < 2 ^ 255"
    using feval_less [OF assms, of 10] by (simp_all add: fweight_def)
  have "canonical (subtract_int xs) \<and> feval 10 (subtract_int xs) = feval 10 xs mod p25519"
  proof (cases "p25519 \<le> feval 10 xs")
    case True
    then have "feval 10 (subtract_int xs) = feval 10 xs - (\<Sum>i<10. p_limb i * 2 ^ fweight i)"
      by (simp add: subtract_int_def feval_def left_diff_distrib sum_subtractf)
    also have "\<dots> = (feval 10 xs - p25519) mod p25519"
      using True v p unfolding feval_p by (intro mod_pos_pos_trivial [symmetric]) auto
    also have "\<dots> = feval 10 xs mod p25519"
      by simp
    moreover have "xs ! 0 - 0x3ffffed < 2 ^ limb_bits 0"
      using assms by (force simp: canonical_def limb_bits_def)
    ultimately show ?thesis
      using True ge_prime_iff [OF assms] assms by (auto simp: canonical_def subtract_int_def p_limb_def)
  next
    case False
    then show ?thesis
      using v assms by (simp add: subtract_int_def)
  qed
  then show "canonical (subtract_int xs)" "feval 10 (subtract_int xs) = feval 10 xs mod p25519"
    by simp_all
qed


section \<open>Writing the bytes\<close>

lemma or_disjoint_nat:
  fixes a b :: nat
  assumes "a < 2 ^ k" "2 ^ k dvd b"
  shows "a OR b = a + b"
proof -
  have "\<not> bit a n" if "k \<le> n" for n
    using assms(1) that by (metis bit_take_bit_iff not_less take_bit_nat_eq_self)
  moreover have "\<not> bit b n" if "n < k" for n
  proof -
    have "take_bit k b = 0"
      using assms(2) by (simp add: take_bit_eq_mod)
    then show ?thesis
      using that by (metis bit_0_eq bit_take_bit_iff bot_apply bot_bool_def)
  qed
  ultimately have "a AND b = 0"
    by (intro bit_eqI) (metis bit_0_eq bit_and_iff bot_apply bot_bool_def not_less)
  then show ?thesis
    by (simp add: disjunctive_add_eq_or)
qed

lemma limb_byte:
  assumes "k \<le> 24" "Y < 2 ^ 32"
  shows "unat (ucast (signed_drop_bit k (word_of_nat Y :: s32) AND 0xff) :: byte) = Y div 2 ^ k mod 256"
proof -
  have "ucast (signed_drop_bit k x AND 0xff) = (ucast (drop_bit k x) :: byte)" for x :: s32
  proof (rule bit_word_eqI)
    fix n assume n: "n < LENGTH(8)"
    have ff: "(0xff :: s32) = mask 8"
      by (simp add: mask_eq_exp_minus_1)
    have "\<not> 32 - k \<le> n"
      using n assms(1) by simp
    then show "bit (ucast (signed_drop_bit k x AND 0xff) :: byte) n = bit (ucast (drop_bit k x) :: byte) n"
      using n unfolding ff by (simp add: bit_ucast_iff bit_and_iff bit_signed_drop_bit_iff bit_drop_bit_eq bit_mask_iff)
  qed
  moreover have "unat (word_of_nat Y :: s32) = Y"
    using assms(2) by (simp add: unat_of_nat take_bit_nat_eq_self)
  moreover have "unat (ucast (drop_bit k x) :: byte) = drop_bit k (unat x) mod 2 ^ 8" for x :: s32
    using unsigned_less [of x, where ?'a = nat] by (simp only: unsigned_ucast_eq unsigned_drop_bit_eq) (simp add: take_bit_eq_mod)
  ultimately show ?thesis
    by (simp only: drop_bit_eq_div) simp
qed

lemma little_endian_take_Suc:
  "s < length out \<Longrightarrow> little_endian (take (Suc s) out) = little_endian (take s out) + 256 ^ s * unat (out ! s)"
  by (simp add: take_Suc_conv_app_nth little_endian_append)

lemma little_endian_take_4:
  assumes "s + 3 < length out"
  shows "little_endian (take (s + 4) out) = little_endian (take s out) + 256 ^ s * (unat (out ! s) +
    256 * unat (out ! (s + 1)) + 256 ^ 2 * unat (out ! (s + 2)) + 256 ^ 3 * unat (out ! (s + 3)))"
proof -
  have "s + 4 = Suc (Suc (Suc (Suc s)))" "s + 3 = Suc (Suc (Suc s))" "s + 2 = Suc (Suc s)"
    by simp_all
  note e = this
  show ?thesis
    unfolding e using assms little_endian_take_Suc [of "Suc (Suc (Suc s))" out] little_endian_take_Suc [of "Suc (Suc s)" out]
      little_endian_take_Suc [of "Suc s" out] little_endian_take_Suc [of s out]
    by (simp add: power_add algebra_simps)
qed

lemma four_bytes_value:
  "(Y :: nat) < 2 ^ 32 \<Longrightarrow>
    Y mod 256 + 256 * (Y div 2 ^ 8 mod 256) + 256 ^ 2 * (Y div 2 ^ 16 mod 256) + 256 ^ 3 * (Y div 2 ^ 24 mod 256) = Y"
proof -
  assume "Y < 2 ^ 32"
  moreover have "Y div 2 ^ 24 mod 256 = Y div 2 ^ 24"
    using calculation by simp
  ultimately show ?thesis
    using mod_mult2_eq [of Y 256 256] mod_mult2_eq [of Y "256 * 256" 256] div_mult_mod_eq [of Y "2 ^ 24"] by simp
qed

lemma write_limb_ok:
  assumes "s + 3 < length out" "Y < 2 ^ 32" "unat (out ! s) < 2 ^ k" "2 ^ k dvd Y" "k \<le> 8"
  shows "little_endian (take (s + 4) (write_limb (word_of_nat Y) s out)) = little_endian (take (Suc s) out) + Y * 256 ^ s"
    and "length (write_limb (word_of_nat Y) s out) = length out" "s + 4 \<le> j \<Longrightarrow> write_limb (word_of_nat Y) s out ! j = out ! j"
proof -
  define b where "b i = (ucast (signed_drop_bit (8 * i) (word_of_nat Y :: s32) AND 0xff) :: byte)" for i
  have b: "unat (b i) = Y div 2 ^ (8 * i) mod 256" if "i < 4" for i
    using limb_byte [of "8 * i" Y] that assms(2) by (simp add: b_def)
  define ys where "ys = write_limb (word_of_nat Y) s out"
  have ys: "ys = out[s := out ! s OR b 0, s + 1 := b 1, s + 2 := b 2, s + 3 := b 3]"
    by (simp add: ys_def write_limb_def b_def)
  have "(2 ^ k :: nat) dvd 2 ^ 8"
    using assms(5) by (rule le_imp_power_dvd)
  then have "2 ^ k dvd unat (b 0)"
    using assms(4) b [of 0] by (simp add: dvd_mod_iff)
  then have or: "unat (out ! s OR b 0) = unat (out ! s) + Y mod 256"
    using or_disjoint_nat [OF assms(3), of "unat (b 0)"] b [of 0] by (simp add: unsigned_or_eq)
  have "unat (ys ! s) = unat (out ! s) + Y mod 256" "unat (ys ! (s + 1)) = Y div 2 ^ 8 mod 256"
      "unat (ys ! (s + 2)) = Y div 2 ^ 16 mod 256" "unat (ys ! (s + 3)) = Y div 2 ^ 24 mod 256"
    using assms(1) b [of 1] b [of 2] b [of 3] or by (simp_all add: ys nth_list_update)
  moreover have "take s ys = take s out" "s + 3 < length ys"
    using assms(1) by (simp_all add: ys)
  ultimately have "little_endian (take (s + 4) ys) = little_endian (take s out) + 256 ^ s * (unat (out ! s) + Y)"
    using little_endian_take_4 [of s ys] four_bytes_value [OF assms(2)] by (simp add: add.assoc)
  then show "little_endian (take (s + 4) (write_limb (word_of_nat Y) s out)) = little_endian (take (Suc s) out) + Y * 256 ^ s"
    using assms(1) by (simp add: ys_def [symmetric] little_endian_take_Suc algebra_simps)
  show "length (write_limb (word_of_nat Y) s out) = length out" "s + 4 \<le> j \<Longrightarrow> write_limb (word_of_nat Y) s out ! j = out ! j"
    by (simp_all add: write_limb_def)
qed

lemma all_less_10:
  "(\<forall>i<10. P (i :: nat)) \<longleftrightarrow> P 0 \<and> P 1 \<and> P 2 \<and> P 3 \<and> P 4 \<and> P 5 \<and> P 6 \<and> P 7 \<and> P 8 \<and> P 9"
  by (simp add: eval_nat_numeral All_less_Suc conj_ac)

definition partial_bytes :: "int list \<Rightarrow> nat \<Rightarrow> bytes \<Rightarrow> bool" where
  "partial_bytes ys i out \<longleftrightarrow> length out = 32 \<and>
     int (little_endian (take (Suc (fweight i div 8)) out)) = feval i ys \<and> (i \<le> 4 \<longrightarrow> out ! 16 = 0)"

lemma partial_bytes_top:
  assumes "partial_bytes ys i out" "canonical ys" "i < 10"
  shows "unat (out ! (fweight i div 8)) < 2 ^ (fweight i mod 8)"
proof -
  let ?s = "fweight i div 8"
  have "?s < length out"
    using assms(1,3) by (simp add: partial_bytes_def fweight_def)
  moreover have "feval i ys < 2 ^ fweight i"
    using assms(2,3) by (intro feval_less) (auto simp: canonical_def)
  ultimately have "int (256 ^ ?s * unat (out ! ?s)) < int (2 ^ fweight i)"
    using assms(1) little_endian_take_Suc [of ?s out] by (simp add: partial_bytes_def)
  then have "256 ^ ?s * unat (out ! ?s) < 2 ^ fweight i"
    by (simp only: of_nat_less_iff)
  also have "(2 :: nat) ^ fweight i = 256 ^ ?s * 2 ^ (fweight i mod 8)"
    using power_add [of "2 :: nat" "8 * ?s" "fweight i mod 8"] by (simp add: power_mult)
  finally show ?thesis
    by simp
qed

lemma shift_limbs_nth:
  assumes "canonical ys" "i < 10"
  shows "shift_limbs (s32s ys) ! i = word_of_nat (nat (ys ! i) * 2 ^ (fweight i mod 8))"
proof -
  have "\<forall>i<10. shift_limbs (s32s ys) ! i = push_bit (fweight i mod 8) (s32s ys ! i)"
    unfolding all_less_10 by (simp add: shift_limbs_def fweight_def)
  moreover have "s32s ys ! i = word_of_nat (nat (ys ! i))"
    using assms by (simp add: canonical_def)
  ultimately show ?thesis
    using assms(2) by (simp add: push_bit_eq_mult)
qed

lemma positions:
  "\<forall>i<10. fweight i div 8 + 3 < 32"
  "\<forall>i<10. Suc (fweight (Suc i) div 8) = fweight i div 8 + (if i = 4 then 5 else 4)"
  "\<forall>i<10. limb_bits i + fweight i mod 8 \<le> 32"
  "\<forall>i<10. i < 4 \<longrightarrow> fweight i div 8 < 12"
  by (simp_all add: all_less_10 fweight_def limb_bits_def)

lemma write_limb_step:
  assumes "partial_bytes ys i out" "canonical ys" "i < 10"
  shows "partial_bytes ys (Suc i) (write_limb (shift_limbs (s32s ys) ! i) (fweight i div 8) out)"
proof -
  let ?s = "fweight i div 8" and ?k = "fweight i mod 8"
  define Y where "Y = nat (ys ! i) * 2 ^ ?k"
  define zs where "zs = write_limb (shift_limbs (s32s ys) ! i) ?s out"
  have pos: "?s + 3 < 32" "Suc (fweight (Suc i) div 8) = ?s + (if i = 4 then 5 else 4)" "limb_bits i + ?k \<le> 32"
    "i < 4 \<Longrightarrow> ?s < 12"
    using assms(3) positions by blast+
  have "0 \<le> ys ! i" "ys ! i < 2 ^ limb_bits i"
    using assms(2,3) by (simp_all add: canonical_def)
  then have "int Y < 2 ^ limb_bits i * 2 ^ ?k"
    by (simp add: Y_def)
  also have "\<dots> \<le> 2 ^ 32"
    using pos(3) power_increasing [of "limb_bits i + ?k" 32 "2 :: int"] by (simp add: power_add)
  finally have Y: "Y < 2 ^ 32"
    by simp
  have "?s + 3 < length out" and zs: "zs = write_limb (word_of_nat Y) ?s out"
    using assms(1) pos(1) shift_limbs_nth [OF assms(2,3)] by (simp_all add: partial_bytes_def zs_def Y_def)
  moreover have "2 ^ ?k dvd Y" "?k \<le> 8"
    using mod_less_divisor [of 8 "fweight i"] by (simp_all add: Y_def)
  ultimately have w: "little_endian (take (?s + 4) zs) = little_endian (take (Suc ?s) out) + Y * 256 ^ ?s"
    "length zs = length out" "\<And>j. ?s + 4 \<le> j \<Longrightarrow> zs ! j = out ! j"
    using write_limb_ok [OF _ Y partial_bytes_top [OF assms]] by blast+
  have "(2 :: nat) ^ fweight i = 256 ^ ?s * 2 ^ ?k"
    using power_add [of "2 :: nat" "8 * ?s" ?k] by (simp add: power_mult)
  then have "Y * 256 ^ ?s = nat (ys ! i) * 2 ^ fweight i"
    by (simp add: Y_def)
  then have "int (little_endian (take (?s + 4) zs)) = feval (Suc i) ys"
    using w(1) assms(1) \<open>0 \<le> ys ! i\<close> by (simp add: partial_bytes_def feval_def)
  moreover have "zs ! 16 = 0" if "i \<le> 4"
    using w(3) [of 16] assms(1) that pos(4) by (cases "i = 4") (simp_all add: partial_bytes_def fweight_def)
  moreover have "length zs = 32"
    using w(2) assms(1) by (simp add: partial_bytes_def)
  moreover have "little_endian (take (Suc (fweight (Suc i) div 8)) zs) = little_endian (take (?s + 4) zs)"
    using pos(2) calculation(2,3) little_endian_take_Suc [of "?s + 4" zs]
    by (cases "i = 4") (simp_all add: fweight_def add.commute)
  ultimately show ?thesis
    unfolding partial_bytes_def zs_def by simp
qed

text \<open>\<^const>\<open>fcontract\<close> writes the canonical representative, in 32 bytes.\<close>

lemma fcontract_fold:
  "fold (\<lambda>(i, s). write_limb (input ! i) s)
     [(0, 0), (1, 3), (2, 6), (3, 9), (4, 12), (5, 16), (6, 19), (7, 22), (8, 25), (9, 28)] out =
   fold (\<lambda>i. write_limb (input ! i) (fweight i div 8)) [0..<10] out"
proof -
  have "[0..<10] = [0, 1, 2, 3, 4, 5, 6, 7, 8, 9]"
    by (simp add: upt_rec)
  then show ?thesis
    by (simp add: fweight_def)
qed

lemma write_limbs_ok:
  assumes "canonical ys" "partial_bytes ys 0 out" "n \<le> 10"
  shows "partial_bytes ys n (fold (\<lambda>i. write_limb (shift_limbs (s32s ys) ! i) (fweight i div 8)) [0..<n] out)"
  using assms(3) by (induction n) (simp_all add: assms(1,2) write_limb_step)

lemma ucast_sint: "ucast (w :: limb) = (word_of_int (sint w) :: s32)"
  by (rule bit_word_eqI) (simp add: bit_ucast_iff bit_signed_iff min_def)

lemma fcontract_ok:
  assumes "fe_ok (2 ^ 26) a" "length output = 32"
  shows "length (fcontract output a) = 32" "int (little_endian (fcontract output a)) = fe a mod p25519"
proof -
  have "map ucast (take 10 a) = s32s (map sint a)"
    using assms(1) by (simp add: fe_ok_def ucast_sint)
  then obtain ys where ys: "canonical ys" "feval 10 ys mod p25519 = fe a mod p25519"
    "carry_pass (carry_pass (borrow_step 0 (borrow_pass (borrow_pass (map ucast (take 10 a)))))) = s32s ys"
    using contract_passes [of "map sint a"] assms(1) by (auto simp: fe_ok_def fe_def)
  define zs where "zs = subtract_int ys"
  have zs: "canonical zs" "feval 10 zs = fe a mod p25519"
    using subtract_int_ok [OF ys(1)] ys(2) by (simp_all add: zs_def)
  define out where "out = output[0 := 0, 16 := 0]"
  have "fcontract output a = fold (\<lambda>i. write_limb (shift_limbs (s32s zs) ! i) (fweight i div 8)) [0..<10] out"
    unfolding fcontract_def Let_def fcontract_fold ys(3) subtract_masked_int [OF ys(1)] zs_def out_def ..
  moreover have "partial_bytes zs 0 out"
    using assms(2) little_endian_take_Suc [of 0 out] by (simp add: partial_bytes_def out_def fweight_def feval_def)
  ultimately have "partial_bytes zs 10 (fcontract output a)"
    using write_limbs_ok [OF zs(1), of out 10] by simp
  then show "length (fcontract output a) = 32" "int (little_endian (fcontract output a)) = fe a mod p25519"
    using zs(2) by (auto simp: partial_bytes_def fweight_def)
qed

end
