(* ===== verification/X25519.thy ===== *)
theory X25519
  imports Donna_Ladder Donna_Output
begin

text \<open>
  \<open>curve25519_donna\<close> of curve25519/curve25519-donna.c computes the function X25519 of RFC 7748, and the key
  generation and key agreement of curve.c over it are those of the RFC.
\<close>


section \<open>The whole scalar multiplication\<close>

lemma cmult_x25519:
  assumes "rep (2 ^ 26) q u" "length n = 32"
  shows "rep (2 ^ 26) (case cmult n q of (x, z) \<Rightarrow> fmul x (crecip z)) (x25519 (little_endian n) u)"
proof -
  obtain x2 z2 where a: "fst (x25519_loop u (map (bit (little_endian n)) (rev [0..<256])) False ((1, 0), (u, 1))) = (x2, z2)"
    by fastforce
  obtain x z where c: "cmult n q = (x, z)"
    by fastforce
  have "rep (2 ^ 26) x x2" "rep (2 ^ 26) z z2"
    using cmult_ok [OF assms] a c by (simp_all add: rep_point_def)
  then have "rep (2 ^ 26) (fmul x (crecip z)) (x2 * z2 ^ nat (p25519 - 2))"
    by (intro rep_fmul rep_wide crecip_ok)
  then show ?thesis
    by (simp only: x25519_def a c Let_def case_prod_conv rep_mod)
qed

lemma donna_x25519:
  assumes "length mypublic = 32" "length secret = 32" "length basepoint = 32"
  shows "length (Donna.curve25519_donna mypublic secret basepoint) = 32"
    and "int (little_endian (Donna.curve25519_donna mypublic secret basepoint)) =
      x25519 (little_endian secret) (int (little_endian basepoint mod 2 ^ 255))"
proof -
  define r where "r = (case cmult secret (fexpand basepoint) of (x, z) \<Rightarrow> fmul x (crecip z))"
  define u where "u = int (little_endian basepoint mod 2 ^ 255)"
  have d: "Donna.curve25519_donna mypublic secret basepoint = fcontract mypublic r"
    using assms(2) by (simp add: Donna.curve25519_donna_def Let_def r_def split: prod.splits)
  have "rep (2 ^ 26) (fexpand basepoint) u"
    using fexpand_ok [OF assms(3)] by (simp add: rep_def u_def)
  then have "rep (2 ^ 26) r (x25519 (little_endian secret) u)"
    unfolding r_def using assms(2) by (rule cmult_x25519)
  then have r: "fe_ok (2 ^ 26) r" "fe r mod p25519 = x25519 (little_endian secret) u mod p25519"
    by (simp_all add: rep_def)
  have "x25519 (little_endian secret) u mod p25519 = x25519 (little_endian secret) u"
    by (simp only: x25519_def Let_def case_prod_beta mod_mod_trivial)
  then show "length (Donna.curve25519_donna mypublic secret basepoint) = 32"
    "int (little_endian (Donna.curve25519_donna mypublic secret basepoint)) = x25519 (little_endian secret) (int (little_endian basepoint mod 2 ^ 255))"
    using fcontract_ok [OF r(1) assms(1)] r(2) unfolding d u_def by simp_all
qed

lemma digit_unique:
  assumes "(x :: nat) < 256" "y < 256" "x + 256 * a = y + 256 * b"
  shows "x = y" "a = b"
proof -
  show "x = y"
    using arg_cong [OF assms(3), of "\<lambda>n. n mod 256"] assms(1,2) by simp
  then show "a = b"
    using assms(3) by simp
qed

lemma little_endian_inj:
  "length xs = length ys \<Longrightarrow> little_endian xs = little_endian ys \<Longrightarrow> xs = ys"
proof (induction xs ys rule: list_induct2)
  case (Cons x xs y ys)
  have "unat x < 256" "unat y < 256"
    using unsigned_less [of x, where ?'a = nat] unsigned_less [of y, where ?'a = nat] by simp_all
  moreover have "unat x + 256 * little_endian xs = unat y + 256 * little_endian ys"
    using Cons.prems by (simp only: little_endian.simps)
  ultimately have "unat x = unat y" "little_endian xs = little_endian ys"
    by (rule digit_unique)+
  then show ?case
    using Cons.IH by (simp only: word_unat_eq_iff list.inject simp_thms)
qed simp

text \<open>The result does not depend on what the output buffer held, nor on the top bit of the basepoint.\<close>

lemma donna_output_ignored:
  assumes "length a = 32" "length b = 32" "length secret = 32" "length basepoint = 32"
  shows "Donna.curve25519_donna a secret basepoint = Donna.curve25519_donna b secret basepoint"
  using donna_x25519 [OF assms(1,3,4)] donna_x25519 [OF assms(2,3,4)] by (intro little_endian_inj) simp_all

lemma x25519_bounds: "0 \<le> x25519 k u" "x25519 k u < p25519"
  by (simp_all add: x25519_def Let_def case_prod_beta p25519_def)

lemma fcontract_fexpand:
  assumes "length bs = 32" "int (little_endian bs) < p25519" "length output = 32"
  shows "fcontract output (fexpand bs) = bs"
proof -
  have "little_endian bs < 2 ^ 255"
    using assms(2) by (simp add: p25519_def)
  then have "fe (fexpand bs) mod p25519 = int (little_endian bs)"
    using fexpand_ok(2) [OF assms(1)] assms(2) by simp
  then show ?thesis
    using fcontract_ok [OF fexpand_ok(1) [OF assms(1)] assms(3)] assms(1) by (intro little_endian_inj) simp_all
qed

section \<open>curve.c over this implementation\<close>

text \<open>
  The context whose \<open>curve25519_donna\<close> is the one of \<open>curve25519-donna.c\<close>, called with a result buffer that
  holds \<open>mypublic\<close>. The C function has no failure.
\<close>

definition donna_context ::
  "bytes \<Rightarrow> ('h, 'd, 'w) signal_context \<Rightarrow> ('h, 'd, 'w) signal_context" where
  "donna_context mypublic context =
     context\<lparr>curve25519_donna := (\<lambda>secret basepoint. Some (Donna.curve25519_donna mypublic secret basepoint))\<rparr>"

lemma agreement_x25519:
  assumes "length mypublic = 32" "length (ec_public_data p) = 32" "length (ec_private_data s) = 32"
  obtains key where "curve_calculate_agreement (donna_context mypublic context) (Some p) (Some s) = Inr key" "length key = 32"
    "int (little_endian key) =
      x25519 (little_endian (ec_private_data s)) (int (little_endian (ec_public_data p) mod 2 ^ 255))"
  using donna_x25519 [OF assms(1,3,2)] by (simp add: curve_calculate_agreement_def donna_context_def)

lemma basepoint_nine: "length donna_basepoint = 32" "little_endian donna_basepoint = 9"
proof -
  have "little_endian (replicate n 0) = 0" for n
    by (induction n) simp_all
  then show "length donna_basepoint = 32" "little_endian donna_basepoint = 9"
    by (simp_all add: donna_basepoint_def)
qed

lemma public_key_x25519:
  assumes "length mypublic = 32" "length (ec_private_data s) = 32"
  obtains p where "curve_generate_public_key (donna_context mypublic context) s = Inr p" "length (ec_public_data p) = 32"
    "int (little_endian (ec_public_data p)) = x25519 (little_endian (ec_private_data s)) 9"
  using donna_x25519 [OF assms basepoint_nine(1)]
  by (simp add: curve_generate_public_key_def donna_context_def basepoint_nine(2))

end
