(* ===== verification/Spec2Isabelle.thy ===== *)
theory Spec2Isabelle
  imports First_Message Group_Session_Builder Fingerprint Device_Consistency Reference_Groups X25519
begin

text \<open>
  \<^bold>\<open>The Signal protocol library of the repository.\<close>

  The repository is a React Native messaging module. Its protocol engine is the C library under
  \<open>src/ios/SignalMessagingSwift/libsignal-protocol-swift-master/libsignal-protocol-swift/libsignal-protocol-c/\<close>;
  all file names below are relative to that directory. The Swift, Objective-C, Java and JavaScript code around it
  hands the library its callbacks and moves its results between the platform, a server and the disk.

  \<^bold>\<open>Parts and how they interact.\<close>
  A session starts when one side processes the pre-key bundle of the other (\<open>session_builder.c\<close>): it checks the
  identity and the signature, agrees on keys (\<open>curve.c\<close>, \<open>hkdf.c\<close>, \<open>ratchet.c\<close>) and stores a session record. The
  first message carries what the other side needs to do the same. Encryption and decryption
  (\<open>session_cipher.c\<close>) load the record, step the ratchet of its session state (\<open>session_state.c\<close>), build or check the message
  (\<open>protocol.c\<close>) and store the record. Groups work with sender keys (\<open>sender_key*.c\<close>, \<open>group_cipher.c\<close>,
  \<open>group_session_builder.c\<close>). Records and messages travel as protocol buffers
  (\<open>protobuf-c/protobuf-c.c\<close> and the generated \<open>*.pb-c.c\<close>). Fingerprints and device-consistency codes
  (\<open>fingerprint.c\<close>, \<open>device_consistency.c\<close>) let people compare keys.

  \<^bold>\<open>Theories.\<close>
  \<^item> \<open>Prelude\<close>: bytes, words, the error type \<open>sg_error + 'a\<close>, the state-passing actions \<open>('w, 'a) act\<close> and their
    binds, shared list and word lemmas. \<open>Message_Keys\<close>: the locales of bounded queues (\<open>bounded_queue\<close>) and of chains whose
    keys are skipped and taken out of order (\<open>message_chain\<close>), interpreted for session
    chains, receiver chains, archived states and sender keys.
  \<^item> \<open>Varint\<close>, \<open>Protobuf\<close>, \<open>Pb_Codec\<close>: \<open>protobuf-c.c\<close>, its integers at their width, sizes, packing, scanning, parsing and
    merging; the locale \<open>pb_codec\<close> says what a generated message type promises and is interpreted for each of the messages in
    \<open>LocalStorageProtocol\<close>, \<open>WhisperTextProtocol\<close> and \<open>FingerprintProtocol\<close>.
  \<^item> \<open>Signal_Context\<close>, \<open>Store\<close>: \<open>signal_protocol.c\<close>, the crypto provider and the store callbacks with their wrappers.
    \<open>Vpool\<close>: \<open>vpool.c\<close>.
  \<^item> \<open>Curve\<close>, \<open>HKDF\<close>, \<open>Ratchet\<close>, \<open>Ratcheting_Session\<close>: \<open>curve.c\<close>, \<open>hkdf.c\<close> and \<open>ratchet.c\<close>.
  \<^item> \<open>Donna\<close>: \<open>curve25519/curve25519-donna.c\<close> in machine words, one definition per function. \<open>Donna_Field\<close>,
    \<open>Donna_Reduce\<close>: limbs as integers, products, reduction and their bounds; \<open>Donna_Bytes\<close>, \<open>Donna_Contract\<close>, \<open>Donna_Output\<close>:
    expansion and contraction; \<open>Donna_Ladder\<close>: X25519 of RFC 7748 and the ladder as its refinement; \<open>X25519\<close>: the whole function and \<open>curve.c\<close> over it.
  \<^item> \<open>Session_State\<close>, \<open>Session_Record\<close>, \<open>Session_Pre_Key\<close>, \<open>Session_Builder\<close>, \<open>Session_Cipher\<close>, \<open>Protocol\<close>: the C files of the same
    names, one definition per function. \<open>Session_Cipher_Props\<close>, \<open>Conversation\<close> and \<open>First_Message\<close> hold the properties of
    decryption, of two sides that exchange messages, and of the start of a session.
  \<^item> \<open>Sender_Key\<close>, \<open>Sender_Key_State\<close>, \<open>Sender_Key_Record\<close>, \<open>Group_Cipher\<close>, \<open>Group_Session_Builder\<close>, \<open>Key_Helper\<close>: the C files of the same names.
  \<^item> \<open>Digest_Codes\<close>, \<open>Fingerprint\<close>, \<open>Device_Consistency\<close>: \<open>fingerprint.c\<close> and \<open>device_consistency.c\<close>.
  \<^item> \<open>Reference_Context\<close>, \<open>Reference_Sessions\<close>, \<open>Reference_Groups\<close>: a concrete crypto provider, concrete stores and concrete
    sessions, at which the hypotheses below hold.

  \<^bold>\<open>How code becomes definitions.\<close>
  A struct is a record, a tagged or optional pointer a datatype or option, a \<open>uint32_t\<close> a 32-bit word, a list of
  \<open>utlist.h\<close> an Isabelle list. A function that only computes is a HOL function into the result type, with
  each error code of the source a value of \<open>sg_error\<close>; one that calls the application is an action on the application's
  state \<open>'w\<close>. \<open>SG_ABORT\<close> is a failed \<open>assert\<close> or undefined behaviour, such as reading a
  null pointer or writing outside a block. Loops over a finite structure are recursive functions with a termination proof.
  The loop over output blocks in \<open>hkdf_expand\<close> may run for ever, since its counter has 8 bits; it runs on fuel of
  257 rounds, one more than the counter has values, and both its result and its divergence (for every amount of fuel) are
  proved. The loop that skips messages is a terminating function, bounded by the guard of 2000 messages. No other
  definition uses fuel.

  \<^bold>\<open>Laws assumed.\<close>
  The application's crypto provider and stores and the primitives of \<open>curve25519/\<close> that \<open>curve.c\<close> calls are arguments of the
  definitions; for scalar multiplication the argument can be the modelled one (\<open>donna_context\<close>). What the properties need of them are named predicates: \<open>hmac_spec\<close> (the HMAC is a function of key and input with
  32-byte results), \<open>dh_spec\<close> (agreement commutes), \<open>cipher_spec\<close> (decryption inverts encryption), \<open>random_spec\<close> (random bytes of the requested
  length arrive), \<open>signature_spec\<close> (a signature made with a key verifies with its public key), \<open>sha512_spec\<close>
  (the digest is a function of the input), \<open>session_store_spec\<close>, \<open>pre_key_store_spec\<close>,
  \<open>sender_key_store_spec\<close>, \<open>initiator_store\<close>, \<open>responder_store\<close> (what was stored is what is loaded, and a store keeps the rest). None of them
  is a security claim; \<open>Reference_Context\<close> satisfies them all.

  \<^bold>\<open>What the properties show.\<close>
  Sessions: a processed bundle and its first message give the responder the plaintext and both sides the
  same session; every later message is delivered, in order or in any order within the limits; a replay is refused, a failed decryption leaves the
  record alone, the keys used are those of the ratchet specification. Groups: the same
  for sender keys. Keys: expansion is RFC 5869, scalar multiplication
  is X25519 of RFC 7748 with no overflow in any limb, decoding of points is exact, generated
  private keys are clamped. Storage and wire: every record and message survives a round trip, the size computed is the
  size written, and no input makes the decoder read outside its buffer. Trust: untrusted identities and bad signatures are refused
  before anything changes. Fingerprints and consistency codes: both sides compute the same, and comparison
  accepts exactly the mirror image. Buffers: the pool is a byte string.

  \<^bold>\<open>Bounds.\<close>
  Round trips hold for messages below \<open>2 ^ 27\<close> bytes (fields below \<open>2 ^ 26\<close>), since the scanner refuses
  more than its slabs hold and adds lengths in 32 bits. Chain indices wrap at \<open>2 ^ 32\<close>; the properties about
  sequences of messages say how far they stay below it. The pool's properties stay a block away from \<open>2 ^ 64\<close>, where its size computation wraps.

  \<^bold>\<open>Not modelled.\<close>
  Memory allocation always succeeds; reference counts, freeing, locking and logging have no counterpart. The
  signatures of \<open>curve25519/ed25519/\<close> (Ed25519, XEdDSA and the VRF code) are parameters, and that agreement over X25519 commutes, a fact about
  the group of the curve, is the law \<open>dh_spec\<close>. Of \<open>protobuf-c.c\<close> the
  service, text and enum interfaces, the simple buffer and the field kinds that no generated descriptor uses (required, packed, oneof, string, float) are left out,
  as are \<open>uthash.h\<close> and \<open>utarray.h\<close>, which no modelled function uses except as a list. The Swift, Objective-C, Java and JavaScript code is platform
  input and output around the library.
\<close>

section \<open>Sessions\<close>







text \<open>
  C4. Both sides of a session set-up agree. When \<open>ratcheting_session_alice_initialize\<close> and
  \<open>ratcheting_session_bob_initialize\<close> run on corresponding keys, the chain with which the responder
  sends is the one the initiator receives with, and from the responder's root key and its ratchet
  private key the ratchet step computes the root and sending chain of the initiator.
\<close>

theorem session_setup_agrees:
  assumes "hmac_spec context mac" "dh_spec context dh" "parameters_correspond context a b"
    and "ratcheting_session_alice_initialize context state_a a w = (Inr alice, w')"
    and "ratcheting_session_bob_initialize context state_b b = Inr bob"
  shows "\<exists>derived_root derived_chain sending root chain.
    session_state_get_root_key bob = Some derived_root \<and>
    session_state_get_sender_chain_key bob = Some derived_chain \<and>
    last (ss_receiver_chains alice) =
       \<lparr>sender_ratchet_key = Some (public_key (bob_our_ratchet_key b)),
        receiver_chain_key = Some derived_chain, message_keys = []\<rparr> \<and>
    session_state_get_sender_ratchet_key_pair alice = Some sending \<and>
    session_state_get_root_key alice = Some root \<and>
    session_state_get_sender_chain_key alice = Some chain \<and>
    ratchet_root_key_create_chain context derived_root (Some (public_key sending))
       (Some (private_key (bob_our_ratchet_key b))) = Inr (root, chain)"
  by (rule initialize_agree [OF assms]) blast

theorem session_setup_agrees_witness:
  "\<exists>alice bob derived_root derived_chain sending root chain w'.
    ratcheting_session_alice_initialize ref_context session_state_create ref_initiator_parameters (new_world 7) = (Inr alice, w') \<and>
    ratcheting_session_bob_initialize ref_context session_state_create ref_responder_parameters = Inr bob \<and>
    session_state_get_root_key bob = Some derived_root \<and>
    session_state_get_sender_chain_key bob = Some derived_chain \<and>
    last (ss_receiver_chains alice) =
       \<lparr>sender_ratchet_key = Some (public_key (ref_key 3)), receiver_chain_key = Some derived_chain, message_keys = []\<rparr> \<and>
    session_state_get_sender_ratchet_key_pair alice = Some sending \<and>
    session_state_get_root_key alice = Some root \<and>
    session_state_get_sender_chain_key alice = Some chain \<and>
    ratchet_root_key_create_chain ref_context derived_root (Some (public_key sending))
       (Some (private_key (ref_key 3))) = Inr (root, chain)"
proof -
  obtain alice w' where alice: "ratcheting_session_alice_initialize ref_context session_state_create
      ref_initiator_parameters (new_world 7) = (Inr alice, w')"
    using ref_initialized(1) by blast
  obtain bob where bob: "ratcheting_session_bob_initialize ref_context session_state_create ref_responder_parameters = Inr bob"
    using ref_initialized(2) by blast
  have "bob_our_ratchet_key ref_responder_parameters = ref_key 3"
    by (simp add: ref_parameter_defs)
  then show ?thesis
    using session_setup_agrees [OF ref_hmac ref_dh_spec ref_parameters alice bob] alice bob by simp
qed

text \<open>
  C5. No replay. Once a record has decrypted a message, the same message presented to the record
  that decryption left is refused with \<open>SG_ERR_DUPLICATE_MESSAGE\<close>, whichever of the states of the
  record decrypted it and whether its key was skipped or derived.
\<close>

theorem replayed_message_refused:
  assumes "hmac_spec context mac" "dh_spec context dh" "random_spec context"
    and "session_record_ok r" "record_counters_ok r"
    and "ec_public_key_ok (sm_sender_ratchet_key m)" "sm_counter m \<noteq> -1"
    and "session_cipher_decrypt_from_record_and_signal_message context r m w = (Inr (plaintext, r'), w')"
  shows "session_cipher_decrypt_from_record_and_signal_message context r' m v = (Inl SG_ERR_DUPLICATE_MESSAGE, v)"
  using assms by (rule decrypt_from_record_twice)

theorem replayed_message_refused_witness:
  "\<exists>em A' r' w'. session_cipher_encrypt_state ref_context ref_initiator [7, 7] = Inr (em, A') \<and>
    session_cipher_decrypt_from_record_and_signal_message ref_context (session_record_create (Some ref_responder))
      (carried_message em) (new_world 9) = (Inr ([7, 7], r'), w') \<and>
    session_cipher_decrypt_from_record_and_signal_message ref_context r' (carried_message em) w' =
      (Inl SG_ERR_DUPLICATE_MESSAGE, w')"
proof -
  obtain em A' r' w' where em: "session_cipher_encrypt_state ref_context ref_initiator [7, 7] = Inr (em, A')"
    and dec: "session_cipher_decrypt_from_record_and_signal_message ref_context (session_record_create (Some ref_responder))
      (carried_message em) (new_world 9) = (Inr ([7, 7], r'), w')"
    and m: "ec_public_key_ok (sm_sender_ratchet_key (carried_message em))" "sm_counter (carried_message em) \<noteq> -1"
    using ref_record_decrypts by blast
  show ?thesis
    using em dec replayed_message_refused [OF ref_hmac ref_dh_spec ref_random_spec ref_record_ok m dec] by blast
qed

text \<open>
  C6. Decryption keeps the invariant of session records, and with it the bounds on what a peer can make
  the library store: the archived states, the receiver chains of each state and the skipped message
  keys of each chain stay within their limits.
\<close>

theorem decryption_keeps_record:
  assumes "hmac_spec context mac" "dh_spec context dh" "random_spec context"
    and "session_record_ok r" "ec_public_key_ok (sm_sender_ratchet_key m)"
    and "session_cipher_decrypt_from_record_and_signal_message context r m w = (Inr (plaintext, r'), w')"
  shows "session_record_ok r' \<and> length (sr_previous_states r') \<le> ARCHIVED_STATES_MAX_LENGTH \<and>
    list_all (\<lambda>s. length (ss_receiver_chains s) \<le> MAX_RECEIVER_CHAINS \<and>
      list_all (\<lambda>c. length (message_keys c) \<le> MAX_MESSAGE_KEYS) (ss_receiver_chains s))
      (sr_state r' # sr_previous_states r')"
  using decrypt_from_record_ok [OF assms]
  by (auto simp: session_record_ok_def session_state_ok_def receiver_chain_ok_def list_all_iff)

theorem decryption_keeps_record_witness:
  "\<exists>em A' r' w'. session_cipher_encrypt_state ref_context ref_initiator [7, 7] = Inr (em, A') \<and>
    session_cipher_decrypt_from_record_and_signal_message ref_context (session_record_create (Some ref_responder))
      (carried_message em) (new_world 9) = (Inr ([7, 7], r'), w') \<and>
    session_record_ok r' \<and> length (sr_previous_states r') \<le> 40"
proof -
  obtain em A' r' w' where em: "session_cipher_encrypt_state ref_context ref_initiator [7, 7] = Inr (em, A')"
    and dec: "session_cipher_decrypt_from_record_and_signal_message ref_context (session_record_create (Some ref_responder))
      (carried_message em) (new_world 9) = (Inr ([7, 7], r'), w')"
    and m: "ec_public_key_ok (sm_sender_ratchet_key (carried_message em))" "sm_counter (carried_message em) \<noteq> -1"
    using ref_record_decrypts by blast
  show ?thesis
    using em dec decryption_keeps_record [OF ref_hmac ref_dh_spec ref_random_spec ref_record_ok(1) m(1) dec]
    by (auto simp: ARCHIVED_STATES_MAX_LENGTH_def)
qed

text \<open>
  C7. \<open>session_cipher_get_or_create_message_keys\<close> refines the abstract key chain \<open>fetch_session_key\<close>: a
  key is taken from the stored ones or reached by advancing the chain, the skipped keys
  are stored, a counter that was used is a duplicate, and one more than 2000 ahead is refused. Only the chain of that sender
  changes in the state.
\<close>

theorem message_keys_follow_specification:
  assumes "hmac_spec context mac"
    and "session_state_find_receiver_chain s e = Some c" "receiver_chain_key c = Some ck" "hkdf_ok (ck_kdf ck)"
  shows "session_cipher_get_or_create_message_keys context s e ck n =
    rbind (fetch_session_key mac n ck (message_keys c)) (\<lambda>(mk, ck', mks).
    Inr (mk, put_receiver_chain s e (fetched_chain c ck' mks)))"
  using assms by (rule message_keys_refine)

theorem message_keys_follow_specification_witness:
  "session_cipher_get_or_create_message_keys ref_context ref_chain_state (public_key (ref_key 3)) ref_chain_key 2 =
    rbind (fetch_session_key ref_mac 2 ref_chain_key []) (\<lambda>(mk, ck', mks).
    Inr (mk, put_receiver_chain ref_chain_state (public_key (ref_key 3)) (fetched_chain
      \<lparr>sender_ratchet_key = Some (public_key (ref_key 3)), receiver_chain_key = Some ref_chain_key, message_keys = []\<rparr> ck' mks)))"
  using message_keys_follow_specification [OF ref_hmac ref_chain_found, of ref_chain_key 2]
  by (simp add: ref_chain_key_def hkdf_ok_def)



text \<open>
  C9. Messages that decrypt are authentic. When a session of version 3 decrypts a message, the message on the
  wire is a body followed by the first 8 bytes of the MAC of sender identity, receiver
  identity and body, under the MAC key of the message keys that the session derives from its chain
  for the counter of the message.
\<close>

theorem decrypted_message_authentic:
  assumes "hmac_spec context mac" "ss_session_version s = 3"
    and "session_cipher_decrypt_from_state_and_signal_message context s m w = (Inr (plaintext, s'), w')"
  shows "\<exists>ck s1 mk s2 them us body.
    session_cipher_get_or_create_chain_key context s (sm_sender_ratchet_key m) w = (Inr (ck, s1), w') \<and>
    session_cipher_get_or_create_message_keys context s1 (sm_sender_ratchet_key m) ck (sm_counter m) = Inr (mk, s2) \<and>
    ss_remote_identity_public s = Some them \<and> ss_local_identity_public s = Some us \<and>
    serialized (sm_base_message m) = Some (body @ take 8 (mac (mk_mac_key mk)
      (DJB_TYPE # ec_public_data them @ DJB_TYPE # ec_public_data us @ body)))"
proof -
  obtain ck s1 mk s2 them us where steps:
    "session_cipher_get_or_create_chain_key context s (sm_sender_ratchet_key m) w = (Inr (ck, s1), w')"
    "session_cipher_get_or_create_message_keys context s1 (sm_sender_ratchet_key m) ck (sm_counter m) = Inr (mk, s2)"
    and ids: "ss_remote_identity_public s = Some them" "ss_local_identity_public s = Some us"
    and version: "sm_message_version m = 3"
    and verified: "signal_message_verify_mac context m (Some them) (Some us) (mk_mac_key mk) = Inr True"
    by (rule decrypt_from_state_verified [OF assms])
  obtain d where d: "serialized (sm_base_message m) = Some d" "SIGNAL_MESSAGE_MAC_LENGTH \<le> length d"
    using verified by (auto simp: signal_message_verify_mac_def rbind_eq_Inr deref_def split: option.splits if_splits)
  let ?n = "length d - SIGNAL_MESSAGE_MAC_LENGTH"
  have "serialized (sm_base_message m) = Some (take ?n d @ drop ?n d)" "length (drop ?n d) = SIGNAL_MESSAGE_MAC_LENGTH"
    using d by simp_all
  then have "drop ?n d = take 8 (mac (mk_mac_key mk)
      (DJB_TYPE # ec_public_data them @ DJB_TYPE # ec_public_data us @ take ?n d))"
    using signal_message_verify_mac_iff [OF assms(1), of m "take ?n d" "drop ?n d" them us "mk_mac_key mk"] verified version
    by simp
  then have "serialized (sm_base_message m) = Some (take ?n d @ take 8 (mac (mk_mac_key mk)
      (DJB_TYPE # ec_public_data them @ DJB_TYPE # ec_public_data us @ take ?n d)))"
    using d(1) by (metis append_take_drop_id)
  then show ?thesis
    using steps ids by blast
qed

theorem decrypted_message_authentic_witness:
  "\<exists>em A' s' w' (mk :: ratchet_message_keys) them us body. session_cipher_encrypt_state ref_context ref_initiator [7] = Inr (em, A') \<and>
    session_cipher_decrypt_from_state_and_signal_message ref_context ref_responder (carried_message em) (new_world 9) =
      (Inr ([7], s'), w') \<and>
    serialized (sm_base_message (carried_message em)) = Some (body @ take 8 (ref_mac (mk_mac_key mk)
      (DJB_TYPE # ec_public_data them @ DJB_TYPE # ec_public_data us @ body)))"
proof -
  obtain em A' s' w' where em: "session_cipher_encrypt_state ref_context ref_initiator [7] = Inr (em, A')"
    "session_cipher_decrypt_from_state_and_signal_message ref_context ref_responder (carried_message em) (new_world 9) =
      (Inr ([7], s'), w')"
    using conversation_delivers [OF ref_hmac ref_cipher ref_dh_spec ref_random_spec ref_conversation] by blast
  have "ss_session_version ref_responder = 3"
    using ref_leads by (auto simp: leads_def can_send_def)
  from decrypted_message_authentic [OF ref_hmac this em(2)] show ?thesis
    using em by blast
qed

section \<open>Groups\<close>



text \<open>
  C11. Group messages that decrypt are authentic: the wire message is a body followed by a 64-byte
  signature of the body that verifies under the signing key which the member's record holds for the
  key id of the message.
\<close>

theorem group_message_authentic:
  assumes "group_cipher_decrypt_record context r m = Inr (plaintext, r')"
  shows "\<exists>s body sig. sender_key_record_get_sender_key_state_by_id r (skm_key_id m) = Inr s \<and>
    serialized (skm_base_message m) = Some (body @ sig) \<and> length sig = SIGNATURE_LENGTH \<and>
    curve25519_verify context sig (ec_public_data (sks_signature_public_key s)) body"
proof -
  obtain s where s: "sender_key_record_get_sender_key_state_by_id r (skm_key_id m) = Inr s"
    "sender_key_message_verify_signature context m (sks_signature_public_key s) = Inr ()"
    using assms
    by (auto simp: group_cipher_decrypt_record_def rbind_eq_Inr sender_key_message_get_key_id_def
        sender_key_state_get_signing_key_public_def split: if_splits)
  obtain d where d: "serialized (skm_base_message m) = Some d" "SIGNATURE_LENGTH \<le> length d"
    "curve25519_verify context (drop (length d - SIGNATURE_LENGTH) d) (ec_public_data (sks_signature_public_key s))
      (take (length d - SIGNATURE_LENGTH) d)"
    using s(2)
    by (auto simp: sender_key_message_verify_signature_def rbind_eq_Inr deref_def Let_def curve_verify_signature_def
        split: option.splits if_splits)
  then show ?thesis
    using s(1) by (intro exI [of _ s] exI [of _ "take (length d - SIGNATURE_LENGTH) d"]
        exI [of _ "drop (length d - SIGNATURE_LENGTH) d"]) simp
qed

theorem group_message_authentic_witness:
  "\<exists>m r' r'' w' s body sig.
    group_cipher_encrypt_record ref_context ref_sender_record [7] (new_world 5) = (Inr (m, r'), w') \<and>
    group_cipher_decrypt_record ref_context ref_sender_record m = Inr ([7], r'') \<and>
    sender_key_record_get_sender_key_state_by_id ref_sender_record (skm_key_id m) = Inr s \<and>
    serialized (skm_base_message m) = Some (body @ sig) \<and> length sig = SIGNATURE_LENGTH \<and>
    curve25519_verify ref_context sig (ec_public_data (sks_signature_public_key s)) body"
proof -
  obtain m r' r'' w' where m: "group_cipher_encrypt_record ref_context ref_sender_record [7] (new_world 5) = (Inr (m, r'), w')"
    "group_cipher_decrypt_record ref_context ref_sender_record m = Inr ([7], r'')"
    using ref_group_decrypts by blast
  from group_message_authentic [OF m(2)] show ?thesis
    using m by blast
qed

text \<open>
  C12. No replay in groups. A group message that a record decrypted is refused with
  \<open>SG_ERR_DUPLICATE_MESSAGE\<close> by the record that decryption left.
\<close>

theorem group_replay_refused:
  assumes "hmac_spec context mac" "group_counters_ok r" "skm_iteration m \<noteq> -1"
    and "group_cipher_decrypt_record context r m = Inr (plaintext, r')"
  shows "group_cipher_decrypt_record context r' m = Inl SG_ERR_DUPLICATE_MESSAGE"
  using assms by (rule group_decrypt_record_twice)

theorem group_replay_refused_witness:
  "\<exists>m r' r'' w'. group_cipher_encrypt_record ref_context ref_sender_record [7] (new_world 5) = (Inr (m, r'), w') \<and>
    group_cipher_decrypt_record ref_context ref_sender_record m = Inr ([7], r'') \<and>
    group_cipher_decrypt_record ref_context r'' m = Inl SG_ERR_DUPLICATE_MESSAGE"
proof -
  obtain m r' r'' w' where m: "group_cipher_encrypt_record ref_context ref_sender_record [7] (new_world 5) = (Inr (m, r'), w')"
    "group_cipher_decrypt_record ref_context ref_sender_record m = Inr ([7], r'')" "skm_iteration m = 0"
    using ref_group_decrypts by blast
  from group_replay_refused [OF ref_hmac ref_sender_state_head(4) _ m(2)] show ?thesis
    using m by auto
qed

text \<open>
  C13. \<open>group_cipher_get_sender_key\<close> refines the same abstract key chain as the session cipher, with
  the sender chain's step and message keys: stored keys are used once, skipped ones are stored, used iterations are
  duplicates and iterations more than 2000 ahead are refused.
\<close>

theorem group_keys_follow_specification:
  assumes "hmac_spec context mac"
  shows "group_cipher_get_sender_key context s n =
    rbind (fetch_sender_key mac n (sks_chain_key s) (sks_message_keys s)) (\<lambda>(k, ck, ks).
    Inr (k, s\<lparr>sks_chain_key := ck, sks_message_keys := ks\<rparr>))"
  using assms by (rule group_sender_key_refine)

theorem group_keys_follow_specification_witness:
  "group_cipher_get_sender_key ref_context ref_sender_state 2 =
    rbind (fetch_sender_key ref_mac 2 (sks_chain_key ref_sender_state) []) (\<lambda>(k, ck, ks).
    Inr (k, ref_sender_state\<lparr>sks_chain_key := ck, sks_message_keys := ks\<rparr>))"
  using group_keys_follow_specification [OF ref_hmac, of ref_sender_state 2] by (simp add: ref_sender_state_def)

section \<open>Scalar multiplication\<close>

text \<open>
  C14. The scalar multiplication, written over ten signed limbs in machine integers, computes the
  function X25519 of RFC 7748 over the integers modulo \<open>2 ^ 255 - 19\<close>, for all scalars and coordinates: the
  top bit of the coordinate is ignored, and the result is in canonical form and independent of what the
  result buffer held. The loop runs over all 256 bits of the scalar, as the code does.
\<close>

theorem scalar_multiplication_is_x25519:
  assumes "length mypublic = 32" "length secret = 32" "length basepoint = 32"
  shows "length (Donna.curve25519_donna mypublic secret basepoint) = 32 \<and>
    int (little_endian (Donna.curve25519_donna mypublic secret basepoint)) =
      x25519 (little_endian secret) (int (little_endian basepoint mod 2 ^ 255))"
  using donna_x25519 [OF assms] by simp

theorem scalar_multiplication_is_x25519_witness:
  "int (little_endian (Donna.curve25519_donna (replicate 32 0xa5) (replicate 32 0x48) donna_basepoint)) =
    x25519 (little_endian (replicate 32 0x48)) 9"
  using scalar_multiplication_is_x25519 [of "replicate 32 0xa5" "replicate 32 0x48" donna_basepoint]
  by (simp only: basepoint_nine length_replicate) simp

text \<open>
  C15. The bounds of the limbs are a type discipline that excludes overflow. Sums and
  differences of elements with limbs below \<open>2 ^ 26\<close> have limbs below \<open>2 ^ 27\<close>; products and squares accept
  such elements, their 64-bit column sums do not wrap, and the reduction brings the limbs below \<open>2 ^ 26\<close> again. Each
  result stands for the sum, difference, product or square in the field.
\<close>

theorem field_operations_typed:
  assumes "fe_ok (2 ^ 26) a" "fe_ok (2 ^ 26) b" "fe_ok (2 ^ 27) c" "fe_ok (2 ^ 27) d"
  shows "rep (2 ^ 27) (fsum a b) (fe a + fe b) \<and> rep (2 ^ 27) (fdifference b a) (fe a - fe b) \<and>
    rep (2 ^ 26) (fmul c d) (fe c * fe d) \<and> rep (2 ^ 26) (fsquare c) ((fe c)\<^sup>2)"
  using assms by (intro conjI rep_fsum rep_fdifference rep_fmul rep_fsquare) (simp_all add: rep_def)

theorem field_operations_typed_witness:
  "rep (2 ^ 26) (fmul (replicate 10 0x7ffffff) (replicate 10 (- 0x7ffffff)))
    (fe (replicate 10 0x7ffffff) * fe (replicate 10 (- 0x7ffffff)))"
  using field_operations_typed [of "replicate 10 1" "replicate 10 2" "replicate 10 0x7ffffff" "replicate 10 (- 0x7ffffff)"]
  by (simp add: fe_ok_def)





section \<open>Keys\<close>

text \<open>
  C18. \<open>hkdf_expand\<close> equals the specification of HKDF-Expand: with the blocks \<open>T(i) = HMAC(prk, T(i-1) | info | i)\<close>
  and the counter starting at 1 (at 0 for messages of version 2), the output is the first \<open>output_len\<close> bytes of
  the concatenated blocks, for lengths that need at most \<open>255 - offset\<close> blocks.
\<close>

theorem hkdf_expand_is_rfc5869:
  assumes "hmac_spec context mac"
    and "output_len \<le> 32 * (255 - iteration_start_offset kdf)" "iteration_start_offset kdf \<le> 1"
  shows "hkdf_expand context kdf prk (Some info) output_len =
    Inr (rfc_okm mac prk info (iteration_start_offset kdf) output_len)"
  using assms by (rule hkdf_expand_rfc)

theorem hkdf_expand_is_rfc5869_witness:
  "hkdf_expand ref_context \<lparr>iteration_start_offset = 1\<rparr> (replicate 32 7) (Some [1, 2]) 80 =
    Inr (rfc_okm ref_mac (replicate 32 7) [1, 2] 1 80)"
  using hkdf_expand_is_rfc5869 [OF ref_hmac, of 80 "\<lparr>iteration_start_offset = 1\<rparr>" "replicate 32 7" "[1, 2]"] by simp



text \<open>
  C20. \<open>curve_decode_point\<close> accepts exactly the encodings of public keys: the result is \<open>k\<close> just when
  \<open>k\<close> has 32 bytes and the data are what \<open>ec_public_key_serialize\<close> writes for \<open>k\<close>; everything else,
  the empty buffer included, is \<open>SG_ERR_INVALID_KEY\<close>.
\<close>

theorem point_decoding_exact:
  "curve_decode_point data =
    (if \<exists>k. ec_public_key_ok k \<and> ec_public_key_serialize (Some k) = Inr data
     then Inr (EC_public_key (tl data)) else Inl SG_ERR_INVALID_KEY)"
proof (cases "curve_decode_point data")
  case (Inr k)
  then have "ec_public_key_ok k" "data = DJB_TYPE # ec_public_data k"
    by (simp_all add: curve_decode_point_iff)
  then show ?thesis
    using Inr by (auto simp: ec_public_key_serialize_def)
next
  case (Inl e)
  then have "\<nexists>k. ec_public_key_ok k \<and> ec_public_key_serialize (Some k) = Inr data"
    using curve_decode_point_iff [of data] by (auto simp: ec_public_key_serialize_def)
  then show ?thesis
    using Inl by (auto simp: curve_decode_point_def split: if_splits)
qed

text \<open>
  C21. Generated private keys are clamped as Curve25519 requires: as a little-endian number a generated key is a
  multiple of 8, at least \<open>2 ^ 254\<close> and below \<open>2 ^ 255\<close>.
\<close>

theorem generated_private_key_clamped:
  assumes "random_spec context" "curve_generate_private_key context w = (Inr k, w')"
  shows "length (ec_private_data k) = 32 \<and> 8 dvd little_endian (ec_private_data k) \<and>
    2 ^ 254 \<le> little_endian (ec_private_data k) \<and> little_endian (ec_private_data k) < 2 ^ 255"
  using curve_generate_private_key_clamped [OF assms] clamped_range by (simp add: clamped_def)

theorem generated_private_key_clamped_witness:
  "\<exists>k w'. curve_generate_private_key ref_context (new_world 255) = (Inr k, w') \<and>
    8 dvd little_endian (ec_private_data k) \<and> 2 ^ 254 \<le> little_endian (ec_private_data k)"
proof -
  obtain k w' where k: "curve_generate_private_key ref_context (new_world 255) = (Inr k, w')"
    using generate_key_pair_total [OF ref_dh_spec ref_random_spec, of "new_world 255"]
    by (auto simp: curve_generate_key_pair_def sbind_eq_Inr)
  then show ?thesis
    using generated_private_key_clamped [OF ref_random_spec k] by blast
qed

section \<open>Storage\<close>

text \<open>
  C22. Session records survive storage: a well-formed record, serialised and deserialised, is the same
  record, with its archived states, receiver chains, skipped keys and pending exchanges; it is not fresh any more and has
  no user record, which the store keeps apart.
\<close>

theorem session_record_survives_storage:
  assumes "session_record_ok r"
  shows "rbind (session_record_serialize (Some r)) session_record_deserialize =
    Inr (r\<lparr>sr_is_fresh := False, sr_user_record := None\<rparr>)"
  using assms by (rule session_record_roundtrip)

theorem session_record_survives_storage_witness:
  "rbind (session_record_serialize (Some (session_record_create (Some ref_responder)))) session_record_deserialize =
    Inr ((session_record_create (Some ref_responder))\<lparr>sr_is_fresh := False, sr_user_record := None\<rparr>)"
  by (rule session_record_survives_storage [OF ref_record_ok(1)])

text \<open>
  C23. Sender key records survive storage, with the order of their states, the signing keys and the stored message keys, which are
  derived again from their seeds.
\<close>

theorem sender_key_record_survives_storage:
  assumes "hmac_spec context mac" "sender_key_record_ok mac r"
  shows "rbind (sender_key_record_serialize r) (sender_key_record_deserialize context) =
    Inr (r\<lparr>skr_user_record := None\<rparr>)"
  using assms by (rule sender_key_record_roundtrip)

theorem sender_key_record_survives_storage_witness:
  "rbind (sender_key_record_serialize ref_sender_record) (sender_key_record_deserialize ref_context) =
    Inr (ref_sender_record\<lparr>skr_user_record := None\<rparr>)"
  by (rule sender_key_record_survives_storage [OF ref_hmac ref_sender_record_ok])

section \<open>Messages\<close>

text \<open>
  C24. A signal message read from the bytes that were sent is the message that was created, MAC included.
\<close>

theorem signal_message_survives_wire:
  assumes "signal_message_create context v k key counter previous ciphertext s r = Inr m"
    and "v = 2 \<or> v = 3" "ec_public_key_ok key" "length ciphertext < 2 ^ 26"
  shows "\<exists>data. serialized (sm_base_message m) = Some data \<and> signal_message_deserialize data = Inr m"
  using assms by (rule signal_message_roundtrip)

theorem signal_message_survives_wire_witness:
  "\<exists>m data. signal_message_create ref_context 3 (replicate 32 1) (public_key (ref_key 3)) 4 2 [9, 9]
      (Some (public_key (ref_key 1))) (Some (public_key (ref_key 2))) = Inr m \<and>
    serialized (sm_base_message m) = Some data \<and> signal_message_deserialize data = Inr m"
proof -
  obtain m where m: "signal_message_create ref_context 3 (replicate 32 1) (public_key (ref_key 3)) 4 2 [9, 9]
      (Some (public_key (ref_key 1))) (Some (public_key (ref_key 2))) = Inr m"
    using signal_message_create_total [OF ref_hmac] by blast
  have "ec_public_key_ok (public_key (ref_key 3))"
    using ref_key_matching(2) [of 3] by (simp add: ec_key_pair_ok_def)
  then show ?thesis
    using m signal_message_survives_wire [OF m] by simp
qed

text \<open>
  C25. \<open>signal_message_verify_mac\<close> on a message of version 3 with a serialised body and an 8-byte MAC answers true exactly when
  the MAC is the truncated HMAC of the sender's identity, the receiver's identity and the body.
\<close>

theorem mac_check_exact:
  assumes "hmac_spec context mac" "3 \<le> sm_message_version m"
    "serialized (sm_base_message m) = Some (body @ their_mac)" "length their_mac = SIGNAL_MESSAGE_MAC_LENGTH"
  shows "signal_message_verify_mac context m (Some s) (Some r) k =
    Inr (their_mac = take 8 (mac k (DJB_TYPE # ec_public_data s @ DJB_TYPE # ec_public_data r @ body)))"
  using assms by (rule signal_message_verify_mac_iff)

theorem mac_check_exact_witness:
  "signal_message_verify_mac ref_context
      \<lparr>sm_base_message = \<lparr>message_type = 2, serialized = Some ([0x33, 1, 2] @ replicate 8 5)\<rparr>, sm_message_version = 3,
       sm_sender_ratchet_key = public_key (ref_key 3), sm_counter = 0, sm_previous_counter = 0, sm_ciphertext = []\<rparr>
      (Some (public_key (ref_key 1))) (Some (public_key (ref_key 2))) (replicate 32 5) = Inr True"
  using mac_check_exact [OF ref_hmac, of "\<lparr>sm_base_message = \<lparr>message_type = 2, serialized = Some ([0x33, 1, 2] @ replicate 8 5)\<rparr>,
      sm_message_version = 3, sm_sender_ratchet_key = public_key (ref_key 3), sm_counter = 0, sm_previous_counter = 0,
      sm_ciphertext = []\<rparr>" "[0x33, 1, 2]" "replicate 8 5" "public_key (ref_key 1)" "public_key (ref_key 2)" "replicate 32 5"]
  by (simp add: SIGNAL_MESSAGE_MAC_LENGTH_def ref_mac_def pad_def)

text \<open>
  C26. A pre-key message read from the bytes that were sent is the message that was created, with the
  signal message that it carries.
\<close>

theorem pre_key_message_survives_wire:
  assumes "signal_message_create context 3 k key counter previous ciphertext s r = Inr inner"
    and "ec_public_key_ok key" "length ciphertext < 2 ^ 25"
    and "pre_key_signal_message_create CIPHERTEXT_CURRENT_VERSION reg pre_key_id signed_id base identity inner = Inr m"
    and "ec_public_key_ok base" "ec_public_key_ok identity"
  shows "\<exists>data. serialized (pksm_base_message m) = Some data \<and> pre_key_signal_message_deserialize data = Inr m"
  using assms by (rule pre_key_message_of_created)

theorem pre_key_message_survives_wire_witness:
  "\<exists>inner m data. signal_message_create ref_context 3 (replicate 32 1) (public_key (ref_key 3)) 4 2 [9, 9]
      (Some (public_key (ref_key 1))) (Some (public_key (ref_key 2))) = Inr inner \<and>
    pre_key_signal_message_create CIPHERTEXT_CURRENT_VERSION 77 (Some 31) 22 (public_key (ref_key 5)) (public_key (ref_key 1)) inner =
      Inr m \<and>
    serialized (pksm_base_message m) = Some data \<and> pre_key_signal_message_deserialize data = Inr m"
proof -
  obtain inner d where inner: "signal_message_create ref_context 3 (replicate 32 1) (public_key (ref_key 3)) 4 2 [9, 9]
      (Some (public_key (ref_key 1))) (Some (public_key (ref_key 2))) = Inr inner" "serialized (sm_base_message inner) = Some d"
    using signal_message_create_total [OF ref_hmac] by blast
  obtain m where m: "pre_key_signal_message_create CIPHERTEXT_CURRENT_VERSION 77 (Some 31) 22 (public_key (ref_key 5))
      (public_key (ref_key 1)) inner = Inr m"
    using pre_key_signal_message_create_total [OF inner(2)] by blast
  have "ec_public_key_ok (public_key (ref_key n))" for n
    using ref_key_matching(2) [of n] by (simp add: ec_key_pair_ok_def)
  then show ?thesis
    using inner(1) m pre_key_message_survives_wire [OF inner(1) _ _ m] by simp
qed

section \<open>Wire format\<close>

text \<open>
  C27. Packing a well-formed message and unpacking the bytes with the message's
  descriptor gives the message back, for every descriptor whose field numbers are
  distinct and found by its range table, and every message of less than \<open>2 ^ 27\<close> bytes.
\<close>

theorem protobuf_roundtrip:
  assumes "message_ok m" "desc_ok (msg_desc m)" "protobuf_c_message_get_packed_size m < 2 ^ 27"
  shows "protobuf_c_message_unpack (msg_desc m) (protobuf_c_message_pack m) = Inr m"
  using assms by (rule unpack_pack)

theorem protobuf_roundtrip_witness:
  "protobuf_c_message_unpack textsecure__session_structure__chain__chain_key__descriptor
     (protobuf_c_message_pack (ChainKey_to_msg \<lparr>ChainKey_index = Some 300, ChainKey_key = Some [1, 2]\<rparr>)) =
   Inr (ChainKey_to_msg \<lparr>ChainKey_index = Some 300, ChainKey_key = Some [1, 2]\<rparr>)"
  using protobuf_roundtrip [of "ChainKey_to_msg \<lparr>ChainKey_index = Some 300, ChainKey_key = Some [1, 2]\<rparr>"]
  by (simp add: ChainKey.msg_ok ChainKey.desc_ok ChainKey.msg_desc)
    (simp add: ChainKey_to_msg_def textsecure__session_structure__chain__chain_key__descriptor_def
      uint32_slot_def bytes_slot_def prefixed_size_def uint32_size_def get_tag_size_def)

text \<open>
  C28. \<open>protobuf_c_message_pack\<close> writes exactly as many bytes as \<open>protobuf_c_message_get_packed_size\<close> announces, so the buffers that the
  library allocates with the one are filled by the other.
\<close>

theorem packed_size_exact:
  "length (protobuf_c_message_pack m) = protobuf_c_message_get_packed_size m"
  by (rule pack_length(1))


section \<open>Session set-up and key generation\<close>

text \<open>
  C30. An identity that the store does not trust starts no session: its pre-key messages and its
  bundles are refused with \<open>SG_ERR_UNTRUSTED_IDENTITY\<close>, in the world that the store's answer left.
\<close>

theorem untrusted_identity_refused:
  assumes "signal_protocol_identity_is_trusted_identity (sb_store builder) (sb_remote_address builder) (Some key) w = (Inr 0, w')"
    and "pksm_identity_key message = key" "bundle_identity_key bundle = Some key"
  shows "session_builder_process_pre_key_signal_message context builder r message w = (Inl SG_ERR_UNTRUSTED_IDENTITY, w') \<and>
    session_builder_process_pre_key_bundle context builder bundle w = (Inl SG_ERR_UNTRUSTED_IDENTITY, w')"
  using pre_key_message_untrusted [of builder message w w' "context" r] bundle_untrusted [of builder "bundle" w w' "context"] assms
  by (simp add: pre_key_signal_message_get_identity_key_def session_pre_key_bundle_get_identity_key_def)

theorem untrusted_identity_refused_witness:
  "session_builder_process_pre_key_bundle ref_context (session_builder_create ref_store ref_bob) ref_bundle
      ((new_world 1)\<lparr>w_identities := [(ref_bob, [])]\<rparr>) =
    (Inl SG_ERR_UNTRUSTED_IDENTITY, (new_world 1)\<lparr>w_identities := [(ref_bob, [])]\<rparr>)"
  using untrusted_identity_refused [of "session_builder_create ref_store ref_bob" "public_key (ref_key 2)"
      "(new_world 1)\<lparr>w_identities := [(ref_bob, [])]\<rparr>"
      "(new_world 1)\<lparr>w_identities := [(ref_bob, [])]\<rparr>" "ref_pre_key_message\<lparr>pksm_identity_key := public_key (ref_key 2)\<rparr>"
      ref_bundle ref_context]
  by (simp add: ref_trusted ref_bundle_def)





text \<open>
  C33. \<open>signal_protocol_key_helper_generate_pre_keys\<close> makes the requested number of pre-keys with matching key pairs; their ids
  lie between 1 and \<open>0xFFFFFE\<close> and are distinct, the wrap-around of the id range included.
\<close>

theorem generated_pre_keys_distinct:
  assumes "dh_spec context dh" "random_spec context"
    and "unat (start - 1) + unat n \<le> 2 ^ 32" "n \<le> 0xFFFFFE"
  shows "\<exists>ks w'. signal_protocol_key_helper_generate_pre_keys context start n w = (Inr ks, w') \<and>
    length ks = unat n \<and> distinct (map pk_id ks) \<and> list_all (\<lambda>k. 1 \<le> pk_id k \<and> pk_id k \<le> 0xFFFFFE) ks \<and>
    list_all (\<lambda>k. matching_key_pair context (pk_key_pair k)) ks"
  by (rule generate_pre_keys_ok [OF assms]) blast

theorem generated_pre_keys_distinct_witness:
  "\<exists>ks w'. signal_protocol_key_helper_generate_pre_keys ref_context 0xFFFFFE 2 (new_world 3) = (Inr ks, w') \<and>
    length ks = 2 \<and> distinct (map pk_id ks)"
  using generated_pre_keys_distinct [OF ref_dh_spec ref_random_spec, of "0xFFFFFE" 2 "new_world 3"] by auto



section \<open>Verification of identities\<close>

text \<open>
  C35. Fingerprints match. From the same identifiers and identity keys, each seen from its own side, both
  parties display the same 60 digits, and the scannable fingerprint that one shows, read by the
  other, compares as equal.
\<close>

theorem fingerprints_match:
  assumes "sha512_spec context sha fresh" "fingerprint_generator_create iterations v = Inr generator" "0 < iterations"
    and "c_string_ok li" "c_string_ok ri" "length li < 2 ^ 24" "length ri < 2 ^ 24"
    and "length lk < 2 ^ 24" "length rk < 2 ^ 24"
  shows "\<exists>f g df dg sf sg data.
    fingerprint_generator_create_for_impl context generator li lk ri rk = Inr f \<and>
    fingerprint_generator_create_for_impl context generator ri rk li lk = Inr g \<and>
    fingerprint_get_displayable f = Some df \<and> fingerprint_get_displayable g = Some dg \<and>
    displayable_fingerprint_text df = displayable_fingerprint_text dg \<and>
    length (displayable_fingerprint_text df) = 60 \<and> list_all is_digit (displayable_fingerprint_text df) \<and>
    fingerprint_get_scannable f = Some sf \<and> fingerprint_get_scannable g = Some sg \<and>
    scannable_fingerprint_serialize sg = Inr data \<and>
    rbind (scannable_fingerprint_deserialize data) (scannable_fingerprint_compare sf) = Inr 1"
  using assms by (rule fingerprints_agree)

theorem fingerprints_match_witness:
  "\<exists>generator f g df dg. fingerprint_generator_create 5200 1 = Inr generator \<and>
    fingerprint_generator_create_for_impl ref_context generator [43, 49] (replicate 33 1) [43, 50] (replicate 33 2) = Inr f \<and>
    fingerprint_generator_create_for_impl ref_context generator [43, 50] (replicate 33 2) [43, 49] (replicate 33 1) = Inr g \<and>
    fingerprint_get_displayable f = Some df \<and> fingerprint_get_displayable g = Some dg \<and>
    displayable_fingerprint_text df = displayable_fingerprint_text dg"
proof -
  obtain generator where g: "fingerprint_generator_create 5200 1 = Inr generator"
    by (simp add: fingerprint_generator_create_def)
  have "c_string_ok [43, 49]" "c_string_ok [43, 50]"
    by (simp_all add: c_string_ok_def)
  from fingerprints_match [OF ref_sha512 g _ this, of "replicate 33 1" "replicate 33 2"] g show ?thesis
    by auto
qed

text \<open>
  C36. \<open>scannable_fingerprint_compare\<close> accepts a scanned fingerprint exactly when it is the mirror image of
  the local one: same version, and the other side's identity data and fingerprints in exchanged places. No other
  fingerprint is accepted.
\<close>

theorem scanned_fingerprint_compares_exactly:
  assumes "scannable_fingerprint_ok s" "scannable_fingerprint_ok t"
  shows "scannable_fingerprint_compare s t = Inr 1 \<longleftrightarrow> t = mirrored s"
  using assms by (rule scannable_compare_iff)

theorem scanned_fingerprint_compares_exactly_witness:
  "scannable_fingerprint_compare ref_scannable (mirrored ref_scannable) = Inr 1 \<and>
    scannable_fingerprint_compare ref_scannable ref_scannable \<noteq> Inr 1"
proof -
  have "scannable_fingerprint_ok ref_scannable" "scannable_fingerprint_ok (mirrored ref_scannable)"
    "ref_scannable \<noteq> mirrored ref_scannable"
    by (simp_all add: ref_scannable_def scannable_fingerprint_ok_def mirrored_def c_string_ok_def)
  then show ?thesis
    using scanned_fingerprint_compares_exactly by metis
qed

text \<open>
  C37. Devices agree on the consistency code: from the same generation, the same identity keys and the
  same VRF outputs, listed in any order, they compute the same commitment and the same six digits.
\<close>

theorem consistency_codes_match:
  assumes "sha512_spec context sha fresh" "mset keys = mset keys'"
    and "mset (map dcs_vrf_output sigs) = mset (map dcs_vrf_output sigs')"
  shows "\<exists>c code. device_consistency_commitment_create context generation keys = Inr c \<and>
    device_consistency_commitment_create context generation keys' = Inr c \<and>
    device_consistency_code_generate_for context c sigs = Inr code \<and>
    device_consistency_code_generate_for context c sigs' = Inr code \<and>
    length code = 6 \<and> list_all is_digit code"
  using assms by (rule codes_agree)

theorem consistency_codes_match_witness:
  "\<exists>c code. device_consistency_commitment_create ref_context 1 [public_key (ref_key 1), public_key (ref_key 2)] = Inr c \<and>
    device_consistency_commitment_create ref_context 1 [public_key (ref_key 2), public_key (ref_key 1)] = Inr c \<and>
    device_consistency_code_generate_for ref_context c [] = Inr code \<and> length code = 6"
  using consistency_codes_match [OF ref_sha512, of "[public_key (ref_key 1), public_key (ref_key 2)]"
      "[public_key (ref_key 2), public_key (ref_key 1)]" "[]" "[]" 1] by auto

text \<open>
  C38. A consistency message that was created from a key pair is accepted, unchanged, by everyone who has the
  commitment and the public key; and whatever message is accepted carries a VRF signature
  that verifies for the commitment under the sender's key, and the VRF output of that verification.
\<close>

theorem consistency_message_checked:
  assumes "device_consistency_message_create_from_pair context commitment pair w = (Inr m, w')"
  shows "device_consistency_message_create_from_serialized context commitment (dcm_serialized m) (Some (public_key pair)) = Inr m \<and>
    (\<forall>data key m'. device_consistency_message_create_from_serialized context commitment data (Some key) = Inr m' \<longrightarrow>
       generalized_xveddsa_25519_verify context (dcs_signature (dcm_signature m')) (ec_public_data key) (dcc_serialized commitment) =
       Some (dcs_vrf_output (dcm_signature m')))"
  using message_accepted [OF assms] message_verified by blast

theorem consistency_message_checked_witness:
  "\<exists>m w'. device_consistency_message_create_from_pair ref_context \<lparr>dcc_generation = 1, dcc_serialized = [1, 2]\<rparr> (ref_key 1)
      (new_world 5) = (Inr m, w') \<and>
    device_consistency_message_create_from_serialized ref_context \<lparr>dcc_generation = 1, dcc_serialized = [1, 2]\<rparr>
      (dcm_serialized m) (Some (public_key (ref_key 1))) = Inr m"
proof -
  obtain m w' where m: "device_consistency_message_create_from_pair ref_context \<lparr>dcc_generation = 1, dcc_serialized = [1, 2]\<rparr>
      (ref_key 1) (new_world 5) = (Inr m, w')"
    using ref_consistency_message by blast
  then show ?thesis
    using consistency_message_checked [OF m] by blast
qed

section \<open>Buffers and sender-key messages\<close>



text \<open>
  C40. \<open>vpool_insert\<close> implements insertion into a byte string. As long as the data fit below the limit of the
  pool, with a block to spare below \<open>2 ^ 64\<close>, the call succeeds, grows and moves the block as needed,
  and the contents are the old ones with the data spliced in at the position, or at
  the end for a position beyond it; the invariant of the pool is kept.
\<close>

theorem vpool_insert_splices:
  assumes "vpool_ok pool" "v_off pool + length data + v_blksize pool \<le> SIZE_MAX"
    "v_off pool + length data \<le> v_limit pool"
  shows "\<exists>pool'. vpool_insert pool pos data = Inr (True, pool') \<and> vpool_ok pool' \<and>
    vpool_get_buf pool' = take pos (vpool_get_buf pool) @ data @ drop pos (vpool_get_buf pool)"
  using vpool_insert_refines [OF assms, of pos] by metis

theorem vpool_insert_splices_witness:
  "\<exists>pool'. vpool_insert (vpool_init 1024 0) 7 [1, 2, 3] = Inr (True, pool') \<and> vpool_ok pool' \<and>
    vpool_get_buf pool' = [1, 2, 3]"
  using vpool_insert_splices [of "vpool_init 1024 0" "[1, 2, 3]" 7]
  by (simp add: vpool_init_ok vpool_init_contents) (simp add: vpool_init_def SIZE_MAX_def)

end
